(* ===== verification/Prelude.thy ===== *)
theory Prelude
  imports Main "HOL-Library.Word"
begin

text \<open>
  Shared vocabulary of the development: the byte and task types of the model, the
  Python exceptions that reach the request orchestrator of \<^verbatim>\<open>src/main.py\<close>, the
  counting of list entries with its update lemmas, and the theorem collections that
  the component theories fill.
\<close>

section \<open>Types of the model\<close>

type_synonym byte = "8 word"
type_synonym bytes = "byte list"

text \<open>
  A task identifier names one coroutine \<^verbatim>\<open>work()\<close> created by
  \<^verbatim>\<open>context.application.create_task\<close> in \<^verbatim>\<open>handle_photo\<close>: the
  position of the task in the order of creation.
\<close>

type_synonym tid = nat

text \<open>
  The exceptions raised on the paths of one request. Each constructor is one raise
  site of the program or of a library it calls:
  \<^item> \<open>B64IncorrectPadding\<close>, \<open>B64ExcessChars n\<close>: \<^verbatim>\<open>binascii.Error\<close> raised by
    \<^verbatim>\<open>base64.b64decode\<close> (messages ``Incorrect padding'' and ``number of data
    characters (n) cannot be 1 more than a multiple of 4'');
  \<^item> \<open>B64NonAscii\<close>: the \<^verbatim>\<open>ValueError\<close> of \<^verbatim>\<open>b64decode\<close> on a non-ASCII string;
  \<^item> \<open>PayloadMissing\<close>: the \<^verbatim>\<open>TypeError\<close> of \<^verbatim>\<open>b64decode(None)\<close>, when the response
    item carries no \<^verbatim>\<open>b64_json\<close>;
  \<^item> \<open>NoResponseData\<close>: the \<^verbatim>\<open>IndexError\<close> of \<^verbatim>\<open>res.data[0]\<close> on an empty list;
  \<^item> \<open>ApiError msg\<close>: any exception of \<^verbatim>\<open>client.images.edit\<close> (network, status);
  \<^item> \<open>ImageError msg\<close>: any exception of Pillow inside \<^verbatim>\<open>make_collage\<close>;
  \<^item> \<open>TelegramError msg\<close>: any exception of a Telegram call.
\<close>

datatype exc =
    B64IncorrectPadding
  | B64ExcessChars nat
  | B64NonAscii
  | PayloadMissing
  | NoResponseData
  | ApiError string
  | ImageError string
  | TelegramError string

section \<open>Theorem collections\<close>

named_theorems count_simps "rewrite rules for counting task identifiers and events"
named_theorems step_defs "definitions a step of the orchestrator unfolds"

section \<open>Counting the entries of a list\<close>

text \<open>
  The orchestrator keeps its tasks in a list indexed by task identifier and its
  output in a list of events; its invariants count the entries with a property.
\<close>

abbreviation count_ev :: "('e \<Rightarrow> bool) \<Rightarrow> 'e list \<Rightarrow> nat" where
  "count_ev P es \<equiv> length (filter P es)"

lemma count_ev_append [count_simps]:
  "count_ev P (es @ fs) = count_ev P es + count_ev P fs"
  by simp

text \<open>Overwriting one entry moves the count by at most one.\<close>

lemma count_ev_update:
  "i < length xs \<Longrightarrow>
   count_ev P (xs[i := x]) + (if P (xs ! i) then 1 else 0) = count_ev P xs + (if P x then 1 else 0)"
proof (induction xs arbitrary: i)
  case Nil
  then show ?case by simp
next
  case (Cons y ys)
  then show ?case by (cases i) auto
qed

lemma count_ev_update_same [count_simps]:
  "i < length xs \<Longrightarrow> P (xs ! i) = P x \<Longrightarrow> count_ev P (xs[i := x]) = count_ev P xs"
  using count_ev_update [of i xs P x] by (simp split: if_splits)

lemma count_ev_update_on [count_simps]:
  "i < length xs \<Longrightarrow> \<not> P (xs ! i) \<Longrightarrow> P x \<Longrightarrow> count_ev P (xs[i := x]) = Suc (count_ev P xs)"
  using count_ev_update [of i xs P x] by simp

lemma count_ev_update_off [count_simps]:
  "i < length xs \<Longrightarrow> P (xs ! i) \<Longrightarrow> \<not> P x \<Longrightarrow> Suc (count_ev P (xs[i := x])) = count_ev P xs"
  using count_ev_update [of i xs P x] by simp

lemma count_ev_eq_0_iff: "count_ev P xs = 0 \<longleftrightarrow> (\<forall>x \<in> set xs. \<not> P x)"
  by (simp add: filter_empty_conv)

section \<open>Sums and counts over indices\<close>

lemma sum_list_map_update:
  fixes f :: "'a \<Rightarrow> nat"
  shows "i < length xs \<Longrightarrow> sum_list (map f (xs[i := x])) + f (xs ! i) = sum_list (map f xs) + f x"
  by (induction xs arbitrary: i) (auto split: nat.splits)

lemma sum_list_map_pos:
  fixes f :: "'a \<Rightarrow> nat"
  shows "0 < sum_list (map f xs) \<Longrightarrow> \<exists>i < length xs. 0 < f (xs ! i)"
proof (induction xs)
  case Nil
  then show ?case by simp
next
  case (Cons x xs)
  then show ?case by (cases "0 < f x") (auto intro: exI [of _ 0] dest!: Cons.IH)
qed

lemma count_ev_upt_flip:
  "t < n \<Longrightarrow> \<not> P t \<Longrightarrow> Q t \<Longrightarrow> (\<forall>i<n. i \<noteq> t \<longrightarrow> Q i = P i) \<Longrightarrow>
   count_ev Q [0..<n] = Suc (count_ev P [0..<n])"
proof (induction n)
  case 0
  then show ?case by simp
next
  case (Suc n)
  show ?case
  proof (cases "t = n")
    case True
    with Suc.prems have "count_ev Q [0..<n] = count_ev P [0..<n]"
      by (intro arg_cong [where f = length] filter_cong) auto
    with True Suc.prems show ?thesis by simp
  next
    case False
    with Suc show ?thesis by auto
  qed
qed

lemma count_ev_le_upt:
  "(\<forall>i < length xs. P (xs ! i) \<longrightarrow> Q i) \<Longrightarrow> count_ev P xs \<le> count_ev Q [0..<length xs]"
proof -
  assume h: "\<forall>i < length xs. P (xs ! i) \<longrightarrow> Q i"
  have "count_ev P xs = card {i. i < length xs \<and> P (xs ! i)}"
    by (rule length_filter_conv_card)
  also have "\<dots> \<le> card {i. i < length xs \<and> Q i}"
    using h by (intro card_mono) auto
  also have "\<dots> = count_ev Q [0..<length xs]"
    by (simp add: length_filter_conv_card cong: conj_cong)
  finally show ?thesis .
qed

end
