(* ===== verification/Prepare.thy ===== *)
theory Prepare
  imports Complex_Main Prelude
begin

text \<open>
  The geometry of \<^verbatim>\<open>_prepare(img_bytes, w, h)\<close> (\<^verbatim>\<open>src/main.py\<close>, lines 62--68):
  \<^verbatim>\<open>ImageOps.fit(img, (w, h), Image.LANCZOS)\<close> chooses a crop box of the decoded
  image with the aspect ratio of \<open>(w, h)\<close>, centred, and resamples it to exactly
  \<open>(w, h)\<close>; a \<open>w \<times> h\<close> mask is drawn and attached with \<^verbatim>\<open>putalpha\<close>.
  The crop computation of Pillow's \<^verbatim>\<open>ImageOps.fit\<close> is modelled line by line with the
  arguments \<^verbatim>\<open>_prepare\<close> gives it (\<^verbatim>\<open>bleed=0.0\<close>, \<^verbatim>\<open>centering=(0.5, 0.5)\<close>),
  in exact rational arithmetic where Python uses floats; the checks of
  \<^verbatim>\<open>Image.resize\<close> on its box and of \<^verbatim>\<open>putalpha\<close> on the mask are modelled as the
  error branches they are. The pixel values produced by the LANCZOS filter are not
  modelled: a prepared image is its size and the crop box it was resampled from.
\<close>

type_synonym size = "int \<times> int"
type_synonym rbox = "rat \<times> rat \<times> rat \<times> rat"

definition ZeroDivision :: exc where
  "ZeroDivision = ImageError ''division by zero''"

section \<open>\<^verbatim>\<open>ImageOps.fit\<close>: the crop box\<close>

text \<open>
  The body of \<^verbatim>\<open>ImageOps.fit\<close> up to the call of \<^verbatim>\<open>resize\<close>: the live area
  (the image minus the bleed), the two aspect ratios (each division raises
  \<^verbatim>\<open>ZeroDivisionError\<close> on a zero divisor), the three-way choice of the crop
  size, and the crop box placed by the centering.
\<close>

definition fit_crop :: "size \<Rightarrow> size \<Rightarrow> exc + rbox" where
  "fit_crop isz sz =
     (let (iw, ih) = isz; (w, h) = sz;
          bleed = (0 :: rat); centering_x = (1 / 2 :: rat); centering_y = (1 / 2 :: rat);
          bleed_x = bleed * of_int iw; bleed_y = bleed * of_int ih;
          live_w = of_int iw - bleed_x * 2; live_h = of_int ih - bleed_y * 2
      in if live_h = 0 then Inl ZeroDivision
         else if h = 0 then Inl ZeroDivision
         else
           (let live_ratio = live_w / live_h; output_ratio = of_int w / of_int h
            in if live_ratio = output_ratio then
                 Inr (bleed_x, bleed_y, bleed_x + live_w, bleed_y + live_h)
               else if live_ratio \<ge> output_ratio then
                 (let crop_w = output_ratio * live_h; crop_h = live_h;
                      crop_left = bleed_x + (live_w - crop_w) * centering_x;
                      crop_top = bleed_y + (live_h - crop_h) * centering_y
                  in Inr (crop_left, crop_top, crop_left + crop_w, crop_top + crop_h))
               else if output_ratio = 0 then Inl ZeroDivision
               else
                 (let crop_w = live_w; crop_h = live_w / output_ratio;
                      crop_left = bleed_x + (live_w - crop_w) * centering_x;
                      crop_top = bleed_y + (live_h - crop_h) * centering_y
                  in Inr (crop_left, crop_top, crop_left + crop_w, crop_top + crop_h))))"

section \<open>\<^verbatim>\<open>Image.resize\<close> with a box\<close>

text \<open>
  The argument checks of Pillow's resampling (\<^verbatim>\<open>ImagingResample\<close>), in their
  order; on success the result has exactly the requested size.
\<close>

definition resize_geom :: "size \<Rightarrow> size \<Rightarrow> rbox \<Rightarrow> exc + size" where
  "resize_geom isz sz box =
     (let (iw, ih) = isz; (w, h) = sz; (x0, y0, x1, y1) = box
      in if w < 1 \<or> h < 1 then Inl (ImageError ''height and width must be > 0'')
         else if x0 < 0 \<or> y0 < 0 then Inl (ImageError ''box offset can't be negative'')
         else if x1 > of_int iw \<or> y1 > of_int ih then Inl (ImageError ''box can't exceed original image size'')
         else if x1 - x0 < 0 \<or> y1 - y0 < 0 then Inl (ImageError ''box can't be empty'')
         else Inr (w, h))"

definition fit_geom :: "size \<Rightarrow> size \<Rightarrow> exc + (rbox \<times> size)" where
  "fit_geom isz sz =
     (case fit_crop isz sz of
        Inl e \<Rightarrow> Inl e
      | Inr box \<Rightarrow> (case resize_geom isz sz box of Inl e \<Rightarrow> Inl e | Inr osz \<Rightarrow> Inr (box, osz)))"

section \<open>\<^verbatim>\<open>_prepare\<close>\<close>

record prepared =
  prep_size :: size
  prep_crop :: rbox
  prep_has_alpha :: bool

text \<open>
  \<^verbatim>\<open>Image.new("L", (w, h), 0)\<close> makes the mask; \<^verbatim>\<open>putalpha\<close> requires the mask to
  have the image's size (\<^verbatim>\<open>ValueError: images do not match\<close> otherwise).
\<close>

definition putalpha_geom :: "size \<Rightarrow> size \<Rightarrow> exc + size" where
  "putalpha_geom isz msz = (if isz = msz then Inr isz else Inl (ImageError ''images do not match''))"

text \<open>
  \<^verbatim>\<open>_prepare\<close>: the decoded image (its size, or the exception of
  \<^verbatim>\<open>Image.open\<close>), then \<^verbatim>\<open>fit\<close>, the mask of size \<open>(w, h)\<close> and \<^verbatim>\<open>putalpha\<close>.
\<close>

definition prepare :: "exc + size \<Rightarrow> int \<Rightarrow> int \<Rightarrow> exc + prepared" where
  "prepare decoded w h =
     (case decoded of
        Inl e \<Rightarrow> Inl e
      | Inr isz \<Rightarrow>
          (case fit_geom isz (w, h) of
             Inl e \<Rightarrow> Inl e
           | Inr (box, fsz) \<Rightarrow>
               (case putalpha_geom fsz (w, h) of
                  Inl e \<Rightarrow> Inl e
                | Inr psz \<Rightarrow> Inr \<lparr>prep_size = psz, prep_crop = box, prep_has_alpha = True\<rparr>)))"

section \<open>The crop box on images of positive size\<close>

lemma ratio_ge_iff:
  assumes "0 < ih" "0 < h"
  shows "(of_int w / of_int h \<le> (of_int iw / of_int ih :: rat)) \<longleftrightarrow> w * ih \<le> iw * h"
proof -
  have "(of_int w / of_int h \<le> (of_int iw / of_int ih :: rat)) \<longleftrightarrow> of_int w * of_int ih \<le> (of_int iw * of_int h :: rat)"
    using assms by (simp add: divide_le_eq le_divide_eq mult.commute mult.left_commute)
  also have "\<dots> \<longleftrightarrow> w * ih \<le> iw * h" by (simp flip: of_int_mult)
  finally show ?thesis .
qed

lemma fit_crop_pos:
  assumes "0 < iw" "0 < ih" "0 < w" "0 < h"
  shows "\<exists>cw ch. fit_crop (iw, ih) (w, h)
             = Inr ((of_int iw - cw) / 2, (of_int ih - ch) / 2,
                    (of_int iw - cw) / 2 + cw, (of_int ih - ch) / 2 + ch)
         \<and> cw * of_int h = ch * of_int w
         \<and> ((cw = of_int iw \<and> ch \<le> of_int ih) \<or> (ch = of_int ih \<and> cw \<le> of_int iw))
         \<and> 0 < cw \<and> 0 < ch"
proof (cases "w * ih \<le> iw * h")
  case True
  let ?cw = "of_int w / of_int h * of_int ih :: rat"
  have "?cw \<le> of_int iw" using True assms by (simp add: divide_le_eq field_simps flip: of_int_mult)
  moreover have "fit_crop (iw, ih) (w, h)
             = Inr ((of_int iw - ?cw) / 2, (of_int ih - of_int ih) / 2,
                    (of_int iw - ?cw) / 2 + ?cw, (of_int ih - of_int ih) / 2 + of_int ih)"
    using True assms ratio_ge_iff [of ih h w iw]
    by (auto simp: fit_crop_def Let_def field_simps)
  ultimately show ?thesis using assms
    by (intro exI [of _ ?cw] exI [of _ "of_int ih"]) (simp add: field_simps)
next
  case False
  let ?ch = "of_int iw / (of_int w / of_int h) :: rat"
  have "?ch \<le> of_int ih" using False assms by (simp add: field_simps flip: of_int_mult)
  moreover have "fit_crop (iw, ih) (w, h)
             = Inr ((of_int iw - of_int iw) / 2, (of_int ih - ?ch) / 2,
                    (of_int iw - of_int iw) / 2 + of_int iw, (of_int ih - ?ch) / 2 + ?ch)"
    using False assms ratio_ge_iff [of ih h w iw]
    by (auto simp: fit_crop_def Let_def field_simps)
  ultimately show ?thesis using assms
    by (intro exI [of _ "of_int iw"] exI [of _ ?ch]) (simp add: field_simps)
qed


lemma fit_geom_pos:
  assumes "0 < iw" "0 < ih" "0 < w" "0 < h"
  shows "\<exists>box. fit_geom (iw, ih) (w, h) = Inr (box, (w, h))"
proof -
  obtain cw ch where fc: "fit_crop (iw, ih) (w, h)
             = Inr ((of_int iw - cw) / 2, (of_int ih - ch) / 2,
                    (of_int iw - cw) / 2 + cw, (of_int ih - ch) / 2 + ch)"
      and le: "cw \<le> of_int iw" "ch \<le> of_int ih" and pos: "0 < cw" "0 < ch"
    using fit_crop_pos [OF assms] by auto
  have "0 \<le> (of_int iw - cw) / 2" "(of_int iw - cw) / 2 + cw \<le> of_int iw"
       "0 \<le> (of_int ih - ch) / 2" "(of_int ih - ch) / 2 + ch \<le> of_int ih"
    using le by (simp_all add: field_simps)
  then have rz: "resize_geom (iw, ih) (w, h) ((of_int iw - cw) / 2, (of_int ih - ch) / 2,
                    (of_int iw - cw) / 2 + cw, (of_int ih - ch) / 2 + ch) = Inr (w, h)"
    using assms pos by (simp add: resize_geom_def not_less)
  show ?thesis
    by (rule exI [of _ "((of_int iw - cw) / 2, (of_int ih - ch) / 2,
                    (of_int iw - cw) / 2 + cw, (of_int ih - ch) / 2 + ch)"])
       (simp only: fit_geom_def fc rz sum.case)
qed

lemma putalpha_geom_size: "putalpha_geom isz msz = Inr psz \<Longrightarrow> psz = msz"
  by (simp add: putalpha_geom_def split: if_splits)

lemma prepare_size: "prepare d w h = Inr p \<Longrightarrow> prep_size p = (w, h)"
  by (auto simp: prepare_def split: sum.splits prod.splits dest: putalpha_geom_size)

text \<open>
  C21. \<^verbatim>\<open>_prepare\<close> succeeds on every decoded image of positive size and its
  result has exactly the requested size \<open>(w, h)\<close> and an alpha channel, whatever
  the aspect ratio of the input: the crop box of \<^verbatim>\<open>fit\<close> always passes the
  checks of \<^verbatim>\<open>resize\<close>, and the mask always matches.
\<close>

theorem prepare_exact_size:
  assumes "0 < iw" "0 < ih" "0 < w" "0 < h"
  shows "\<exists>p. prepare (Inr (iw, ih)) w h = Inr p \<and> prep_size p = (w, h) \<and> prep_has_alpha p"
  using fit_geom_pos [OF assms] by (auto simp: prepare_def putalpha_geom_def)

text \<open>
  C22. The crop box of \<^verbatim>\<open>ImageOps.fit\<close> has the aspect ratio of the target,
  is centred in the image, lies inside it, and is the widest box with that ratio
  that fits in the image.
\<close>

theorem fit_crop_maximal:
  assumes "0 < iw" "0 < ih" "0 < w" "0 < h"
    and "fit_crop (iw, ih) (w, h) = Inr (x0, y0, x1, y1)"
  shows "(x1 - x0) * of_int h = (y1 - y0) * of_int w
       \<and> x0 + x1 = of_int iw \<and> y0 + y1 = of_int ih \<and> 0 \<le> x0 \<and> 0 \<le> y0
       \<and> (\<forall>cw ch. cw \<le> of_int iw \<longrightarrow> ch \<le> of_int ih \<longrightarrow> cw * of_int h = ch * of_int w
                 \<longrightarrow> cw \<le> x1 - x0)"
proof -
  obtain cw ch where fc: "fit_crop (iw, ih) (w, h)
             = Inr ((of_int iw - cw) / 2, (of_int ih - ch) / 2,
                    (of_int iw - cw) / 2 + cw, (of_int ih - ch) / 2 + ch)"
      and r: "cw * of_int h = ch * of_int w"
      and full: "(cw = of_int iw \<and> ch \<le> of_int ih) \<or> (ch = of_int ih \<and> cw \<le> of_int iw)"
    using fit_crop_pos [OF assms(1-4)] by auto
  have b: "x0 = (of_int iw - cw) / 2" "y0 = (of_int ih - ch) / 2" "x1 = x0 + cw" "y1 = y0 + ch"
    using assms(5) fc by auto
  have max: "c \<le> cw" if "c \<le> of_int iw" "d \<le> of_int ih" "c * of_int h = d * of_int w" for c d
  proof (cases "cw = of_int iw")
    case True then show ?thesis using that by simp
  next
    case False
    then have "ch = of_int ih" using full by auto
    then have "c * of_int h \<le> cw * of_int h" using that r assms(3) by (simp add: mult_right_mono)
    then show ?thesis using assms(4) by simp
  qed
  show ?thesis using b r full max by (auto simp: field_simps)
qed

text \<open>
  C23. Fill and crop: the crop box is scaled to the target by the factor
  \<open>max (w / iw) (h / ih)\<close>, the same in both directions; the image is scaled
  until it covers the target in both dimensions and the overflow is cropped, never
  letterboxed.
\<close>

theorem fit_scale_fill:
  assumes "0 < iw" "0 < ih" "0 < w" "0 < h"
    and "fit_crop (iw, ih) (w, h) = Inr (x0, y0, x1, y1)"
  shows "of_int w / (x1 - x0) = of_int h / (y1 - y0)
       \<and> of_int w / (x1 - x0) = max (of_int w / of_int iw) (of_int h / of_int ih)"
proof -
  obtain cw ch where fc: "fit_crop (iw, ih) (w, h)
             = Inr ((of_int iw - cw) / 2, (of_int ih - ch) / 2,
                    (of_int iw - cw) / 2 + cw, (of_int ih - ch) / 2 + ch)"
      and r: "cw * of_int h = ch * of_int w"
      and full: "(cw = of_int iw \<and> ch \<le> of_int ih) \<or> (ch = of_int ih \<and> cw \<le> of_int iw)"
      and pos: "0 < cw" "0 < ch"
    using fit_crop_pos [OF assms(1-4)] by auto
  have d: "x1 - x0 = cw" "y1 - y0 = ch" using assms(5) fc by auto
  have eq: "of_int w / cw = (of_int h / ch :: rat)" using r pos by (simp add: field_simps)
  have "of_int w / cw = max (of_int w / of_int iw) (of_int h / of_int ih :: rat)"
    using full
  proof
    assume a: "cw = of_int iw \<and> ch \<le> of_int ih"
    then have "of_int h / of_int ih \<le> (of_int h / ch :: rat)"
      using pos assms(4) by (intro divide_left_mono) auto
    then show ?thesis using a eq by (simp add: max_def)
  next
    assume a: "ch = of_int ih \<and> cw \<le> of_int iw"
    then have "of_int w / of_int iw \<le> (of_int w / cw :: rat)"
      using pos assms(3) by (intro divide_left_mono) auto
    then show ?thesis using a eq by (simp add: max_def)
  qed
  then show ?thesis using d eq by simp
qed

section \<open>Witnesses\<close>

theorem prepare_exact_size_witness:
  "\<exists>p. prepare (Inr (512, 512)) 364 380 = Inr p \<and> prep_size p = (364, 380) \<and> prep_has_alpha p"
  using prepare_exact_size [of 512 512 364 380] by simp

theorem fit_crop_maximal_witness:
  "fit_crop (512, 512) (364, 380) = Inr (1024 / 95, 0, 47616 / 95, 512)
   \<and> 1024 / 95 + 47616 / 95 = (512 :: rat)"
  using fit_crop_maximal [of 512 512 364 380 "1024 / 95" 0 "47616 / 95" 512]
  by (simp add: fit_crop_def Let_def)

theorem fit_scale_fill_witness:
  "fit_crop (1024, 512) (364, 380) = Inr (25344 / 95, 0, 71936 / 95, 512)
   \<and> 364 / (71936 / 95 - 25344 / 95) = max (364 / 1024) (380 / (512 :: rat))"
  using fit_scale_fill [of 1024 512 364 380 "25344 / 95" 0 "71936 / 95" 512]
  by (simp add: fit_crop_def Let_def)

end
