(* ===== verification/Config.thy ===== *)
theory Config
  imports Prelude
begin

text \<open>
  The start-up configuration of \<^verbatim>\<open>src/main.py\<close> (lines 15--22):
  \<^verbatim>\<open>load_dotenv()\<close> merges the variables of the \<^verbatim>\<open>.env\<close> file into the process
  environment, the two credentials and the template path are read with
  \<^verbatim>\<open>os.getenv\<close>, and the module raises \<^verbatim>\<open>RuntimeError\<close> unless both credentials
  are truthy. An environment is a map from variable names to strings; the result of
  the module's start-up is the configuration or the start-up error.
\<close>

type_synonym environ = "string \<rightharpoonup> string"

section \<open>Reading the environment\<close>

text \<open>
  \<^verbatim>\<open>load_dotenv()\<close> with its default \<^verbatim>\<open>override=False\<close>: a variable of the
  \<^verbatim>\<open>.env\<close> file is set only when the process environment does not have it, so the
  process environment wins (\<open>m1 ++ m2\<close> takes \<open>m2\<close>'s value where \<open>m2\<close> has one).
\<close>

definition load_dotenv :: "environ \<Rightarrow> environ \<Rightarrow> environ" where
  "load_dotenv dotenv env = dotenv ++ env"

text \<open>\<^verbatim>\<open>os.getenv(key)\<close> and \<^verbatim>\<open>os.getenv(key, default)\<close>.\<close>

definition getenv :: "environ \<Rightarrow> string \<Rightarrow> string option" where
  "getenv env k = env k"

definition getenv_default :: "environ \<Rightarrow> string \<Rightarrow> string \<Rightarrow> string" where
  "getenv_default env k d = (case env k of None \<Rightarrow> d | Some v \<Rightarrow> v)"

text \<open>Python truthiness of a value of type \<^verbatim>\<open>str | None\<close>: \<^verbatim>\<open>None\<close> and \<^verbatim>\<open>""\<close> are false.\<close>

fun py_truthy :: "string option \<Rightarrow> bool" where
  "py_truthy None = False"
| "py_truthy (Some s) = (s \<noteq> [])"

section \<open>The module's start-up\<close>

record config =
  openai_api_key :: string
  telegram_bot_key :: string
  template_path :: string

text \<open>\<^verbatim>\<open>raise RuntimeError("OPENAI_API_KEY and TELEGRAM_BOT_KEY error")\<close> (line 22).\<close>

datatype startup_error = MissingCredentials

definition DEFAULT_TEMPLATE_PATH :: string where
  "DEFAULT_TEMPLATE_PATH = ''data/template.png''"

text \<open>
  Lines 15--22 in order. \<^verbatim>\<open>not (a and b)\<close> on two values is false exactly when
  both are truthy. The credentials are passed on as the strings read (line 24 hands
  the first to \<^verbatim>\<open>AsyncOpenAI\<close>, line 122 the second to the Telegram builder).
\<close>

definition load_config :: "environ \<Rightarrow> environ \<Rightarrow> startup_error + config" where
  "load_config dotenv env0 =
     (let env = load_dotenv dotenv env0;
          api_key = getenv env ''OPENAI_API_KEY'';
          bot_key = getenv env ''TELEGRAM_BOT_KEY'';
          tpl = getenv_default env ''TEMPLATE_PATH'' DEFAULT_TEMPLATE_PATH
      in if \<not> (py_truthy api_key \<and> py_truthy bot_key) then Inl MissingCredentials
         else Inr \<lparr>openai_api_key = the api_key, telegram_bot_key = the bot_key,
                   template_path = tpl\<rparr>)"

section \<open>Properties\<close>

lemma py_truthy_iff: "py_truthy v \<longleftrightarrow> (\<exists>s. v = Some s \<and> s \<noteq> [])"
  by (cases v) auto

lemma load_dotenv_lookup:
  "load_dotenv dotenv env k = (case env k of None \<Rightarrow> dotenv k | Some v \<Rightarrow> Some v)"
  by (simp add: load_dotenv_def map_add_def)

text \<open>
  C19. Fail fast: start-up succeeds exactly when both credentials are set to a
  non-empty string, in the process environment or else in \<^verbatim>\<open>.env\<close>; an unset and an
  empty credential are rejected alike, and the configuration then holds the values
  read, the environment's taking precedence over the file's.
\<close>

theorem load_config_fail_fast:
  "(\<exists>cfg. load_config dotenv env = Inr cfg) \<longleftrightarrow>
     py_truthy (load_dotenv dotenv env ''OPENAI_API_KEY'')
     \<and> py_truthy (load_dotenv dotenv env ''TELEGRAM_BOT_KEY'')"
  by (simp add: load_config_def getenv_def Let_def)

text \<open>
  C20. The values of a successful start-up: the credentials as read (the
  environment's value where the environment has the variable, else the file's), and
  the template path \<^verbatim>\<open>TEMPLATE_PATH\<close> as read, the default
  \<^verbatim>\<open>data/template.png\<close> only when the variable is unset in both; a variable set to
  the empty string is kept as the empty path.
\<close>

theorem load_config_values:
  assumes "load_config dotenv env = Inr cfg"
  shows "Some (openai_api_key cfg) =
           (case env ''OPENAI_API_KEY'' of None \<Rightarrow> dotenv ''OPENAI_API_KEY'' | Some v \<Rightarrow> Some v)
     \<and> Some (telegram_bot_key cfg) =
           (case env ''TELEGRAM_BOT_KEY'' of None \<Rightarrow> dotenv ''TELEGRAM_BOT_KEY'' | Some v \<Rightarrow> Some v)
     \<and> template_path cfg =
           (case env ''TEMPLATE_PATH'' of
              None \<Rightarrow> (case dotenv ''TEMPLATE_PATH'' of None \<Rightarrow> DEFAULT_TEMPLATE_PATH | Some p \<Rightarrow> p)
            | Some p \<Rightarrow> p)"
proof -
  let ?env = "load_dotenv dotenv env"
  have ok: "py_truthy (?env ''OPENAI_API_KEY'')" "py_truthy (?env ''TELEGRAM_BOT_KEY'')"
    and cfg: "cfg = \<lparr>openai_api_key = the (?env ''OPENAI_API_KEY''),
                     telegram_bot_key = the (?env ''TELEGRAM_BOT_KEY''),
                     template_path = getenv_default ?env ''TEMPLATE_PATH'' DEFAULT_TEMPLATE_PATH\<rparr>"
    using assms by (auto simp: load_config_def getenv_def Let_def split: if_splits)
  from ok obtain a b where "?env ''OPENAI_API_KEY'' = Some a" "?env ''TELEGRAM_BOT_KEY'' = Some b"
    by (auto simp: py_truthy_iff)
  with cfg show ?thesis
    by (simp add: getenv_default_def load_dotenv_lookup del: load_dotenv_def
             split: option.splits)
qed

section \<open>Witnesses\<close>

theorem load_config_fail_fast_witness:
  "\<not> (\<exists>cfg. load_config Map.empty [''OPENAI_API_KEY'' \<mapsto> [], ''TELEGRAM_BOT_KEY'' \<mapsto> ''k''] = Inr cfg)"
  using load_config_fail_fast [of Map.empty "[''OPENAI_API_KEY'' \<mapsto> [], ''TELEGRAM_BOT_KEY'' \<mapsto> ''k'']"]
  by (simp add: load_dotenv_def)

theorem load_config_values_witness:
  "load_config [''TEMPLATE_PATH'' \<mapsto> ''t.png'', ''OPENAI_API_KEY'' \<mapsto> ''k1'']
               [''OPENAI_API_KEY'' \<mapsto> ''k0'', ''TELEGRAM_BOT_KEY'' \<mapsto> ''k2'']
     = Inr \<lparr>openai_api_key = ''k0'', telegram_bot_key = ''k2'', template_path = ''t.png''\<rparr>"
  using load_config_values [of "[''TEMPLATE_PATH'' \<mapsto> ''t.png'', ''OPENAI_API_KEY'' \<mapsto> ''k1'']"
          "[''OPENAI_API_KEY'' \<mapsto> ''k0'', ''TELEGRAM_BOT_KEY'' \<mapsto> ''k2'']"
          "\<lparr>openai_api_key = ''k0'', telegram_bot_key = ''k2'', template_path = ''t.png''\<rparr>"]
  by (simp add: load_config_def load_dotenv_def getenv_def getenv_default_def)

end
