(* ===== verification/Collage.thy ===== *)
theory Collage
  imports Prepare Config
begin

text \<open>
  The geometry of \<^verbatim>\<open>make_collage\<close> (\<^verbatim>\<open>src/main.py\<close>, lines 71--92): the
  template is opened from \<^verbatim>\<open>TEMPLATE_PATH\<close>, both photos are prepared to the size
  of the left box, pasted at the top-left corners of the two boxes, and for each box
  in turn a white rounded outline is drawn and a blurred shadow layer is
  alpha-composited 4 pixels below the box's corner; the result is flattened to RGB.
  A collage is modelled by its size and the sequence of drawing operations applied
  to the template, each with the pixels it may write. Coordinates follow Pillow:
  an image of size \<open>(w, h)\<close> placed at \<open>(x, y)\<close> covers the half-open rectangle
  \<open>[x, x + w) \<times> [y, y + h)\<close>, and a shape drawn with the box
  \<open>(x0, y0, x1, y1)\<close> stays within the closed rectangle \<open>[x0, x1] \<times> [y0, y1]\<close>
  (both end points inclusive). Colours and the blur are not modelled.
\<close>

type_synonym box = "int \<times> int \<times> int \<times> int"
type_synonym pixel = "int \<times> int"

section \<open>Constants of the layout\<close>

definition BORDER_WIDTH :: int where
  "BORDER_WIDTH = 2"

definition CORNER_RAD :: int where
  "CORNER_RAD = 12"

definition left_box :: box where
  "left_box = (91, 239, 455, 619)"

definition right_box :: box where
  "right_box = (503, 239, 865, 619)"

text \<open>\<^verbatim>\<open>box[2] - box[0]\<close>, \<^verbatim>\<open>box[3] - box[1]\<close> and \<^verbatim>\<open>box[:2]\<close>.\<close>

fun box_width :: "box \<Rightarrow> int" where
  "box_width (x0, y0, x1, y1) = x1 - x0"

fun box_height :: "box \<Rightarrow> int" where
  "box_height (x0, y0, x1, y1) = y1 - y0"

fun box_origin :: "box \<Rightarrow> int \<times> int" where
  "box_origin (x0, y0, x1, y1) = (x0, y0)"

section \<open>Drawing operations\<close>

datatype slot = Before | After

text \<open>
  \<open>PasteOp s xy sz\<close>: \<^verbatim>\<open>template.paste(img, xy, mask=img)\<close> of the prepared image
  of slot \<open>s\<close>, of size \<open>sz\<close>; \<open>OutlineOp b r wd\<close>:
  \<^verbatim>\<open>draw.rounded_rectangle(b, radius=r, outline="white", width=wd)\<close>;
  \<open>ShadowOp xy sz\<close>: \<^verbatim>\<open>template.alpha_composite(shadow, xy)\<close> of a layer of
  size \<open>sz\<close>.
\<close>

datatype draw_op =
    PasteOp slot "int \<times> int" size
  | OutlineOp box int int
  | ShadowOp "int \<times> int" size

text \<open>The pixels an operation may write.\<close>

fun op_extent :: "draw_op \<Rightarrow> pixel \<Rightarrow> bool" where
  "op_extent (PasteOp s (x, y) (w, h)) (i, j) = (x \<le> i \<and> i < x + w \<and> y \<le> j \<and> j < y + h)"
| "op_extent (OutlineOp (x0, y0, x1, y1) r wd) (i, j) = (x0 \<le> i \<and> i \<le> x1 \<and> y0 \<le> j \<and> j \<le> y1)"
| "op_extent (ShadowOp (x, y) (w, h)) (i, j) = (x \<le> i \<and> i < x + w \<and> y \<le> j \<and> j < y + h)"

text \<open>
  Lines 79--88 in order: the two pastes, then the loop over
  \<^verbatim>\<open>(left_box, right_box)\<close>, each iteration drawing the outline and compositing a
  shadow of size \<open>(w, h)\<close> at \<^verbatim>\<open>(box[0], box[1] + 4)\<close>.
\<close>

definition box_ops :: "size \<Rightarrow> box \<Rightarrow> draw_op list" where
  "box_ops sz b =
     [OutlineOp b CORNER_RAD BORDER_WIDTH, ShadowOp (fst (box_origin b), snd (box_origin b) + 4) sz]"

definition collage_ops :: "size \<Rightarrow> size \<Rightarrow> size \<Rightarrow> draw_op list" where
  "collage_ops bsz asz sz =
     [PasteOp Before (box_origin left_box) bsz, PasteOp After (box_origin right_box) asz]
     @ concat (map (box_ops sz) [left_box, right_box])"

section \<open>\<^verbatim>\<open>make_collage\<close>\<close>

record collage =
  coll_size :: size
  coll_ops :: "draw_op list"

text \<open>
  The file system maps a path to the size of the image stored there
  (\<^verbatim>\<open>Image.open\<close> raises when there is none); \<open>decode\<close> is what
  \<^verbatim>\<open>Image.open\<close> makes of the photo's bytes (its size, or its exception).
  The template is opened first (line 72), then the before and the after photo are
  prepared (lines 77--78); the first exception propagates, uncaught (the caller is
  \<^verbatim>\<open>work\<close>, through \<^verbatim>\<open>asyncio.to_thread\<close>). \<^verbatim>\<open>convert("RGB")\<close> and
  \<^verbatim>\<open>save\<close> keep the template's size.
\<close>

definition make_collage_geom ::
  "(string \<rightharpoonup> size) \<Rightarrow> (bytes \<Rightarrow> exc + size) \<Rightarrow> string \<Rightarrow> bytes \<Rightarrow> bytes \<Rightarrow> exc + collage" where
  "make_collage_geom files decode tpl before_bytes after_bytes =
     (case files tpl of
        None \<Rightarrow> Inl (ImageError ''No such file or directory'')
      | Some tsz \<Rightarrow>
          (let w = box_width left_box; h = box_height left_box
           in case prepare (decode before_bytes) w h of
                Inl e \<Rightarrow> Inl e
              | Inr before_img \<Rightarrow>
                  (case prepare (decode after_bytes) w h of
                     Inl e \<Rightarrow> Inl e
                   | Inr after_img \<Rightarrow>
                       Inr \<lparr>coll_size = tsz,
                            coll_ops = collage_ops (prep_size before_img) (prep_size after_img) (w, h)\<rparr>)))"

section \<open>What the pixels show\<close>

text \<open>
  The operation whose write a pixel of the final collage shows: the last one, in the
  order of the code, that may write it.
\<close>

definition last_writer :: "draw_op list \<Rightarrow> pixel \<Rightarrow> draw_op option" where
  "last_writer ops p = find (\<lambda>op. op_extent op p) (rev ops)"

section \<open>A concrete configuration\<close>

text \<open>
  A template of 960 by 720 pixels at the default path, and photos that decode to
  1024 by 768 pixels; used to run \<open>make_collage_geom\<close> on concrete inputs.
\<close>

definition demo_files :: "string \<rightharpoonup> size" where
  "demo_files = [DEFAULT_TEMPLATE_PATH \<mapsto> (960, 720)]"

definition demo_decode :: "bytes \<Rightarrow> exc + size" where
  "demo_decode bs = Inr (1024, 768)"

section \<open>Properties of the layout\<close>

lemma slot_size: "box_width left_box = 364" "box_height left_box = 380"
  by (simp_all add: left_box_def)

lemma make_collage_geom_Inr:
  assumes "make_collage_geom files decode tpl b a = Inr c"
  shows "files tpl = Some (coll_size c)
       \<and> coll_ops c = collage_ops (364, 380) (364, 380) (364, 380)"
  using assms
  by (auto simp: make_collage_geom_def slot_size split: option.splits sum.splits dest!: prepare_size)

lemma the_collage_ops:
  "collage_ops (364, 380) (364, 380) (364, 380) =
     [PasteOp Before (91, 239) (364, 380), PasteOp After (503, 239) (364, 380),
      OutlineOp (91, 239, 455, 619) 12 2, ShadowOp (91, 243) (364, 380),
      OutlineOp (503, 239, 865, 619) 12 2, ShadowOp (503, 243) (364, 380)]"
  by (simp add: collage_ops_def box_ops_def left_box_def right_box_def CORNER_RAD_def BORDER_WIDTH_def)

text \<open>
  C24. \<^verbatim>\<open>make_collage\<close> succeeds whenever the template can be opened and both
  photos decode to images of positive size; the collage has the template's size and
  is the six drawing operations of lines 79--88 with both photos at 364 by 380.
\<close>

theorem make_collage_succeeds:
  assumes "files tpl = Some tsz"
    and "decode b = Inr (bw, bh)" "0 < bw" "0 < bh"
    and "decode a = Inr (aw, ah)" "0 < aw" "0 < ah"
  shows "\<exists>c. make_collage_geom files decode tpl b a = Inr c \<and> coll_size c = tsz
           \<and> coll_ops c = collage_ops (364, 380) (364, 380) (364, 380)"
proof -
  obtain bb where bb: "fit_geom (bw, bh) (364, 380) = Inr (bb, (364, 380))"
    using fit_geom_pos [of bw bh 364 380] assms(3,4) by auto
  obtain ab where ab: "fit_geom (aw, ah) (364, 380) = Inr (ab, (364, 380))"
    using fit_geom_pos [of aw ah 364 380] assms(6,7) by auto
  show ?thesis
    using assms(1,2,5) bb ab
    by (simp add: make_collage_geom_def slot_size prepare_def putalpha_geom_def)
qed

text \<open>
  C25. Every pixel the collage's operations may write lies inside the template
  exactly when the template is at least 867 by 623 pixels: the after photo reaches
  column 866 and the shadows reach row 622.
\<close>

theorem collage_inside_template:
  assumes "make_collage_geom files decode tpl b a = Inr c"
  shows "(\<forall>op \<in> set (coll_ops c). \<forall>i j. op_extent op (i, j) \<longrightarrow>
            0 \<le> i \<and> i < fst (coll_size c) \<and> 0 \<le> j \<and> j < snd (coll_size c))
         \<longleftrightarrow> 867 \<le> fst (coll_size c) \<and> 623 \<le> snd (coll_size c)"
proof -
  obtain tw th where sz: "coll_size c = (tw, th)" by (cases "coll_size c")
  have ops: "coll_ops c = collage_ops (364, 380) (364, 380) (364, 380)"
    using make_collage_geom_Inr [OF assms] by simp
  show ?thesis
  proof
    assume h: "\<forall>op \<in> set (coll_ops c). \<forall>i j. op_extent op (i, j) \<longrightarrow>
            0 \<le> i \<and> i < fst (coll_size c) \<and> 0 \<le> j \<and> j < snd (coll_size c)"
    have m: "PasteOp After (503, 239) (364, 380) \<in> set (coll_ops c)"
            "ShadowOp (91, 243) (364, 380) \<in> set (coll_ops c)"
      by (simp_all add: ops the_collage_ops)
    have "866 < tw" using h [rule_format, OF m(1), of 866 239] by (simp add: sz)
    moreover have "622 < th" using h [rule_format, OF m(2), of 91 622] by (simp add: sz)
    ultimately show "867 \<le> fst (coll_size c) \<and> 623 \<le> snd (coll_size c)" by (simp add: sz)
  next
    assume "867 \<le> fst (coll_size c) \<and> 623 \<le> snd (coll_size c)"
    then show "\<forall>op \<in> set (coll_ops c). \<forall>i j. op_extent op (i, j) \<longrightarrow>
            0 \<le> i \<and> i < fst (coll_size c) \<and> 0 \<le> j \<and> j < snd (coll_size c)"
      by (auto simp: ops the_collage_ops sz)
  qed
qed

text \<open>
  C26. The two slots do not overlap: the paste, outline and shadow of the left box
  (operations 0, 2, 3) write only left of column 480, those of the right box
  (operations 1, 4, 5) only right of it.
\<close>

theorem slots_separated:
  assumes "make_collage_geom files decode tpl b a = Inr c"
  shows "length (coll_ops c) = 6
       \<and> (\<forall>k < 6. \<forall>p. op_extent (coll_ops c ! k) p \<longrightarrow> (fst p < 480 \<longleftrightarrow> k \<in> {0, 2, 3}))"
proof -
  have ops: "coll_ops c = collage_ops (364, 380) (364, 380) (364, 380)"
    using make_collage_geom_Inr [OF assms] by simp
  show ?thesis
    by (simp add: ops the_collage_ops numeral_eq_Suc All_less_Suc)
qed

text \<open>
  C27. Both photos are prepared at the size of the left box, but the right box is
  two pixels narrower: the left photo lies within its outline's box, while the right
  photo extends past the right edge of its outline (column 866), the right box being
  362 pixels wide.
\<close>

theorem right_photo_overflows_outline:
  assumes "make_collage_geom files decode tpl b a = Inr c"
  shows "(\<forall>p. op_extent (coll_ops c ! 0) p \<longrightarrow> op_extent (coll_ops c ! 2) p)
       \<and> op_extent (coll_ops c ! 1) (866, 239) \<and> \<not> op_extent (coll_ops c ! 4) (866, 239)
       \<and> box_width right_box = 362"
  using make_collage_geom_Inr [OF assms]
  by (auto simp: the_collage_ops right_box_def)

text \<open>
  The shadow of each box is composited after its photo is pasted: every pixel of
  a photo from four rows below its top edge shows the shadow layer's write last, so the
  shadow is drawn over the photo, not beneath it.
\<close>

theorem shadow_on_top_of_photo:
  assumes "make_collage_geom files decode tpl b a = Inr c"
  shows "(\<forall>i j. op_extent (coll_ops c ! 0) (i, j) \<and> 243 \<le> j \<longrightarrow>
                last_writer (coll_ops c) (i, j) = Some (coll_ops c ! 3))
       \<and> (\<forall>i j. op_extent (coll_ops c ! 1) (i, j) \<and> 243 \<le> j \<longrightarrow>
                last_writer (coll_ops c) (i, j) = Some (coll_ops c ! 5))"
  using make_collage_geom_Inr [OF assms]
  by (simp add: the_collage_ops last_writer_def)

section \<open>Witnesses\<close>

lemma demo_collage:
  "make_collage_geom demo_files demo_decode DEFAULT_TEMPLATE_PATH [1] [2]
     = Inr \<lparr>coll_size = (960, 720), coll_ops = collage_ops (364, 380) (364, 380) (364, 380)\<rparr>"
  by (simp add: make_collage_geom_def demo_files_def demo_decode_def slot_size prepare_def
                fit_geom_def fit_crop_def resize_geom_def putalpha_geom_def Let_def)

theorem make_collage_succeeds_witness:
  "\<exists>c. make_collage_geom demo_files demo_decode DEFAULT_TEMPLATE_PATH [1] [2] = Inr c \<and> coll_size c = (960, 720)
       \<and> coll_ops c = collage_ops (364, 380) (364, 380) (364, 380)"
  using make_collage_succeeds [of demo_files DEFAULT_TEMPLATE_PATH "(960, 720)" demo_decode "[1]" 1024 768 "[2]" 1024 768]
  by (simp add: demo_files_def demo_decode_def)

theorem collage_inside_template_witness:
  "make_collage_geom demo_files demo_decode DEFAULT_TEMPLATE_PATH [1] [2]
     = Inr \<lparr>coll_size = (960, 720), coll_ops = collage_ops (364, 380) (364, 380) (364, 380)\<rparr>
   \<and> 867 \<le> (960 :: int) \<and> 623 \<le> (720 :: int)"
  using demo_collage collage_inside_template [OF demo_collage] by simp

theorem slots_separated_witness:
  "length (collage_ops (364, 380) (364, 380) (364, 380)) = 6
   \<and> \<not> op_extent (collage_ops (364, 380) (364, 380) (364, 380) ! 1) (400, 300)"
  using slots_separated [OF demo_collage] by (simp add: the_collage_ops)

theorem right_photo_overflows_outline_witness:
  "op_extent (collage_ops (364, 380) (364, 380) (364, 380) ! 1) (866, 239)
   \<and> \<not> op_extent (collage_ops (364, 380) (364, 380) (364, 380) ! 4) (866, 239)"
  using right_photo_overflows_outline [OF demo_collage] by simp

theorem shadow_on_top_of_photo_witness:
  "last_writer (collage_ops (364, 380) (364, 380) (364, 380)) (600, 400)
     = Some (ShadowOp (503, 243) (364, 380))"
proof -
  have "op_extent (collage_ops (364, 380) (364, 380) (364, 380) ! 1) (600, 400)"
    by (simp add: the_collage_ops)
  then show ?thesis
    using shadow_on_top_of_photo [OF demo_collage] by (simp add: the_collage_ops)
qed

end
