(* ===== verification/Pixels.thy ===== *)
theory Pixels
  imports Collage
begin

text \<open>
  The pixel arithmetic of the Pillow operations \<^verbatim>\<open>make_collage\<close> applies
  (\<^verbatim>\<open>src/main.py\<close>, lines 79--90): \<^verbatim>\<open>Image.paste(im, xy, mask=im)\<close> with an
  RGBA image as its own mask blends every channel by the mask's alpha with Pillow's
  \<^verbatim>\<open>BLEND\<close> macro; \<^verbatim>\<open>Image.alpha_composite(im, xy)\<close> runs Pillow's fixed-point
  \<^verbatim>\<open>ImagingAlphaComposite\<close> on the covered pixels; the outline sets the pixels of
  the drawn shape to opaque white; \<^verbatim>\<open>convert("RGB")\<close> drops the alpha channel.
  Channels are natural numbers; the C code computes them in \<^verbatim>\<open>UINT32\<close>, and the
  bounds below show that no intermediate value reaches \<open>2^32\<close>, so the unbounded
  arithmetic is the C arithmetic. An image is its size and a pixel function. Which
  pixels Pillow's rasteriser puts in a rounded rectangle, and the values of the
  blurred shadow layer, are parameters of the rendering.
\<close>

section \<open>Fixed-point helpers of \<^verbatim>\<open>ImagingUtils.h\<close>\<close>

text \<open>
  \<^verbatim>\<open>SHIFTFORDIV255(a) ((((a) >> 8) + a) >> 8)\<close>,
  \<^verbatim>\<open>DIV255(a, tmp) (tmp = (a) + 128, SHIFTFORDIV255(tmp))\<close> and
  \<^verbatim>\<open>BLEND(mask, in1, in2, tmp1) DIV255(in1 * (255 - mask) + in2 * mask, tmp1)\<close>.
\<close>

definition SHIFTFORDIV255 :: "nat \<Rightarrow> nat" where
  "SHIFTFORDIV255 a = (a div 2 ^ 8 + a) div 2 ^ 8"

definition DIV255 :: "nat \<Rightarrow> nat" where
  "DIV255 a = SHIFTFORDIV255 (a + 128)"

definition BLEND :: "nat \<Rightarrow> nat \<Rightarrow> nat \<Rightarrow> nat" where
  "BLEND msk in1 in2 = DIV255 (in1 * (255 - msk) + in2 * msk)"

definition PRECISION_BITS :: nat where
  "PRECISION_BITS = 7"

section \<open>Pixels\<close>

record rgba =
  red :: nat
  green :: nat
  blue :: nat
  alpha :: nat

definition px_ok :: "rgba \<Rightarrow> bool" where
  "px_ok p \<longleftrightarrow> red p \<le> 255 \<and> green p \<le> 255 \<and> blue p \<le> 255 \<and> alpha p \<le> 255"

text \<open>
  \<^verbatim>\<open>paste_mask_RGBA\<close>: every channel of the destination, alpha included, is
  blended with the source by the mask's alpha, here the source's own.
\<close>

definition paste_px :: "rgba \<Rightarrow> rgba \<Rightarrow> rgba" where
  "paste_px dst src =
     (let m = alpha src
      in \<lparr>red = BLEND m (red dst) (red src), green = BLEND m (green dst) (green src),
          blue = BLEND m (blue dst) (blue src), alpha = BLEND m (alpha dst) (alpha src)\<rparr>)"

text \<open>
  \<^verbatim>\<open>ImagingAlphaComposite\<close>, one pixel: a transparent source leaves the
  destination; otherwise the output alpha \<open>outa255\<close> (scaled by 255), the two
  coefficients with \<open>PRECISION_BITS\<close> extra bits, and the rounded channels.
\<close>

definition ac_outa255 :: "rgba \<Rightarrow> rgba \<Rightarrow> nat" where
  "ac_outa255 dst src = alpha src * 255 + alpha dst * (255 - alpha src)"

definition ac_coef1 :: "rgba \<Rightarrow> rgba \<Rightarrow> nat" where
  "ac_coef1 dst src = alpha src * 255 * 255 * 2 ^ PRECISION_BITS div ac_outa255 dst src"

definition ac_channel :: "nat \<Rightarrow> nat \<Rightarrow> nat \<Rightarrow> nat \<Rightarrow> nat" where
  "ac_channel coef1 coef2 s d =
     SHIFTFORDIV255 (s * coef1 + d * coef2 + 128 * 2 ^ PRECISION_BITS) div 2 ^ PRECISION_BITS"

definition alpha_composite_px :: "rgba \<Rightarrow> rgba \<Rightarrow> rgba" where
  "alpha_composite_px dst src =
     (if alpha src = 0 then dst
      else
        (let outa255 = ac_outa255 dst src;
             coef1 = ac_coef1 dst src;
             coef2 = 255 * 2 ^ PRECISION_BITS - coef1
         in \<lparr>red = ac_channel coef1 coef2 (red src) (red dst),
             green = ac_channel coef1 coef2 (green src) (green dst),
             blue = ac_channel coef1 coef2 (blue src) (blue dst),
             alpha = SHIFTFORDIV255 (outa255 + 128)\<rparr>))"

definition WHITE :: rgba where
  "WHITE = \<lparr>red = 255, green = 255, blue = 255, alpha = 255\<rparr>"

section \<open>Images and the operations of \<^verbatim>\<open>make_collage\<close>\<close>

record image =
  im_size :: size
  im_px :: "pixel \<Rightarrow> rgba"

fun in_image :: "size \<Rightarrow> pixel \<Rightarrow> bool" where
  "in_image (w, h) (i, j) = (0 \<le> i \<and> i < w \<and> 0 \<le> j \<and> j < h)"

text \<open>
  \<^verbatim>\<open>template.paste(src, (x, y), mask=src)\<close>: the pixels covered by the source and
  inside the template are blended, the others are kept (Pillow clips).
\<close>

definition paste_masked :: "image \<Rightarrow> image \<Rightarrow> int \<times> int \<Rightarrow> image" where
  "paste_masked dst src xy =
     dst\<lparr>im_px := (\<lambda>(i, j). let q = (i - fst xy, j - snd xy) in
          if in_image (im_size dst) (i, j) \<and> in_image (im_size src) q
          then paste_px (im_px dst (i, j)) (im_px src q) else im_px dst (i, j))\<rparr>"

text \<open>
  \<^verbatim>\<open>template.alpha_composite(layer, (x, y))\<close>: the covered region of the template
  is composited with the layer and pasted back, clipped to the template.
\<close>

definition alpha_composite_at :: "image \<Rightarrow> image \<Rightarrow> int \<times> int \<Rightarrow> image" where
  "alpha_composite_at dst src xy =
     dst\<lparr>im_px := (\<lambda>(i, j). let q = (i - fst xy, j - snd xy) in
          if in_image (im_size dst) (i, j) \<and> in_image (im_size src) q
          then alpha_composite_px (im_px dst (i, j)) (im_px src q) else im_px dst (i, j))\<rparr>"

text \<open>
  \<^verbatim>\<open>draw.rounded_rectangle(box, outline="white", ...)\<close>: the pixels of the shape
  (given by the rasteriser \<open>shape\<close>) inside the image become opaque white.
\<close>

definition draw_outline :: "(pixel \<Rightarrow> bool) \<Rightarrow> image \<Rightarrow> image" where
  "draw_outline shape dst =
     dst\<lparr>im_px := (\<lambda>p. if in_image (im_size dst) p \<and> shape p then WHITE else im_px dst p)\<rparr>"

text \<open>
  One operation of \<open>collage_ops\<close> on the template: \<open>photos\<close> are the two prepared
  images, \<open>outl\<close> the rasterised outline of a box, \<open>shadow\<close> the blurred layer.
\<close>

fun apply_op :: "(slot \<Rightarrow> image) \<Rightarrow> (box \<Rightarrow> pixel \<Rightarrow> bool) \<Rightarrow> image \<Rightarrow> image \<Rightarrow> draw_op \<Rightarrow> image" where
  "apply_op photos outl shadow t (PasteOp s xy sz) = paste_masked t (photos s) xy"
| "apply_op photos outl shadow t (OutlineOp b r wd) = draw_outline (outl b) t"
| "apply_op photos outl shadow t (ShadowOp xy sz) = alpha_composite_at t shadow xy"

definition render ::
  "(slot \<Rightarrow> image) \<Rightarrow> (box \<Rightarrow> pixel \<Rightarrow> bool) \<Rightarrow> image \<Rightarrow> image \<Rightarrow> draw_op list \<Rightarrow> image" where
  "render photos outl shadow t ops = foldl (apply_op photos outl shadow) t ops"

text \<open>\<^verbatim>\<open>template.convert("RGB")\<close>: the alpha channel is dropped.\<close>

definition convert_rgb :: "image \<Rightarrow> pixel \<Rightarrow> nat \<times> nat \<times> nat" where
  "convert_rgb im p = (red (im_px im p), green (im_px im p), blue (im_px im p))"

section \<open>A concrete rendering\<close>

text \<open>
  A grey opaque template, two opaque photos of one colour, the shadow layer as a
  uniform black of alpha 40 (the fill of line 86 before the blur), and outlines as
  rectangular bands of width 2 inside their boxes.
\<close>

definition demo_template :: image where
  "demo_template = \<lparr>im_size = (960, 720), im_px = (\<lambda>p. \<lparr>red = 100, green = 100, blue = 100, alpha = 255\<rparr>)\<rparr>"

definition demo_photos :: "slot \<Rightarrow> image" where
  "demo_photos s = \<lparr>im_size = (364, 380), im_px = (\<lambda>p. \<lparr>red = 200, green = 150, blue = 100, alpha = 255\<rparr>)\<rparr>"

definition demo_shadow :: image where
  "demo_shadow = \<lparr>im_size = (364, 380), im_px = (\<lambda>p. \<lparr>red = 0, green = 0, blue = 0, alpha = 40\<rparr>)\<rparr>"

fun demo_outline :: "box \<Rightarrow> pixel \<Rightarrow> bool" where
  "demo_outline (x0, y0, x1, y1) (i, j) =
     (x0 \<le> i \<and> i \<le> x1 \<and> y0 \<le> j \<and> j \<le> y1 \<and> (i < x0 + 2 \<or> x1 - 2 < i \<or> j < y0 + 2 \<or> y1 - 2 < j))"

section \<open>Arithmetic of \<^verbatim>\<open>DIV255\<close> and \<^verbatim>\<open>BLEND\<close>\<close>

lemma div255_round:
  assumes "(a::nat) \<le> 65025"
  shows "((a + 128) div 256 + (a + 128)) div 256 = (a + 127) div 255"
proof -
  define q where "q = (a + 127) div 255"
  define r where "r = (a + 127) mod 255"
  have qr: "a + 127 = 255 * q + r" "r < 255" by (simp_all add: q_def r_def)
  have "q \<le> 65152 div 255" unfolding q_def using assms by (intro div_le_mono) simp
  then have "q \<le> 255" by simp
  show ?thesis
  proof (cases "q \<le> r + 1")
    case True
    have "(a + 128) div 256 = q" by (rule div_nat_eqI) (use qr True in \<open>simp only: mult_Suc_right; linarith\<close>)+
    moreover have "(q + (a + 128)) div 256 = q" by (rule div_nat_eqI) (use qr in \<open>simp only: mult_Suc_right; linarith\<close>)+
    ultimately show ?thesis by (simp add: q_def)
  next
    case False
    have "(a + 128) div 256 = q - 1" by (rule div_nat_eqI) (use qr False \<open>q \<le> 255\<close> in \<open>simp only: mult_Suc_right; linarith\<close>)+
    moreover have "(q - 1 + (a + 128)) div 256 = q" by (rule div_nat_eqI) (use qr False in \<open>simp only: mult_Suc_right; linarith\<close>)+
    ultimately show ?thesis by (simp add: q_def)
  qed
qed

lemma ac_round:
  assumes "(v::nat) \<le> 65025"
  shows "((128 * v + 16384) div 256 + (128 * v + 16384)) div 256 div 128 = (v + 127) div 255"
proof -
  have "(128 * v + 16384) div 256 = (v + 128) div 2" by simp
  then have "((128 * v + 16384) div 256 + (128 * v + 16384)) div 256 div 128
       = ((v + 128) div 2 + 128 * (v + 128)) div 32768"
    by (simp add: div_mult2_eq algebra_simps)
  also have "\<dots> = ((v + 128) div 256 + (v + 128)) div 256"
  proof -
    define u where "u = v + 128"
    have "(u div 2 + 128 * u) div 32768 = (u div 256 + u) div 256"
    proof -
      define s where "s = u div 256"
      define l where "l = u mod 256"
      have u: "u = 256 * s + l" "l < 256" by (simp_all add: s_def l_def)
      have "(u div 2 + 128 * u) = 32768 * s + (128 * l + l div 2 + 128 * s)"
        using u by simp
      hence "(u div 2 + 128 * u) div 32768 = s + (128 * l + l div 2 + 128 * s) div 32768" by simp
      moreover have "(u div 256 + u) div 256 = s + (l + s) div 256" using u by (simp add: s_def)
      moreover have "(128 * l + l div 2 + 128 * s) div 32768 = (l + s) div 256"
      proof -
        have h: "l div 2 \<le> 127" using u(2) by simp
        have "s \<le> 255" using assms by (simp add: s_def u_def)
        show ?thesis
        proof (cases "l + s < 256")
          case True
          then show ?thesis using h by simp
        next
          case False
          have "(128 * l + l div 2 + 128 * s) div 32768 = 1"
            by (rule div_nat_eqI) (use h False u(2) \<open>s \<le> 255\<close> in \<open>simp only: mult_Suc_right; linarith\<close>)+
          moreover have "(l + s) div 256 = 1"
            by (rule div_nat_eqI) (use False u(2) \<open>s \<le> 255\<close> in \<open>simp only: mult_Suc_right; linarith\<close>)+
          ultimately show ?thesis by simp
        qed
      qed
      ultimately show ?thesis by simp
    qed
    then show ?thesis by (simp add: u_def)
  qed
  also have "\<dots> = (v + 127) div 255" by (rule div255_round [OF assms])
  finally show ?thesis .
qed


lemma SHIFTFORDIV255_mono: "a \<le> b \<Longrightarrow> SHIFTFORDIV255 a \<le> SHIFTFORDIV255 b"
  unfolding SHIFTFORDIV255_def by (intro div_le_mono add_mono) simp_all

lemma DIV255_eq: "a \<le> 65025 \<Longrightarrow> DIV255 a = (a + 127) div 255"
  by (simp add: DIV255_def SHIFTFORDIV255_def div255_round)

lemma blend_range:
  assumes "(m::nat) \<le> 255" "x \<le> 255" "y \<le> 255"
  shows "x * (255 - m) + y * m \<le> 65025"
proof -
  have "x * (255 - m) + y * m \<le> 255 * (255 - m) + 255 * m"
    using assms by (intro add_mono mult_right_mono) simp_all
  also have "\<dots> = 65025" using assms(1) by (simp add: algebra_simps)
  finally show ?thesis .
qed

lemma BLEND_eq:
  "m \<le> 255 \<Longrightarrow> x \<le> 255 \<Longrightarrow> y \<le> 255 \<Longrightarrow> BLEND m x y = (x * (255 - m) + y * m + 127) div 255"
  by (simp add: BLEND_def DIV255_eq blend_range)

lemma BLEND_le: "m \<le> 255 \<Longrightarrow> x \<le> 255 \<Longrightarrow> y \<le> 255 \<Longrightarrow> BLEND m x y \<le> 255"
proof -
  assume a: "m \<le> 255" "x \<le> 255" "y \<le> 255"
  have "(x * (255 - m) + y * m + 127) div 255 \<le> (65025 + 127) div 255"
    using blend_range [OF a] by (intro div_le_mono) simp
  then show ?thesis using a by (simp add: BLEND_eq)
qed

lemma BLEND_0: "x \<le> 255 \<Longrightarrow> BLEND 0 x y = x"
  by (simp add: BLEND_def DIV255_eq)

lemma BLEND_255: "y \<le> 255 \<Longrightarrow> BLEND 255 x y = y"
  by (simp add: BLEND_def DIV255_eq)

lemma ac_opaque:
  assumes "px_ok dst" "px_ok src" "alpha dst = 255"
  shows "alpha_composite_px dst src =
           \<lparr>red = BLEND (alpha src) (red dst) (red src), green = BLEND (alpha src) (green dst) (green src),
            blue = BLEND (alpha src) (blue dst) (blue src), alpha = 255\<rparr>"
proof (cases "alpha src = 0")
  case True
  then show ?thesis using assms by (cases dst) (simp add: alpha_composite_px_def px_ok_def BLEND_0)
next
  case False
  let ?a = "alpha src"
  have a: "?a \<le> 255" using assms(2) by (simp add: px_ok_def)
  have o: "ac_outa255 dst src = 65025" using assms(3) a by (simp add: ac_outa255_def algebra_simps)
  have c1: "ac_coef1 dst src = 128 * ?a" by (simp add: ac_coef1_def o PRECISION_BITS_def)
  have c2: "255 * 2 ^ PRECISION_BITS - 128 * ?a = 128 * (255 - ?a)" by (simp add: PRECISION_BITS_def algebra_simps)
  have ch: "ac_channel (128 * ?a) (128 * (255 - ?a)) s d = BLEND ?a d s" if "s \<le> 255" "d \<le> 255" for s d
  proof -
    let ?v = "d * (255 - ?a) + s * ?a"
    have e: "s * (128 * ?a) + d * (128 * (255 - ?a)) + 128 * 2 ^ PRECISION_BITS = 128 * ?v + 16384"
      by (simp add: PRECISION_BITS_def algebra_simps)
    have "ac_channel (128 * ?a) (128 * (255 - ?a)) s d
          = ((128 * ?v + 16384) div 256 + (128 * ?v + 16384)) div 256 div 128"
      by (simp only: ac_channel_def e) (simp add: SHIFTFORDIV255_def PRECISION_BITS_def)
    also have "\<dots> = (?v + 127) div 255" by (rule ac_round [OF blend_range [OF a that(2,1)]])
    also have "\<dots> = BLEND ?a d s" using a that by (simp add: BLEND_eq)
    finally show ?thesis .
  qed
  have "SHIFTFORDIV255 (65025 + 128) = 255" by (simp add: SHIFTFORDIV255_def)
  then show ?thesis
    using False assms ch by (simp add: alpha_composite_px_def Let_def o c1 c2 px_ok_def)
qed


lemma round_div255: "round (of_nat a / 255 :: rat) = int ((a + 127) div 255)"
proof -
  have "of_nat a / 255 + 1 / 2 = (of_int (int (2 * a + 255)) / of_int 510 :: rat)" by simp
  then have "round (of_nat a / 255 :: rat) = int (2 * a + 255) div 510"
    by (simp only: round_def floor_divide_of_int_eq)
  also have "\<dots> = int ((2 * a + 255) div 510)" by (simp add: zdiv_int)
  also have "(2 * a + 255) div 510 = (a + 127) div 255"
  proof -
    have "(2 * a + 255) div 510 = (2 * a + 255) div 2 div 255" by (simp add: div_mult2_eq)
    also have "(2 * a + 255) div 2 = a + 127" by simp
    finally show ?thesis .
  qed
  finally show ?thesis .
qed

text \<open>
  C30. Pillow's \<^verbatim>\<open>DIV255\<close> (an add and two shifts) is division by 255 rounded to
  the nearest integer, on every value \<^verbatim>\<open>BLEND\<close> gives it (at most \<open>255 * 255\<close>).
\<close>

theorem DIV255_round: "a \<le> 255 * 255 \<Longrightarrow> int (DIV255 a) = round (of_nat a / 255 :: rat)"
  by (simp add: DIV255_eq round_div255)

text \<open>
  C31. Pasting a pixel with its own alpha as the mask keeps channels within a byte,
  leaves the template's pixel where the photo is transparent (the rounded corners of
  a prepared photo show the template) and puts the photo's pixel where it is opaque.
\<close>

theorem paste_px_spec:
  assumes "px_ok dst" "px_ok src"
  shows "px_ok (paste_px dst src)
       \<and> (alpha src = 0 \<longrightarrow> paste_px dst src = dst)
       \<and> (alpha src = 255 \<longrightarrow> paste_px dst src = src)"
  using assms by (auto simp: paste_px_def Let_def px_ok_def BLEND_le BLEND_0 BLEND_255)

lemma ac_coef1_le:
  assumes "px_ok dst" "px_ok src" "0 < alpha src"
  shows "ac_coef1 dst src \<le> 255 * 2 ^ PRECISION_BITS"
proof -
  have "alpha src * 255 \<le> ac_outa255 dst src" by (simp add: ac_outa255_def)
  then have "ac_coef1 dst src \<le> alpha src * 255 * 255 * 2 ^ PRECISION_BITS div (alpha src * 255)"
    unfolding ac_coef1_def using assms(3) by (intro div_le_mono2) simp_all
  also have "\<dots> = 255 * 2 ^ PRECISION_BITS" using assms(3) by simp
  finally show ?thesis .
qed

lemma ac_outa255_le: "px_ok dst \<Longrightarrow> px_ok src \<Longrightarrow> ac_outa255 dst src \<le> 65025"
proof -
  assume a: "px_ok dst" "px_ok src"
  have "ac_outa255 dst src \<le> alpha src * 255 + 255 * (255 - alpha src)"
    using a by (simp add: ac_outa255_def px_ok_def)
  also have "\<dots> = 65025" using a by (simp add: px_ok_def algebra_simps)
  finally show ?thesis .
qed

lemma ac_tmp_le:
  assumes "c1 \<le> 255 * 128" "s \<le> 255" "d \<le> (255::nat)"
  shows "s * c1 + d * (255 * 128 - c1) \<le> 255 * (255 * 128)"
proof -
  have "s * c1 + d * (255 * 128 - c1) \<le> 255 * c1 + 255 * (255 * 128 - c1)"
    using assms by (intro add_mono mult_right_mono) simp_all
  also have "\<dots> = 255 * (255 * 128)" using assms(1) by (simp add: algebra_simps)
  finally show ?thesis .
qed

lemma ac_channel_le:
  assumes "c1 \<le> 255 * 128" "s \<le> 255" "d \<le> 255"
  shows "ac_channel c1 (255 * 2 ^ PRECISION_BITS - c1) s d \<le> 255"
proof -
  have "SHIFTFORDIV255 (s * c1 + d * (255 * 128 - c1) + 16384) \<le> SHIFTFORDIV255 (255 * (255 * 128) + 16384)"
    using ac_tmp_le [OF assms] by (intro SHIFTFORDIV255_mono) simp
  then show ?thesis
    by (simp add: ac_channel_def PRECISION_BITS_def SHIFTFORDIV255_def)
qed

text \<open>
  C32. No \<^verbatim>\<open>UINT32\<close> overflow in \<^verbatim>\<open>ImagingAlphaComposite\<close>: for byte
  channels and a visible source, the largest product \<open>a * 255 * 255 * 2^7\<close> and
  every channel sum stay below \<open>2^32\<close>, the divisor is positive, the second
  coefficient does not underflow, and the result has byte channels.
\<close>

theorem alpha_composite_no_overflow:
  assumes "px_ok dst" "px_ok src" "0 < alpha src"
  shows "alpha src * 255 * 255 * 2 ^ PRECISION_BITS < 2 ^ 32
       \<and> 0 < ac_outa255 dst src
       \<and> ac_coef1 dst src \<le> 255 * 2 ^ PRECISION_BITS
       \<and> (\<forall>s d. s \<le> 255 \<longrightarrow> d \<le> 255 \<longrightarrow>
            s * ac_coef1 dst src + d * (255 * 2 ^ PRECISION_BITS - ac_coef1 dst src)
              + 128 * 2 ^ PRECISION_BITS < 2 ^ 32)
       \<and> px_ok (alpha_composite_px dst src)"
proof -
  have a: "alpha src \<le> 255" using assms(2) by (simp add: px_ok_def)
  have "alpha src * 255 * 255 * 2 ^ PRECISION_BITS \<le> 255 * 255 * 255 * 2 ^ PRECISION_BITS"
    using a by simp
  then have m: "alpha src * 255 * 255 * 2 ^ PRECISION_BITS < 2 ^ 32" by (simp add: PRECISION_BITS_def)
  have o: "0 < ac_outa255 dst src" using assms(3) by (simp add: ac_outa255_def)
  have c: "ac_coef1 dst src \<le> 255 * 2 ^ PRECISION_BITS" by (rule ac_coef1_le [OF assms])
  have t: "\<forall>s d. s \<le> 255 \<longrightarrow> d \<le> 255 \<longrightarrow>
            s * ac_coef1 dst src + d * (255 * 2 ^ PRECISION_BITS - ac_coef1 dst src)
              + 128 * 2 ^ PRECISION_BITS < 2 ^ 32"
    using ac_tmp_le [of "ac_coef1 dst src"] c by (fastforce simp: PRECISION_BITS_def)
  have "SHIFTFORDIV255 (ac_outa255 dst src + 128) \<le> SHIFTFORDIV255 (65025 + 128)"
    using ac_outa255_le [OF assms(1,2)] by (intro SHIFTFORDIV255_mono) simp
  then have "SHIFTFORDIV255 (ac_outa255 dst src + 128) \<le> 255" by (simp add: SHIFTFORDIV255_def)
  moreover have "ac_channel (ac_coef1 dst src) (255 * 2 ^ PRECISION_BITS - ac_coef1 dst src) s d \<le> 255"
    if "s \<le> 255" "d \<le> 255" for s d
    using ac_channel_le [of "ac_coef1 dst src" s d] c that by (simp add: PRECISION_BITS_def)
  ultimately have "px_ok (alpha_composite_px dst src)"
    using assms by (simp add: alpha_composite_px_def Let_def px_ok_def)
  with m o c t show ?thesis by blast
qed

text \<open>
  C33. Over an opaque pixel, Pillow's fixed-point alpha composite is the reference
  "source over" blend: each channel is \<open>(d (255 - a) + s a) / 255\<close> rounded, and
  the result stays opaque.
\<close>

theorem alpha_composite_opaque:
  assumes "px_ok dst" "px_ok src" "alpha dst = 255"
  shows "alpha_composite_px dst src =
     \<lparr>red = (red dst * (255 - alpha src) + red src * alpha src + 127) div 255,
      green = (green dst * (255 - alpha src) + green src * alpha src + 127) div 255,
      blue = (blue dst * (255 - alpha src) + blue src * alpha src + 127) div 255,
      alpha = 255\<rparr>"
  using ac_opaque [OF assms] assms by (simp add: BLEND_eq px_ok_def)

text \<open>
  The shadow layer (black, any alpha) composited over an opaque pixel scales
  each channel by \<open>(255 - a) / 255\<close>, rounded: it never brightens a pixel and keeps
  it opaque.
\<close>

theorem shadow_darkens:
  assumes "px_ok dst" "alpha dst = 255"
    and "red src = 0" "green src = 0" "blue src = 0" "alpha src \<le> 255"
  shows "red (alpha_composite_px dst src) = (red dst * (255 - alpha src) + 127) div 255
       \<and> red (alpha_composite_px dst src) \<le> red dst
       \<and> green (alpha_composite_px dst src) \<le> green dst
       \<and> blue (alpha_composite_px dst src) \<le> blue dst
       \<and> alpha (alpha_composite_px dst src) = 255"
proof -
  have ok: "px_ok src" using assms(3-6) by (simp add: px_ok_def)
  have le: "(c * (255 - alpha src) + 127) div 255 \<le> c" for c :: nat
  proof -
    have "(c * (255 - alpha src) + 127) div 255 \<le> (c * 255 + 127) div 255"
      by (intro div_le_mono add_right_mono mult_left_mono) simp_all
    also have "\<dots> = c" by simp
    finally show ?thesis .
  qed
  show ?thesis
    using ac_opaque [OF assms(1) ok assms(2)] assms ok le
    by (simp add: BLEND_eq px_ok_def)
qed


section \<open>Rendering\<close>

lemma im_size_paste_masked [simp]: "im_size (paste_masked dst src xy) = im_size dst"
  by (simp add: paste_masked_def)

lemma im_size_alpha_composite_at [simp]: "im_size (alpha_composite_at dst src xy) = im_size dst"
  by (simp add: alpha_composite_at_def)

lemma im_size_draw_outline [simp]: "im_size (draw_outline shape dst) = im_size dst"
  by (simp add: draw_outline_def)

lemma im_px_paste_masked:
  "im_px (paste_masked dst src (x, y)) (i, j) =
     (if in_image (im_size dst) (i, j) \<and> in_image (im_size src) (i - x, j - y)
      then paste_px (im_px dst (i, j)) (im_px src (i - x, j - y)) else im_px dst (i, j))"
  by (simp add: paste_masked_def Let_def)

lemma im_px_alpha_composite_at:
  "im_px (alpha_composite_at dst src (x, y)) (i, j) =
     (if in_image (im_size dst) (i, j) \<and> in_image (im_size src) (i - x, j - y)
      then alpha_composite_px (im_px dst (i, j)) (im_px src (i - x, j - y)) else im_px dst (i, j))"
  by (simp add: alpha_composite_at_def Let_def)

lemma im_px_draw_outline:
  "im_px (draw_outline shape dst) p = (if in_image (im_size dst) p \<and> shape p then WHITE else im_px dst p)"
  by (simp add: draw_outline_def)

lemmas render_simps = render_def the_collage_ops im_px_paste_masked im_px_alpha_composite_at
  im_px_draw_outline

text \<open>
  C34. Rendering the collage changes no pixel that none of its operations may write,
  for every rasterisation of the outlines within their boxes and photos and shadow of
  the prepared size.
\<close>

theorem render_frame:
  assumes "make_collage_geom files decode tpl b a = Inr c"
    and "\<forall>x0 y0 x1 y1 i j. outl (x0, y0, x1, y1) (i, j) \<longrightarrow> x0 \<le> i \<and> i \<le> x1 \<and> y0 \<le> j \<and> j \<le> y1"
    and "im_size (photos Before) = (364, 380)" "im_size (photos After) = (364, 380)"
    and "im_size shadow = (364, 380)"
    and "\<forall>op \<in> set (coll_ops c). \<not> op_extent op (i, j)"
  shows "im_px (render photos outl shadow t (coll_ops c)) (i, j) = im_px t (i, j)"
proof -
  have ops: "coll_ops c = collage_ops (364, 380) (364, 380) (364, 380)"
    using make_collage_geom_Inr [OF assms(1)] by simp
  have x: "\<not> op_extent op (i, j)" if "op \<in> set (collage_ops (364, 380) (364, 380) (364, 380))" for op
    using assms(6) that by (simp add: ops)
  have o: "\<not> op_extent (PasteOp Before (91, 239) (364, 380)) (i, j)"
          "\<not> op_extent (PasteOp After (503, 239) (364, 380)) (i, j)"
          "\<not> op_extent (OutlineOp (91, 239, 455, 619) 12 2) (i, j)"
          "\<not> op_extent (ShadowOp (91, 243) (364, 380)) (i, j)"
          "\<not> op_extent (OutlineOp (503, 239, 865, 619) 12 2) (i, j)"
          "\<not> op_extent (ShadowOp (503, 243) (364, 380)) (i, j)"
    by (rule x, simp add: the_collage_ops)+
  have l: "\<not> outl (91, 239, 455, 619) (i, j)"
    using assms(2) [rule_format, of 91 239 455 619 i j] o(3) by auto
  have r: "\<not> outl (503, 239, 865, 619) (i, j)"
    using assms(2) [rule_format, of 503 239 865 619 i j] o(5) by auto
  have e: "\<not> in_image (364, 380) (i - 91, j - 239)" "\<not> in_image (364, 380) (i - 503, j - 239)"
          "\<not> in_image (364, 380) (i - 91, j - 243)" "\<not> in_image (364, 380) (i - 503, j - 243)"
    using o(1,2,4,6) by simp_all
  show ?thesis
    using assms(3-5) by (simp add: ops render_simps e l r del: in_image.simps)
qed

text \<open>
  C35. A pixel of the left photo from four rows below its top edge, not on the outline,
  ends as the shadow composited over the pasted photo pixel: the shadow covers the
  photo.
\<close>

theorem render_photo_under_shadow:
  assumes "make_collage_geom files decode tpl b a = Inr c"
    and "\<forall>x0 y0 x1 y1 i j. outl (x0, y0, x1, y1) (i, j) \<longrightarrow> x0 \<le> i \<and> i \<le> x1 \<and> y0 \<le> j \<and> j \<le> y1"
    and "im_size (photos Before) = (364, 380)" "im_size (photos After) = (364, 380)"
    and "im_size shadow = (364, 380)"
    and "in_image (im_size t) (i, j)" "91 \<le> i" "i < 455" "243 \<le> j" "j < 619"
    and "\<not> outl left_box (i, j)"
  shows "im_px (render photos outl shadow t (coll_ops c)) (i, j) =
           alpha_composite_px (paste_px (im_px t (i, j)) (im_px (photos Before) (i - 91, j - 239)))
                              (im_px shadow (i - 91, j - 243))"
proof -
  have ops: "coll_ops c = collage_ops (364, 380) (364, 380) (364, 380)"
    using make_collage_geom_Inr [OF assms(1)] by simp
  have r: "\<not> outl (503, 239, 865, 619) (i, j)" using assms(2,8) by force
  have e: "in_image (364, 380) (i - 91, j - 239)" "\<not> in_image (364, 380) (i - 503, j - 239)"
          "in_image (364, 380) (i - 91, j - 243)" "\<not> in_image (364, 380) (i - 503, j - 243)"
    using assms(7-10) by simp_all
  show ?thesis
    using assms(3-6,11) by (simp add: ops render_simps left_box_def e r del: in_image.simps)
qed

section \<open>Witnesses\<close>

theorem DIV255_round_witness:
  "DIV255 48769 = 191 \<and> int 191 = round (of_nat 48769 / 255 :: rat)"
proof -
  have "int (DIV255 48769) = round (of_nat 48769 / 255 :: rat)" by (rule DIV255_round) simp
  moreover have "DIV255 48769 = 191" by (simp add: DIV255_def SHIFTFORDIV255_def)
  ultimately show ?thesis by simp
qed

theorem paste_px_spec_witness:
  "paste_px \<lparr>red = 100, green = 100, blue = 100, alpha = 255\<rparr> \<lparr>red = 200, green = 150, blue = 100, alpha = 0\<rparr>
     = \<lparr>red = 100, green = 100, blue = 100, alpha = 255\<rparr>"
  using paste_px_spec [of "\<lparr>red = 100, green = 100, blue = 100, alpha = 255\<rparr>"
                          "\<lparr>red = 200, green = 150, blue = 100, alpha = 0\<rparr>"]
  by (simp add: px_ok_def)

theorem alpha_composite_no_overflow_witness:
  "px_ok (alpha_composite_px \<lparr>red = 100, green = 100, blue = 100, alpha = 255\<rparr>
                               \<lparr>red = 0, green = 0, blue = 0, alpha = 40\<rparr>)
   \<and> ac_coef1 \<lparr>red = 100, green = 100, blue = 100, alpha = 255\<rparr> \<lparr>red = 0, green = 0, blue = 0, alpha = 40\<rparr>
       \<le> 255 * 2 ^ PRECISION_BITS"
  using alpha_composite_no_overflow [of "\<lparr>red = 100, green = 100, blue = 100, alpha = 255\<rparr>"
                                        "\<lparr>red = 0, green = 0, blue = 0, alpha = 40\<rparr>"]
  by (simp add: px_ok_def)

theorem alpha_composite_opaque_witness:
  "alpha_composite_px \<lparr>red = 200, green = 150, blue = 100, alpha = 255\<rparr> \<lparr>red = 0, green = 0, blue = 0, alpha = 40\<rparr>
     = \<lparr>red = 169, green = 126, blue = 84, alpha = 255\<rparr>"
  using alpha_composite_opaque [of "\<lparr>red = 200, green = 150, blue = 100, alpha = 255\<rparr>"
                                   "\<lparr>red = 0, green = 0, blue = 0, alpha = 40\<rparr>"]
  by (simp add: px_ok_def)

theorem shadow_darkens_witness:
  "red (alpha_composite_px \<lparr>red = 200, green = 150, blue = 100, alpha = 255\<rparr>
                           \<lparr>red = 0, green = 0, blue = 0, alpha = 40\<rparr>) = 169"
  using shadow_darkens [of "\<lparr>red = 200, green = 150, blue = 100, alpha = 255\<rparr>"
                           "\<lparr>red = 0, green = 0, blue = 0, alpha = 40\<rparr>"]
  by (simp add: px_ok_def)

theorem render_frame_witness:
  "im_px (render demo_photos demo_outline demo_shadow demo_template
            (collage_ops (364, 380) (364, 380) (364, 380))) (10, 10)
     = \<lparr>red = 100, green = 100, blue = 100, alpha = 255\<rparr>"
  using render_frame [OF demo_collage, of demo_outline demo_photos demo_shadow 10 10 demo_template]
  by (simp add: demo_photos_def demo_shadow_def demo_template_def the_collage_ops)

theorem render_photo_under_shadow_witness:
  "im_px (render demo_photos demo_outline demo_shadow demo_template
            (collage_ops (364, 380) (364, 380) (364, 380))) (200, 400)
     = \<lparr>red = 169, green = 126, blue = 84, alpha = 255\<rparr>"
  using render_photo_under_shadow [OF demo_collage, of demo_outline demo_photos demo_shadow demo_template 200 400]
  by (simp add: demo_photos_def demo_shadow_def demo_template_def left_box_def paste_px_def
                alpha_composite_px_def ac_outa255_def ac_coef1_def ac_channel_def BLEND_def DIV255_def
                SHIFTFORDIV255_def PRECISION_BITS_def)

end
