(* ===== verification/Base64.thy ===== *)
theory Base64
  imports Prelude
begin

unbundle bit_operations_syntax

text \<open>
  \<^verbatim>\<open>age_photo\<close> (\<^verbatim>\<open>src/main.py\<close>, line 59) returns
  \<^verbatim>\<open>base64.b64decode(res.data[0].b64_json)\<close>. This theory models that call as
  CPython 3.11 runs it: \<^verbatim>\<open>b64decode(s)\<close> with the default \<^verbatim>\<open>validate=False\<close>
  encodes the string as ASCII (a \<^verbatim>\<open>ValueError\<close> otherwise) and hands the bytes
  to \<^verbatim>\<open>binascii.a2b_base64(s, strict_mode=False)\<close>, a loop over the input
  bytes with the state \<open>quad_pos\<close>, \<open>leftchar\<close>, \<open>pads\<close> and the output buffer.
  Characters outside the alphabet are skipped, a pad sequence ends the parse, and a
  quad left incomplete at the end is an error. The encoder \<open>b64encode\<close> is the
  service side of the contract (the response carries the image as standard Base64);
  the round trip through it is proved below, with the buffer bound the C code relies
  on and the error cases of the decoder.
\<close>

section \<open>The decoding table\<close>

text \<open>
  \<^verbatim>\<open>table_a2b_base64\<close>: the value of an alphabet character, and \<open>255\<close>
  (the C table's \<^verbatim>\<open>-1\<close> stored in an \<^verbatim>\<open>unsigned char\<close>) for any other byte.
\<close>

definition a2b_table :: "byte \<Rightarrow> byte" where
  "a2b_table c =
     (if 65 \<le> c \<and> c \<le> 90 then c - 65
      else if 97 \<le> c \<and> c \<le> 122 then c - 71
      else if 48 \<le> c \<and> c \<le> 57 then c + 4
      else if c = 43 then 62
      else if c = 47 then 63
      else 255)"

definition BASE64_PAD :: byte where
  "BASE64_PAD = 61"

section \<open>The decoding loop of \<^verbatim>\<open>binascii.a2b_base64\<close>\<close>

record a2b_state =
  quad_pos :: nat
  leftchar :: byte
  pads :: nat
  bin_data :: bytes

definition a2b_init :: a2b_state where
  "a2b_init = \<lparr>quad_pos = 0, leftchar = 0, pads = 0, bin_data = []\<rparr>"

text \<open>
  The \<^verbatim>\<open>switch (quad_pos)\<close> on one valid digit \<open>v < 64\<close>. The shifts of
  \<open>leftchar\<close> are stored back into an \<^verbatim>\<open>unsigned char\<close>, which the
  8-bit \<open>push_bit\<close> reproduces.
\<close>

definition a2b_digit :: "a2b_state \<Rightarrow> byte \<Rightarrow> a2b_state" where
  "a2b_digit st v =
     (if quad_pos st = 0 then st\<lparr>quad_pos := 1, leftchar := v\<rparr>
      else if quad_pos st = 1 then
        st\<lparr>quad_pos := 2,
           bin_data := bin_data st @ [push_bit 2 (leftchar st) OR drop_bit 4 v],
           leftchar := v AND 0x0f\<rparr>
      else if quad_pos st = 2 then
        st\<lparr>quad_pos := 3,
           bin_data := bin_data st @ [push_bit 4 (leftchar st) OR drop_bit 2 v],
           leftchar := v AND 0x03\<rparr>
      else if quad_pos st = 3 then
        st\<lparr>quad_pos := 0,
           bin_data := bin_data st @ [push_bit 6 (leftchar st) OR v],
           leftchar := 0\<rparr>
      else st)"

text \<open>
  The \<^verbatim>\<open>for\<close> loop over the input. The flag of the result is \<open>True\<close> when the loop
  left by \<^verbatim>\<open>goto done\<close> (a complete pad sequence). The counter \<open>pads\<close> is only
  incremented when \<open>quad_pos \<ge> 2\<close>, as the short-circuit \<^verbatim>\<open>&&\<close> of
  \<^verbatim>\<open>quad_pos >= 2 && quad_pos + ++pads >= 4\<close> does.
\<close>

fun a2b_loop :: "a2b_state \<Rightarrow> bytes \<Rightarrow> a2b_state \<times> bool" where
  "a2b_loop st [] = (st, False)"
| "a2b_loop st (c # cs) =
     (if c = BASE64_PAD then
        (if 2 \<le> quad_pos st then
           (let st' = st\<lparr>pads := Suc (pads st)\<rparr> in
            if 4 \<le> quad_pos st' + pads st' then (st', True) else a2b_loop st' cs)
         else a2b_loop st cs)
      else if 64 \<le> a2b_table c then a2b_loop st cs
      else a2b_loop (a2b_digit (st\<lparr>pads := 0\<rparr>) (a2b_table c)) cs)"

text \<open>
  After the loop (\<^verbatim>\<open>if (quad_pos != 0)\<close> and the label \<^verbatim>\<open>done\<close>): a quad
  left open is an error, unless a pad sequence ended the loop.
\<close>

definition a2b_finish :: "a2b_state \<times> bool \<Rightarrow> exc + bytes" where
  "a2b_finish r =
     (case r of
        (st, True) \<Rightarrow> Inr (bin_data st)
      | (st, False) \<Rightarrow>
          (if quad_pos st = 0 then Inr (bin_data st)
           else if quad_pos st = 1 then Inl (B64ExcessChars (length (bin_data st) div 3 * 4 + 1))
           else Inl B64IncorrectPadding))"

definition a2b_base64 :: "bytes \<Rightarrow> exc + bytes" where
  "a2b_base64 s = a2b_finish (a2b_loop a2b_init s)"

section \<open>\<^verbatim>\<open>base64.b64decode\<close> on a string\<close>

text \<open>
  \<^verbatim>\<open>_bytes_from_decode_data\<close>: a \<^verbatim>\<open>str\<close> is encoded as ASCII. A Python string is
  modelled as a list of \<open>char\<close>s, i.e. code points below 256; any code point
  from 128 on raises, as every larger one does in Python too.
\<close>

definition ascii_encode :: "string \<Rightarrow> exc + bytes" where
  "ascii_encode s =
     (if list_all (\<lambda>c. of_char c < (128::nat)) s
      then Inr (map (\<lambda>c. of_nat (of_char c)) s) else Inl B64NonAscii)"

definition b64decode :: "string \<Rightarrow> exc + bytes" where
  "b64decode s = (case ascii_encode s of Inl e \<Rightarrow> Inl e | Inr bs \<Rightarrow> a2b_base64 bs)"

section \<open>The encoder of the service\<close>

definition b2a_table :: "byte \<Rightarrow> byte" where
  "b2a_table v =
     (if v < 26 then v + 65
      else if v < 52 then v + 71
      else if v < 62 then v - 4
      else if v = 62 then 43
      else 47)"

fun b64encode_bytes :: "bytes \<Rightarrow> bytes" where
  "b64encode_bytes (a # b # c # rest) =
     map b2a_table [drop_bit 2 a, push_bit 4 (a AND 3) OR drop_bit 4 b,
                    push_bit 2 (b AND 15) OR drop_bit 6 c, c AND 63] @ b64encode_bytes rest"
| "b64encode_bytes [a, b] =
     map b2a_table [drop_bit 2 a, push_bit 4 (a AND 3) OR drop_bit 4 b, push_bit 2 (b AND 15)]
     @ [BASE64_PAD]"
| "b64encode_bytes [a] = map b2a_table [drop_bit 2 a, push_bit 4 (a AND 3)] @ [BASE64_PAD, BASE64_PAD]"
| "b64encode_bytes [] = []"

definition b64encode :: "bytes \<Rightarrow> string" where
  "b64encode bs = map (\<lambda>b. char_of (unat b)) (b64encode_bytes bs)"

section \<open>Auxiliary notions of the proofs\<close>

text \<open>
  The bytes the loop does not skip, and the relation between the number \<open>d\<close> of
  digits consumed and the loop state (position in the quad, bytes written).
\<close>

definition b64_significant :: "byte \<Rightarrow> bool" where
  "b64_significant c \<longleftrightarrow> c = BASE64_PAD \<or> a2b_table c < 64"

definition out_rel :: "a2b_state \<Rightarrow> nat \<Rightarrow> bool" where
  "out_rel st d \<longleftrightarrow> quad_pos st = d mod 4 \<and> length (bin_data st) = 3 * (d div 4) + (d mod 4 - 1)"

text \<open>
  The shape of the loop state between two input bytes: \<open>leftchar\<close> holds the
  bits of the current quad not yet written, 6, 4 or 2 of them after one, two or three
  digits, and none at the start of a quad.
\<close>

definition a2b_wf :: "a2b_state \<Rightarrow> bool" where
  "a2b_wf st \<longleftrightarrow>
     (quad_pos st = 0 \<and> leftchar st = 0) \<or> (quad_pos st = 1 \<and> leftchar st < 64)
     \<or> (quad_pos st = 2 \<and> leftchar st < 16) \<or> (quad_pos st = 3 \<and> leftchar st < 4)"

section \<open>Bit-level facts of one quad\<close>

lemma less_8E:
  assumes "(n::nat) < 8"
  obtains "n = 0" | "n = 1" | "n = 2" | "n = 3" | "n = 4" | "n = 5" | "n = 6" | "n = 7"
  using assms by (auto simp: less_Suc_eq numeral_eq_Suc)

lemma bit_byte_eqI: "(\<And>n. n < 8 \<Longrightarrow> bit (x::byte) n = bit y n) \<Longrightarrow> x = y"
  by (rule bit_word_eqI) simp

lemma byte_bit_lt8: "bit (w::byte) n \<Longrightarrow> n < 8"
  by (drule bit_imp_le_length) simp

lemma d1: "push_bit 2 (drop_bit 2 a) OR drop_bit 4 (push_bit 4 (a AND 3) OR drop_bit 4 (b::byte)) = a"
  by (rule bit_byte_eqI) (erule less_8E; simp add: bit_simps)

lemma d2: "push_bit 4 ((push_bit 4 (a AND 3) OR drop_bit 4 b) AND 0x0f) OR drop_bit 2 (push_bit 2 (b AND 15) OR drop_bit 6 (c::byte)) = b"
  by (rule bit_byte_eqI) (erule less_8E; simp add: bit_simps)

lemma d3: "push_bit 6 ((push_bit 2 (b AND 15) OR drop_bit 6 c) AND 0x03) OR (c AND 63) = (c::byte)"
  by (rule bit_byte_eqI) (erule less_8E; simp add: bit_simps)

lemma byte_lt_64I:
  assumes "\<not> bit (w::byte) 6" "\<not> bit w 7"
  shows "w < 64"
proof -
  have "w AND mask 6 = w"
    using assms by (intro bit_byte_eqI) (erule less_8E; simp add: bit_simps)
  then show ?thesis using mask_eq_iff_w2p [of 6 w] by (simp add: word_size)
qed

lemma dig1: "drop_bit 2 (a::byte) < 64"
  by (rule byte_lt_64I) (auto simp: bit_simps dest: byte_bit_lt8)
lemma dig2: "push_bit 4 (a AND 3) OR drop_bit 4 (b::byte) < 64"
  by (rule byte_lt_64I) (auto simp: bit_simps dest: byte_bit_lt8)
lemma dig3: "push_bit 2 (b AND 15) OR drop_bit 6 (c::byte) < 64"
  by (rule byte_lt_64I) (auto simp: bit_simps dest: byte_bit_lt8)
lemma dig4: "(c::byte) AND 63 < 64"
  by (rule byte_lt_64I) (auto simp: bit_simps dest: byte_bit_lt8)
lemma dig2s: "push_bit 4 ((a::byte) AND 3) < 64"
  by (rule byte_lt_64I) (auto simp: bit_simps dest: byte_bit_lt8)
lemma dig3s: "push_bit 2 ((b::byte) AND 15) < 64"
  by (rule byte_lt_64I) (auto simp: bit_simps dest: byte_bit_lt8)

lemma digits_ok: "list_all (\<lambda>n. let v = (word_of_nat n :: byte) in
     a2b_table (b2a_table v) = v \<and> b2a_table v \<noteq> BASE64_PAD \<and> unat (b2a_table v) < 128) [0..<64]"
  by (simp add: a2b_table_def b2a_table_def BASE64_PAD_def upt_conv_Cons Let_def)

lemma digit_facts:
  assumes "v < 64"
  shows "a2b_table (b2a_table v) = v" "b2a_table v \<noteq> BASE64_PAD" "unat (b2a_table v) < 128"
proof -
  have "unat v < 64" using assms by (simp add: word_less_nat_alt)
  then have "let w = (word_of_nat (unat v) :: byte) in
      a2b_table (b2a_table w) = w \<and> b2a_table w \<noteq> BASE64_PAD \<and> unat (b2a_table w) < 128"
    using digits_ok by (simp add: list_all_iff del: of_nat_unat)
  then show "a2b_table (b2a_table v) = v" "b2a_table v \<noteq> BASE64_PAD" "unat (b2a_table v) < 128"
    by (simp_all add: Let_def)
qed

lemma a2b_loop_quad_gen:
  assumes "quad_pos st = 0" "d1 < 64" "d2 < 64" "d3 < 64" "d4 < 64"
  shows "a2b_loop st (map b2a_table [d1, d2, d3, d4] @ rest)
       = a2b_loop (st\<lparr>quad_pos := 0, leftchar := 0, pads := 0,
            bin_data := bin_data st @ [push_bit 2 d1 OR drop_bit 4 d2,
                                      push_bit 4 (d2 AND 0x0f) OR drop_bit 2 d3,
                                      push_bit 6 (d3 AND 0x03) OR d4]\<rparr>) rest"
proof -
  have t: "a2b_table (b2a_table d1) = d1" "a2b_table (b2a_table d2) = d2"
          "a2b_table (b2a_table d3) = d3" "a2b_table (b2a_table d4) = d4"
    using assms(2-5) by (simp_all add: digit_facts)
  have p: "b2a_table d1 \<noteq> BASE64_PAD" "b2a_table d2 \<noteq> BASE64_PAD"
          "b2a_table d3 \<noteq> BASE64_PAD" "b2a_table d4 \<noteq> BASE64_PAD"
    using assms(2-5) by (simp_all add: digit_facts)
  have l: "\<not> 64 \<le> d1" "\<not> 64 \<le> d2" "\<not> 64 \<le> d3" "\<not> 64 \<le> d4"
    using assms(2-5) by (simp_all add: not_le)
  show ?thesis using assms(1) by (cases st) (simp add: t p l a2b_digit_def)
qed

lemma a2b_loop_quad:
  assumes "quad_pos st = 0"
  shows "a2b_loop st (map b2a_table [drop_bit 2 a, push_bit 4 (a AND 3) OR drop_bit 4 b,
                    push_bit 2 (b AND 15) OR drop_bit 6 c, c AND 63] @ rest)
       = a2b_loop (st\<lparr>quad_pos := 0, leftchar := 0, pads := 0, bin_data := bin_data st @ [a, b, c]\<rparr>) rest"
  using a2b_loop_quad_gen [OF assms dig1 dig2 dig3 dig4] by (simp only: d1 d2 d3)


lemma d1': "push_bit 2 (drop_bit 2 a) OR drop_bit 4 (push_bit 4 ((a::byte) AND 3)) = a"
  by (rule bit_byte_eqI) (erule less_8E; simp add: bit_simps)

lemma d2': "push_bit 4 ((push_bit 4 (a AND 3) OR drop_bit 4 b) AND 0x0f) OR drop_bit 2 (push_bit 2 ((b::byte) AND 15)) = b"
  by (rule bit_byte_eqI) (erule less_8E; simp add: bit_simps)

lemma a2b_loop_pair_gen:
  assumes "quad_pos st = 0" "d1 < 64" "d2 < 64" "d3 < 64"
  shows "a2b_finish (a2b_loop st (map b2a_table [d1, d2, d3] @ [BASE64_PAD]))
       = Inr (bin_data st @ [push_bit 2 d1 OR drop_bit 4 d2, push_bit 4 (d2 AND 0x0f) OR drop_bit 2 d3])"
proof -
  have t: "a2b_table (b2a_table d1) = d1" "a2b_table (b2a_table d2) = d2" "a2b_table (b2a_table d3) = d3"
    using assms(2-4) by (simp_all add: digit_facts)
  have p: "b2a_table d1 \<noteq> BASE64_PAD" "b2a_table d2 \<noteq> BASE64_PAD" "b2a_table d3 \<noteq> BASE64_PAD"
    using assms(2-4) by (simp_all add: digit_facts)
  have l: "\<not> 64 \<le> d1" "\<not> 64 \<le> d2" "\<not> 64 \<le> d3"
    using assms(2-4) by (simp_all add: not_le)
  show ?thesis using assms(1) by (simp add: t p l a2b_digit_def a2b_finish_def)
qed

lemma a2b_loop_single_gen:
  assumes "quad_pos st = 0" "d1 < 64" "d2 < 64"
  shows "a2b_finish (a2b_loop st (map b2a_table [d1, d2] @ [BASE64_PAD, BASE64_PAD]))
       = Inr (bin_data st @ [push_bit 2 d1 OR drop_bit 4 d2])"
proof -
  have t: "a2b_table (b2a_table d1) = d1" "a2b_table (b2a_table d2) = d2"
    using assms(2-3) by (simp_all add: digit_facts)
  have p: "b2a_table d1 \<noteq> BASE64_PAD" "b2a_table d2 \<noteq> BASE64_PAD"
    using assms(2-3) by (simp_all add: digit_facts)
  have l: "\<not> 64 \<le> d1" "\<not> 64 \<le> d2"
    using assms(2-3) by (simp_all add: not_le)
  show ?thesis using assms(1) by (simp add: t p l a2b_digit_def a2b_finish_def)
qed

lemma a2b_encode:
  "quad_pos st = 0 \<Longrightarrow> a2b_finish (a2b_loop st (b64encode_bytes bs)) = Inr (bin_data st @ bs)"
proof (induction bs arbitrary: st rule: b64encode_bytes.induct)
  case (1 a b c rest)
  let ?st = "st\<lparr>quad_pos := 0, leftchar := 0, pads := 0, bin_data := bin_data st @ [a, b, c]\<rparr>"
  have "a2b_loop st (b64encode_bytes (a # b # c # rest)) = a2b_loop ?st (b64encode_bytes rest)"
    by (simp only: b64encode_bytes.simps a2b_loop_quad [OF "1.prems"])
  moreover have "a2b_finish (a2b_loop ?st (b64encode_bytes rest)) = Inr (bin_data ?st @ rest)"
    by (rule "1.IH") simp
  ultimately show ?case by simp
next
  case (2 a b)
  then show ?case
    using a2b_loop_pair_gen [OF "2" dig1 dig2 dig3s] by (simp only: b64encode_bytes.simps d1 d2')
next
  case (3 a)
  then show ?case
    using a2b_loop_single_gen [OF "3" dig1 dig2s] by (simp only: b64encode_bytes.simps d1')
next
  case 4
  then show ?case by (simp add: a2b_finish_def)
qed

lemma b64encode_ascii: "\<forall>x \<in> set (b64encode_bytes bs). unat x < 128"
proof (induction bs rule: b64encode_bytes.induct)
  case (1 a b c rest)
  then show ?case
    using digit_facts(3) [OF dig1 [of a]] digit_facts(3) [OF dig2 [of a b]]
          digit_facts(3) [OF dig3 [of b c]] digit_facts(3) [OF dig4 [of c]]
    by simp
next
  case (2 a b)
  then show ?case
    using digit_facts(3) [OF dig1 [of a]] digit_facts(3) [OF dig2 [of a b]]
          digit_facts(3) [OF dig3s [of b]]
    by (simp add: BASE64_PAD_def)
next
  case (3 a)
  then show ?case
    using digit_facts(3) [OF dig1 [of a]] digit_facts(3) [OF dig2s [of a]]
    by (simp add: BASE64_PAD_def)
qed simp

lemma ascii_encode_b64encode: "ascii_encode (b64encode bs) = Inr (b64encode_bytes bs)"
proof -
  have "\<forall>x \<in> set (b64encode_bytes bs). of_char (char_of (unat x) :: char) < (128::nat)
          \<and> (of_nat (of_char (char_of (unat x) :: char)) :: byte) = x"
  proof
    fix x assume "x \<in> set (b64encode_bytes bs)"
    with b64encode_ascii have "unat x < 128" by blast
    then show "of_char (char_of (unat x) :: char) < (128::nat)
          \<and> (of_nat (of_char (char_of (unat x) :: char)) :: byte) = x"
      by simp
  qed
  then show ?thesis
    by (auto simp: ascii_encode_def b64encode_def list_all_iff intro!: map_idI)
qed

lemma a2b_base64_encode: "a2b_base64 (b64encode_bytes bs) = Inr bs"
  using a2b_encode [of a2b_init bs] by (simp add: a2b_base64_def a2b_init_def)

lemma a2b_loop_filter: "a2b_loop st (filter b64_significant cs) = a2b_loop st cs"
  by (induction cs arbitrary: st) (auto simp: b64_significant_def Let_def not_le)

lemma out_rel_pads [simp]: "out_rel (st\<lparr>pads := p\<rparr>) d = out_rel st d"
  by (simp add: out_rel_def)

lemma out_rel_digit: "out_rel st d \<Longrightarrow> out_rel (a2b_digit st v) (Suc d)"
  by (auto simp: out_rel_def a2b_digit_def mod_Suc div_Suc)

lemma a2b_loop_out_rel:
  "out_rel st d \<Longrightarrow> \<exists>d'. d \<le> d' \<and> d' \<le> d + length cs \<and> out_rel (fst (a2b_loop st cs)) d'"
proof (induction cs arbitrary: st d)
  case Nil
  then show ?case by auto
next
  case (Cons c cs)
  show ?case
  proof (cases "c = BASE64_PAD")
    case True
    then show ?thesis
      using Cons.IH [of "st\<lparr>pads := Suc (pads st)\<rparr>" d] Cons.IH [of st d] Cons.prems
      by (auto simp: Let_def intro: exI [of _ d])
  next
    case notpad: False
    show ?thesis
    proof (cases "64 \<le> a2b_table c")
      case True
      then obtain d' where "d \<le> d'" "d' \<le> d + length cs" "out_rel (fst (a2b_loop st cs)) d'"
        using Cons.IH [OF Cons.prems] by blast
      with notpad True show ?thesis by (intro exI [of _ d']) simp
    next
      case False
      have "out_rel (a2b_digit (st\<lparr>pads := 0\<rparr>) (a2b_table c)) (Suc d)"
        using Cons.prems by (intro out_rel_digit) simp
      then obtain d' where "Suc d \<le> d'" "d' \<le> Suc d + length cs"
          "out_rel (fst (a2b_loop (a2b_digit (st\<lparr>pads := 0\<rparr>) (a2b_table c)) cs)) d'"
        using Cons.IH by blast
      with notpad False show ?thesis by (intro exI [of _ d']) simp
    qed
  qed
qed

lemma a2b_loop_nopad:
  "\<forall>c \<in> set cs. c \<noteq> BASE64_PAD \<Longrightarrow> out_rel st d \<Longrightarrow>
   snd (a2b_loop st cs) = False \<and> out_rel (fst (a2b_loop st cs)) (d + count_ev (\<lambda>c. a2b_table c < 64) cs)"
proof (induction cs arbitrary: st d)
  case Nil
  then show ?case by simp
next
  case (Cons c cs)
  then show ?case
    using Cons.IH [of st d] Cons.IH [of "a2b_digit (st\<lparr>pads := 0\<rparr>) (a2b_table c)" "Suc d"]
          out_rel_digit [of "st\<lparr>pads := 0\<rparr>" d]
    by (auto simp: not_le)
qed

lemma out_len_bound: "3 * (d div 4) + (d mod 4 - 1) \<le> (n + 3) div 4 * 3" if "d \<le> n" for d n :: nat
proof -
  have "3 * (d div 4) + (d mod 4 - 1) \<le> (d + 3) div 4 * 3" by presburger
  also have "\<dots> \<le> (n + 3) div 4 * 3" using that by (intro mult_le_mono1 div_le_mono) simp
  finally show ?thesis .
qed

lemma a2b_base64_error:
  "a2b_base64 s = Inl e \<Longrightarrow> e = B64IncorrectPadding \<or> (\<exists>k. e = B64ExcessChars k)"
  by (auto simp: a2b_base64_def a2b_finish_def split: prod.splits bool.splits if_splits)

lemma b64decode_error:
  "b64decode s = Inl e \<Longrightarrow> e = B64NonAscii \<or> e = B64IncorrectPadding \<or> (\<exists>k. e = B64ExcessChars k)"
  by (auto simp: b64decode_def ascii_encode_def split: sum.splits if_splits dest: a2b_base64_error)

lemma a2b_wf_pads [simp]: "a2b_wf (st\<lparr>pads := p\<rparr>) = a2b_wf st"
  by (simp add: a2b_wf_def)

lemma a2b_wf_digit: "a2b_wf st \<Longrightarrow> v < 64 \<Longrightarrow> a2b_wf (a2b_digit st v)"
proof -
  assume wf: "a2b_wf st" and v: "v < 64"
  have "v AND 0x0f < (16 :: byte)" "v AND 0x03 < (4 :: byte)"
    by (rule le_less_trans [OF word_and_le1], simp)+
  then show ?thesis using wf v by (auto simp: a2b_wf_def a2b_digit_def)
qed

lemma a2b_wf_loop: "a2b_wf st \<Longrightarrow> a2b_wf (fst (a2b_loop st cs))"
  by (induction st cs rule: a2b_loop.induct) (auto simp: Let_def not_le a2b_wf_digit)

lemma push_bit_byte_unat:
  assumes "unat (w :: byte) * 2 ^ n < 256"
  shows "unat (push_bit n w) = unat w * 2 ^ n"
  using assms by (simp only: unsigned_push_bit_eq) (simp add: take_bit_eq_mod push_bit_eq_mult)

text \<open>
  C13. Round trip: \<^verbatim>\<open>base64.b64decode\<close> as called on line 59 gives back
  every byte string that the service encodes in standard Base64 (with its padding).
\<close>

theorem b64_roundtrip: "b64decode (b64encode bs) = Inr bs"
  by (simp add: b64decode_def ascii_encode_b64encode a2b_base64_encode)

text \<open>
  C14. Bound: the output of \<^verbatim>\<open>a2b_base64\<close> is never longer than three bytes
  per four input bytes, rounded up; this is the size of the buffer the C code
  allocates (\<^verbatim>\<open>(ascii_len + 3) / 4 * 3\<close>), so the loop never writes past it.
\<close>

theorem a2b_output_bound:
  "a2b_base64 s = Inr out \<Longrightarrow> length out \<le> (length s + 3) div 4 * 3"
proof -
  assume r: "a2b_base64 s = Inr out"
  have "out_rel a2b_init 0" by (simp add: out_rel_def a2b_init_def)
  then obtain d where "d \<le> length s" "out_rel (fst (a2b_loop a2b_init s)) d"
    using a2b_loop_out_rel [of a2b_init 0 s] by auto
  moreover have "out = bin_data (fst (a2b_loop a2b_init s))"
    using r by (auto simp: a2b_base64_def a2b_finish_def split: prod.splits bool.splits if_splits)
  ultimately show ?thesis using out_len_bound [of d "length s"] by (simp add: out_rel_def)
qed

text \<open>
  C15. In non-strict mode the decoder ignores every byte that is neither an
  alphabet character nor the pad: decoding the input with those bytes removed
  gives the same result, value or error.
\<close>

theorem a2b_skips_invalid: "a2b_base64 (filter b64_significant s) = a2b_base64 s"
  by (simp add: a2b_base64_def a2b_loop_filter)

text \<open>
  C16. Error cases: on an input without pad characters, with \<open>k\<close> alphabet
  characters, the decoder returns \<open>3 (k div 4)\<close> bytes when \<open>k\<close> is a multiple of
  four, raises \<^verbatim>\<open>Invalid base64-encoded string: number of data characters (k)
  cannot be 1 more than a multiple of 4\<close> when \<open>k mod 4 = 1\<close>, and raises
  \<^verbatim>\<open>Incorrect padding\<close> otherwise.
\<close>

theorem a2b_unpadded_result:
  assumes "\<forall>c \<in> set s. c \<noteq> BASE64_PAD"
  shows "let k = count_ev (\<lambda>c. a2b_table c < 64) s in
           (k mod 4 = 0 \<longrightarrow> (\<exists>out. a2b_base64 s = Inr out \<and> length out = 3 * (k div 4)))
         \<and> (k mod 4 = 1 \<longrightarrow> a2b_base64 s = Inl (B64ExcessChars k))
         \<and> (2 \<le> k mod 4 \<longrightarrow> a2b_base64 s = Inl B64IncorrectPadding)"
proof -
  let ?k = "count_ev (\<lambda>c. a2b_table c < 64) s"
  have "out_rel a2b_init 0" by (simp add: out_rel_def a2b_init_def)
  from a2b_loop_nopad [OF assms this]
  have "snd (a2b_loop a2b_init s) = False" "out_rel (fst (a2b_loop a2b_init s)) ?k" by simp_all
  moreover have "?k mod 4 = 1 \<Longrightarrow> Suc (?k div 4 * 4) = ?k" by presburger
  ultimately show ?thesis
    by (cases "a2b_loop a2b_init s")
       (auto simp: a2b_base64_def a2b_finish_def out_rel_def Let_def)
qed

text \<open>
  C37. The loop state keeps its shape: from a well-formed state (the initial one
  included) the loop ends in a well-formed state, and in a well-formed state the
  shifts \<^verbatim>\<open>leftchar << 2\<close>, \<^verbatim>\<open><< 4\<close>, \<^verbatim>\<open><< 6\<close> of the C code lose no bit when
  the result is stored into a byte.
\<close>

theorem a2b_state_wf:
  assumes "a2b_wf st"
  shows "a2b_wf (fst (a2b_loop st cs))
       \<and> (quad_pos st = 1 \<longrightarrow> unat (push_bit 2 (leftchar st)) = unat (leftchar st) * 4)
       \<and> (quad_pos st = 2 \<longrightarrow> unat (push_bit 4 (leftchar st)) = unat (leftchar st) * 16)
       \<and> (quad_pos st = 3 \<longrightarrow> unat (push_bit 6 (leftchar st)) = unat (leftchar st) * 64)"
proof -
  have u: "unat (leftchar st) < n" if "leftchar st < of_nat n" "n \<le> 64" for n
    using that by (simp add: word_less_nat_alt unat_of_nat)
  have "quad_pos st = 1 \<longrightarrow> unat (push_bit 2 (leftchar st)) = unat (leftchar st) * 4"
    using assms u [of 64] push_bit_byte_unat [of "leftchar st" 2] by (auto simp: a2b_wf_def)
  moreover have "quad_pos st = 2 \<longrightarrow> unat (push_bit 4 (leftchar st)) = unat (leftchar st) * 16"
    using assms u [of 16] push_bit_byte_unat [of "leftchar st" 4] by (auto simp: a2b_wf_def)
  moreover have "quad_pos st = 3 \<longrightarrow> unat (push_bit 6 (leftchar st)) = unat (leftchar st) * 64"
    using assms u [of 4] push_bit_byte_unat [of "leftchar st" 6] by (auto simp: a2b_wf_def)
  ultimately show ?thesis using a2b_wf_loop [OF assms] by blast
qed

section \<open>Witnesses\<close>

theorem a2b_output_bound_witness:
  "a2b_base64 [81, 85, 74, 68] = Inr [65, 66, 67] \<and> length [65, 66, 67 :: byte] \<le> (length [81, 85, 74, 68 :: byte] + 3) div 4 * 3"
  using a2b_output_bound [of "[81, 85, 74, 68]" "[65, 66, 67]"]
  by (simp add: a2b_base64_def a2b_init_def a2b_finish_def a2b_table_def a2b_digit_def BASE64_PAD_def)

theorem a2b_unpadded_result_witness:
  "a2b_base64 [81, 85, 74, 68, 82] = Inl (B64ExcessChars 5)"
  using a2b_unpadded_result [of "[81, 85, 74, 68, 82]"]
  by (simp add: a2b_table_def BASE64_PAD_def)

theorem a2b_state_wf_witness:
  "a2b_wf (fst (a2b_loop a2b_init [81, 85, 74]))"
  using a2b_state_wf [of a2b_init "[81, 85, 74]"] by (simp add: a2b_wf_def a2b_init_def)

end
