(* ===== verification/AgingClient.thy ===== *)
theory AgingClient
  imports Base64
begin

text \<open>
  The aging client: \<^verbatim>\<open>age_photo\<close> of \<^verbatim>\<open>src/main.py\<close> (lines 46--59) and the
  global semaphore \<^verbatim>\<open>OPENAI_SEM = asyncio.Semaphore(4)\<close> (line 32).
  \<^verbatim>\<open>age_photo\<close> is a coroutine with two suspension points: acquiring a slot of
  the semaphore, and awaiting \<^verbatim>\<open>client.images.edit\<close>. The theory gives its
  pieces as functions: the slot operations of the semaphore, the request the
  coroutine sends, and what it makes of the service's answer (the decoding of
  \<^verbatim>\<open>res.data[0].b64_json\<close>), with every exception a value of \<open>exc\<close>.
  The orchestrator theory runs these pieces as the steps of a task.
\<close>

section \<open>The semaphore \<^verbatim>\<open>OPENAI_SEM\<close>\<close>

text \<open>
  The counter \<^verbatim>\<open>_value\<close> of an \<^verbatim>\<open>asyncio.Semaphore\<close>. \<^verbatim>\<open>acquire\<close> takes a slot
  when the counter is positive and otherwise suspends the caller (\<open>None\<close>: no
  transition yet); \<^verbatim>\<open>release\<close>, run by \<^verbatim>\<open>__aexit__\<close> of \<^verbatim>\<open>async with\<close> on
  every path out of the block, gives the slot back.
\<close>

definition OPENAI_SEM_LIMIT :: nat where
  "OPENAI_SEM_LIMIT = 4"

definition sem_acquire :: "nat \<Rightarrow> nat option" where
  "sem_acquire v = (if 0 < v then Some (v - 1) else None)"

definition sem_release :: "nat \<Rightarrow> nat" where
  "sem_release v = Suc v"

section \<open>The request\<close>

text \<open>
  The keyword arguments of \<^verbatim>\<open>client.images.edit\<close> (lines 51--58): the model name
  \<^verbatim>\<open>MODEL_NAME = "gpt-image-1"\<close> (line 20), the single input image (the photo's bytes
  in a buffer named \<^verbatim>\<open>input.png\<close>), \<^verbatim>\<open>n=1\<close>, \<^verbatim>\<open>quality="high"\<close>,
  \<^verbatim>\<open>size="1024x1024"\<close>, and the prompt \<^verbatim>\<open>PROMPT\<close> of lines 26--30: three
  adjacent string literals, which Python concatenates, as the UTF-8 bytes of their
  Russian text (the request body is UTF-8).
\<close>

record edit_request =
  req_model :: string
  req_prompt :: string
  req_images :: "(string \<times> bytes) list"
  req_n :: nat
  req_quality :: string
  req_size :: string

definition MODEL_NAME :: string where
  "MODEL_NAME = ''gpt-image-1''"

definition PROMPT_1 :: string where
  "PROMPT_1 = map char_of
    [209, 129, 208, 180, 208, 181, 208, 187, 208, 176, 208, 185, 32, 209, 132, 208,
     190, 209, 130, 208, 190, 208, 179, 209, 128, 208, 176, 209, 132, 208, 184,
     209, 142, 32, 209, 141, 209, 130, 208, 190, 208, 179, 208, 190, 32, 209,
     135, 208, 181, 208, 187, 208, 190, 208, 178, 208, 181, 208, 186, 208, 176,
     32, 209, 135, 208, 181, 209, 128, 208, 181, 208, 183, 32, 49, 53, 32, 208,
     187, 208, 181, 209, 130, 46, 32::nat]"

definition PROMPT_2 :: string where
  "PROMPT_2 = map char_of
    [209, 129, 208, 190, 209, 133, 209, 128, 208, 176, 208, 189, 208, 184, 32, 208,
     190, 209, 129, 208, 189, 208, 190, 208, 178, 208, 189, 209, 139, 208, 181,
     32, 209, 135, 208, 181, 209, 128, 209, 130, 209, 139, 32, 208, 187, 208,
     184, 209, 134, 208, 176, 44, 32, 209, 134, 208, 178, 208, 181, 209, 130, 32,
     208, 178, 208, 190, 208, 187, 208, 190, 209, 129, 44, 32, 209, 141, 208,
     187, 208, 181, 208, 188, 208, 181, 208, 189, 209, 130, 209, 139, 32, 208,
     190, 208, 180, 208, 181, 208, 182, 208, 180, 209, 139, 46, 32::nat]"

definition PROMPT_3 :: string where
  "PROMPT_3 = map char_of
    [208, 190, 208, 189, 32, 208, 180, 208, 190, 208, 187, 208, 182, 208, 181, 208,
     189, 32, 208, 178, 209, 139, 208, 179, 208, 187, 209, 143, 208, 180, 208,
     181, 209, 130, 209, 140, 32, 209, 131, 209, 129, 208, 191, 208, 181, 209,
     136, 208, 189, 209, 139, 208, 188, 44, 32, 209, 132, 208, 190, 209, 130,
     208, 190, 208, 179, 209, 128, 208, 176, 209, 132, 208, 184, 209, 143, 32,
     208, 180, 208, 190, 208, 187, 208, 182, 208, 189, 208, 176, 32, 208, 177,
     209, 139, 209, 130, 209, 140, 32, 208, 191, 208, 190, 209, 128, 209, 130,
     209, 128, 208, 181, 209, 130, 208, 189, 208, 190, 208, 185::nat]"

definition PROMPT :: string where
  "PROMPT = PROMPT_1 @ PROMPT_2 @ PROMPT_3"

definition age_request :: "bytes \<Rightarrow> edit_request" where
  "age_request original =
     \<lparr>req_model = MODEL_NAME, req_prompt = PROMPT, req_images = [(''input.png'', original)], req_n = 1,
      req_quality = ''high'', req_size = ''1024x1024''\<rparr>"

section \<open>The response\<close>

text \<open>
  The parts of the \<^verbatim>\<open>ImagesResponse\<close> the code reads: the list \<^verbatim>\<open>data\<close> and, in
  its first item, the optional string \<^verbatim>\<open>b64_json\<close>.
\<close>

record image_item =
  b64_json :: "string option"

record images_response =
  resp_data :: "image_item list"

text \<open>
  Line 59: \<^verbatim>\<open>res.data[0]\<close> raises \<^verbatim>\<open>IndexError\<close> on an empty list,
  \<^verbatim>\<open>b64decode(None)\<close> raises \<^verbatim>\<open>TypeError\<close>, and otherwise the payload is decoded.
\<close>

definition age_photo_decode :: "images_response \<Rightarrow> exc + bytes" where
  "age_photo_decode res =
     (case resp_data res of
        [] \<Rightarrow> Inl NoResponseData
      | it # _ \<Rightarrow> (case b64_json it of None \<Rightarrow> Inl PayloadMissing | Some s \<Rightarrow> b64decode s))"

text \<open>
  The value of \<^verbatim>\<open>age_photo\<close> once \<^verbatim>\<open>client.images.edit\<close> has returned or raised:
  its exception propagates, its response is decoded.
\<close>

definition age_photo_result :: "exc + images_response \<Rightarrow> exc + bytes" where
  "age_photo_result r = (case r of Inl e \<Rightarrow> Inl e | Inr res \<Rightarrow> age_photo_decode res)"

section \<open>Properties of \<^verbatim>\<open>age_photo\<close>\<close>

text \<open>
  C17. \<^verbatim>\<open>age_photo\<close> returns exactly the image the service sent: whatever
  follows the first item of \<^verbatim>\<open>res.data\<close>, a first item carrying the standard
  Base64 encoding of an image yields that image.
\<close>

theorem age_photo_returns_image:
  "age_photo_result (Inr \<lparr>resp_data = \<lparr>b64_json = Some (b64encode img)\<rparr> # rest\<rparr>) = Inr img"
  by (simp add: age_photo_result_def age_photo_decode_def b64decode_def
                ascii_encode_b64encode a2b_base64_encode)

text \<open>
  C18. The exceptions \<^verbatim>\<open>age_photo\<close> raises: the service call's own exception,
  passed on unchanged, or one raised by line 59: \<^verbatim>\<open>IndexError\<close> on an empty
  \<^verbatim>\<open>data\<close>, \<^verbatim>\<open>TypeError\<close> on a missing payload, or one of the three
  errors of \<^verbatim>\<open>b64decode\<close> (non-ASCII text, incorrect padding, excess data
  characters). Nothing else reaches the \<^verbatim>\<open>except\<close> of \<^verbatim>\<open>work\<close> from here.
\<close>

theorem age_photo_errors:
  "age_photo_result r = Inl e \<Longrightarrow>
     r = Inl e \<or> e \<in> {NoResponseData, PayloadMissing, B64NonAscii, B64IncorrectPadding}
     \<or> (\<exists>k. e = B64ExcessChars k)"
  by (auto simp: age_photo_result_def age_photo_decode_def split: sum.splits list.splits option.splits
           dest: b64decode_error)

section \<open>Witnesses\<close>

theorem age_photo_errors_witness:
  "age_photo_result (Inr \<lparr>resp_data = [\<lparr>b64_json = Some ''QQ''\<rparr>]\<rparr>) = Inl B64IncorrectPadding
   \<and> B64IncorrectPadding \<in> {NoResponseData, PayloadMissing, B64NonAscii, B64IncorrectPadding}"
  using age_photo_errors [of "Inr \<lparr>resp_data = [\<lparr>b64_json = Some ''QQ''\<rparr>]\<rparr>" B64IncorrectPadding]
  by (simp add: age_photo_result_def age_photo_decode_def b64decode_def ascii_encode_def
                a2b_base64_def a2b_init_def a2b_finish_def a2b_table_def a2b_digit_def BASE64_PAD_def)

end
