(* ===== verification/Orchestrator.thy ===== *)
theory Orchestrator
  imports AgingClient
begin

text \<open>
  The request orchestrator: \<^verbatim>\<open>handle_photo\<close> and its inner coroutine
  \<^verbatim>\<open>work()\<close> (\<^verbatim>\<open>src/main.py\<close>, lines 99--118), with the process-wide counter
  \<^verbatim>\<open>TOTAL_GENERATED\<close> and its lock (lines 39--40) and the slots of
  \<^verbatim>\<open>OPENAI_SEM\<close>. The asyncio event loop runs one coroutine at a time and switches
  only at an \<^verbatim>\<open>await\<close>; so a step of the model is one task resuming from one
  suspension point and running to the next one. The steps of different tasks
  interleave in any order: the scheduler, the service and Telegram are the
  environment, and every answer they may give (a response or an exception) is a step.
  The composition of the collage, which the code runs in a worker thread, is a
  parameter \<open>mk\<close> of the steps; the root theory instantiates it with the model of
  \<^verbatim>\<open>make_collage\<close>.

  The state keeps what the program keeps (the semaphore's counter, the counter of
  generated collages, each task's local state, the tasks in the order of their
  creation) and what it emits: the log of
  Telegram messages, service calls and log lines, each tagged with the task whose
  code produced it.
\<close>

section \<open>Messages, events and task states\<close>

text \<open>
  The three status texts: the processing notice sent by \<^verbatim>\<open>reply_text\<close>
  (line 102), the done text of line 112, and the failure text of line 116, which
  embeds the exception.
\<close>

datatype status_text = Processing | Ready | NotDone exc

datatype event =
    StatusMsg tid status_text   \<comment> \<open>\<^verbatim>\<open>update.message.reply_text\<close>, line 102\<close>
  | ApiCall tid edit_request    \<comment> \<open>\<^verbatim>\<open>client.images.edit\<close> sent, line 51\<close>
  | LogTotal tid nat            \<comment> \<open>\<^verbatim>\<open>logging.info\<close> of the new total, line 111\<close>
  | StatusEdit tid status_text  \<comment> \<open>\<^verbatim>\<open>status_msg.edit_text\<close>, lines 112 and 116\<close>
  | PhotoSent tid bytes         \<comment> \<open>\<^verbatim>\<open>update.message.reply_photo\<close>, line 113\<close>
  | LogError tid exc            \<comment> \<open>\<^verbatim>\<open>logging.exception\<close>, line 115\<close>
  | TaskCrashed tid exc         \<comment> \<open>an exception escaping \<^verbatim>\<open>work()\<close> from line 116\<close>

fun ev_tid :: "event \<Rightarrow> tid" where
  "ev_tid (StatusMsg t _) = t"
| "ev_tid (ApiCall t _) = t"
| "ev_tid (LogTotal t _) = t"
| "ev_tid (StatusEdit t _) = t"
| "ev_tid (PhotoSent t _) = t"
| "ev_tid (LogError t _) = t"
| "ev_tid (TaskCrashed t _) = t"

fun log_total_val :: "event \<Rightarrow> nat option" where
  "log_total_val (LogTotal _ n) = Some n"
| "log_total_val _ = None"

text \<open>
  Where a task is suspended. \<open>Acquiring\<close>: \<^verbatim>\<open>work()\<close> is scheduled and
  \<^verbatim>\<open>age_photo\<close> waits for a slot of the semaphore; \<open>Calling\<close>: it holds a slot and
  awaits the service; \<open>Composing a\<close>: it awaits \<^verbatim>\<open>asyncio.to_thread(make_collage,
  \<dots>)\<close> with the generated image \<open>a\<close>; \<open>EditingReady c\<close> and \<open>Replying c\<close>: it
  awaits the two Telegram calls of the success path with the collage \<open>c\<close>;
  \<open>Failing e\<close>: it is in the \<^verbatim>\<open>except\<close> block and awaits the failure edit;
  \<open>Finished\<close>: the coroutine has returned, or (\<open>Crashed\<close>) raised.
\<close>

datatype outcome = Succeeded | Failed | Crashed

datatype phase =
    Acquiring
  | Calling
  | Composing bytes
  | EditingReady bytes
  | Replying bytes
  | Failing exc
  | Finished outcome

record task =
  before :: bytes
  phase :: phase

record sys =
  sem_value :: nat
  total_generated :: nat
  tasks :: "task list"
  events :: "event list"

definition init_sys :: sys where
  "init_sys = \<lparr>sem_value = OPENAI_SEM_LIMIT, total_generated = 0, tasks = [], events = []\<rparr>"

section \<open>The handler and the steps of \<^verbatim>\<open>work()\<close>\<close>

text \<open>
  \<^verbatim>\<open>handle_photo\<close>: the download of the photo and the status reply either raise
  (the handler ends, no task is created) or give the photo's bytes; then the task is
  created with \<^verbatim>\<open>create_task(work())\<close> and the handler returns without awaiting it.
\<close>

definition handle_photo :: "exc + bytes \<Rightarrow> sys \<Rightarrow> sys" where
  "handle_photo dl s =
     (case dl of
        Inl _ \<Rightarrow> s
      | Inr before_bytes \<Rightarrow>
          s\<lparr>tasks := tasks s @ [\<lparr>before = before_bytes, phase = Acquiring\<rparr>],
            events := events s @ [StatusMsg (length (tasks s)) Processing]\<rparr>)"

definition set_phase :: "tid \<Rightarrow> task \<Rightarrow> phase \<Rightarrow> event list \<Rightarrow> sys \<Rightarrow> sys" where
  "set_phase t k p evs s = s\<lparr>tasks := (tasks s)[t := k\<lparr>phase := p\<rparr>], events := events s @ evs\<rparr>"

text \<open>An exception reaches \<^verbatim>\<open>except Exception as e\<close>: it is logged (line 115).\<close>

definition fail_task :: "tid \<Rightarrow> task \<Rightarrow> exc \<Rightarrow> sys \<Rightarrow> sys" where
  "fail_task t k e s = set_phase t k (Failing e) [LogError t e] s"

text \<open>What a suspended task is resumed with.\<close>

datatype resume =
    SemSlot                               \<comment> \<open>a slot of \<^verbatim>\<open>OPENAI_SEM\<close> is free\<close>
  | ApiReturn "exc + images_response"     \<comment> \<open>\<^verbatim>\<open>client.images.edit\<close> returns or raises\<close>
  | ThreadReturn                          \<comment> \<open>the worker thread finished \<^verbatim>\<open>make_collage\<close>\<close>
  | TgReturn "exc option"                 \<comment> \<open>a Telegram call returns (\<open>None\<close>) or raises\<close>

text \<open>
  One resumption of task \<open>t\<close> in state \<open>k\<close>, running the code up to the next
  \<^verbatim>\<open>await\<close>; \<open>None\<close> when the task cannot be resumed with that input.
  \<^item> \<open>SemSlot\<close>: \<^verbatim>\<open>async with OPENAI_SEM\<close> takes a slot and the request is sent.
  \<^item> \<open>ApiReturn\<close>: \<^verbatim>\<open>__aexit__\<close> releases the slot whether the block returns or
    raises; the decoded image goes to the worker thread, an exception to
    \<^verbatim>\<open>except\<close>.
  \<^item> \<open>ThreadReturn\<close>: \<^verbatim>\<open>make_collage\<close> raised, or returned the collage; then
    the counter is incremented and logged under \<^verbatim>\<open>COUNTER_LOCK\<close>. No
    \<^verbatim>\<open>await\<close> lies between the return of the thread and the edit, so the
    increment is atomic with the resumption, and the lock is never contended.
  \<^item> \<open>TgReturn\<close>: one of the three awaited Telegram calls finished. An exception of
    the two success-path calls enters \<^verbatim>\<open>except\<close>; one of the failure edit leaves
    \<^verbatim>\<open>work()\<close>.
\<close>

fun task_resume :: "(bytes \<Rightarrow> bytes \<Rightarrow> exc + bytes) \<Rightarrow> tid \<Rightarrow> task \<Rightarrow> resume \<Rightarrow> sys \<Rightarrow> sys option" where
  "task_resume mk t k SemSlot s =
     (case phase k of
        Acquiring \<Rightarrow>
          (case sem_acquire (sem_value s) of
             None \<Rightarrow> None
           | Some v \<Rightarrow> Some (set_phase t k Calling [ApiCall t (age_request (before k))]
                                (s\<lparr>sem_value := v\<rparr>)))
      | _ \<Rightarrow> None)"
| "task_resume mk t k (ApiReturn r) s =
     (case phase k of
        Calling \<Rightarrow>
          (let s' = s\<lparr>sem_value := sem_release (sem_value s)\<rparr> in
           Some (case age_photo_result r of
                   Inl e \<Rightarrow> fail_task t k e s'
                 | Inr after_bytes \<Rightarrow> set_phase t k (Composing after_bytes) [] s'))
      | _ \<Rightarrow> None)"
| "task_resume mk t k ThreadReturn s =
     (case phase k of
        Composing after_bytes \<Rightarrow>
          Some (case mk (before k) after_bytes of
                  Inl e \<Rightarrow> fail_task t k e s
                | Inr collage \<Rightarrow>
                    (let n = Suc (total_generated s) in
                     set_phase t k (EditingReady collage) [LogTotal t n]
                       (s\<lparr>total_generated := n\<rparr>)))
      | _ \<Rightarrow> None)"
| "task_resume mk t k (TgReturn r) s =
     (case phase k of
        EditingReady collage \<Rightarrow>
          Some (case r of
                  None \<Rightarrow> set_phase t k (Replying collage) [StatusEdit t Ready] s
                | Some e \<Rightarrow> fail_task t k e s)
      | Replying collage \<Rightarrow>
          Some (case r of
                  None \<Rightarrow> set_phase t k (Finished Succeeded) [PhotoSent t collage] s
                | Some e \<Rightarrow> fail_task t k e s)
      | Failing e \<Rightarrow>
          Some (case r of
                  None \<Rightarrow> set_phase t k (Finished Failed) [StatusEdit t (NotDone e)] s
                | Some e' \<Rightarrow> set_phase t k (Finished Crashed) [TaskCrashed t e'] s)
      | _ \<Rightarrow> None)"

definition work_resume :: "(bytes \<Rightarrow> bytes \<Rightarrow> exc + bytes) \<Rightarrow> tid \<Rightarrow> resume \<Rightarrow> sys \<Rightarrow> sys option" where
  "work_resume mk t i s = (if t < length (tasks s) then task_resume mk t (tasks s ! t) i s else None)"

section \<open>Interleaving\<close>

text \<open>
  A step of the whole program: a photo message is handled, or one task resumes.
  Which task moves, and with which answer of the environment, is not determined.
\<close>

inductive orch_step :: "(bytes \<Rightarrow> bytes \<Rightarrow> exc + bytes) \<Rightarrow> sys \<Rightarrow> sys \<Rightarrow> bool"
  for mk :: "bytes \<Rightarrow> bytes \<Rightarrow> exc + bytes" where
  receive: "orch_step mk s (handle_photo dl s)"
| resume: "work_resume mk t i s = Some s' \<Longrightarrow> orch_step mk s s'"

inductive reachable :: "(bytes \<Rightarrow> bytes \<Rightarrow> exc + bytes) \<Rightarrow> sys \<Rightarrow> bool"
  for mk :: "bytes \<Rightarrow> bytes \<Rightarrow> exc + bytes" where
  init: "reachable mk init_sys"
| step: "reachable mk s \<Longrightarrow> orch_step mk s s' \<Longrightarrow> reachable mk s'"

text \<open>
  An executable driver for concrete runs: a schedule is the list of the
  scheduler's choices, each a message handled or a task resumed with an answer of
  the environment.
\<close>

datatype sched = Recv "exc + bytes" | Resume tid resume

fun run :: "(bytes \<Rightarrow> bytes \<Rightarrow> exc + bytes) \<Rightarrow> sched list \<Rightarrow> sys \<Rightarrow> sys option" where
  "run mk [] s = Some s"
| "run mk (Recv dl # xs) s = run mk xs (handle_photo dl s)"
| "run mk (Resume t i # xs) s =
     (case work_resume mk t i s of None \<Rightarrow> None | Some s' \<Rightarrow> run mk xs s')"

text \<open>
  A stand-in for the composition in the concrete runs below: it never fails and
  puts the two images one after the other. The theorems hold for every \<open>mk\<close>.
\<close>

definition side_by_side :: "bytes \<Rightarrow> bytes \<Rightarrow> exc + bytes" where
  "side_by_side b a = Inr (b @ a)"

text \<open>
  Concrete schedules: one request that succeeds, four requests that hold all slots
  while a fifth waits, and one request whose reply fails after the counter was
  incremented. The service's answer \<open>''Ag==''\<close> is the Base64 text of the byte 2.
\<close>

definition demo_response :: "exc + images_response" where
  "demo_response = Inr \<lparr>resp_data = [\<lparr>b64_json = Some ''Ag==''\<rparr>]\<rparr>"

definition demo_success :: "sched list" where
  "demo_success = [Recv (Inr [1]), Resume 0 SemSlot, Resume 0 (ApiReturn demo_response),
     Resume 0 ThreadReturn, Resume 0 (TgReturn None), Resume 0 (TgReturn None)]"

definition demo_busy :: "sched list" where
  "demo_busy = [Recv (Inr [1]), Recv (Inr [2]), Recv (Inr [3]), Recv (Inr [4]), Recv (Inr [5]),
     Resume 0 SemSlot, Resume 1 SemSlot, Resume 2 SemSlot, Resume 3 SemSlot]"

definition demo_reply_fails :: "sched list" where
  "demo_reply_fails = [Recv (Inr [1]), Resume 0 SemSlot, Resume 0 (ApiReturn demo_response),
     Resume 0 ThreadReturn, Resume 0 (TgReturn None),
     Resume 0 (TgReturn (Some (TelegramError ''Timed out''))), Resume 0 (TgReturn None)]"

section \<open>The invariant\<close>

subsection \<open>Slots of the semaphore\<close>

text \<open>A task holds a slot exactly while it awaits the service.\<close>

definition holds_slot :: "task \<Rightarrow> bool" where
  "holds_slot k \<longleftrightarrow> phase k = Calling"

definition in_flight :: "sys \<Rightarrow> nat" where
  "in_flight s = count_ev holds_slot (tasks s)"

definition sem_inv :: "sys \<Rightarrow> bool" where
  "sem_inv s \<longleftrightarrow> sem_value s + in_flight s = OPENAI_SEM_LIMIT"

subsection \<open>The counter\<close>

fun logged_totals :: "event list \<Rightarrow> nat list" where
  "logged_totals [] = []"
| "logged_totals (LogTotal _ n # es) = n # logged_totals es"
| "logged_totals (_ # es) = logged_totals es"

definition counter_inv :: "sys \<Rightarrow> bool" where
  "counter_inv s \<longleftrightarrow> logged_totals (events s) = [1..<Suc (total_generated s)]"

fun total_of :: "tid \<Rightarrow> event \<Rightarrow> bool" where
  "total_of t (LogTotal t' _) = (t' = t)"
| "total_of t _ = False"

text \<open>A request is counted once its task has logged a new total.\<close>

definition counted :: "sys \<Rightarrow> tid \<Rightarrow> bool" where
  "counted s t \<longleftrightarrow> list_ex (total_of t) (events s)"

definition count_inv :: "sys \<Rightarrow> bool" where
  "count_inv s \<longleftrightarrow> total_generated s = count_ev (counted s) [0..<length (tasks s)]"

subsection \<open>The events of one task\<close>

definition task_events :: "tid \<Rightarrow> event list \<Rightarrow> event list" where
  "task_events t es = filter (\<lambda>e. ev_tid e = t) es"

definition called_evs :: "tid \<Rightarrow> task \<Rightarrow> event list" where
  "called_evs t k = [StatusMsg t Processing, ApiCall t (age_request (before k))]"

definition made_by :: "(bytes \<Rightarrow> bytes \<Rightarrow> exc + bytes) \<Rightarrow> task \<Rightarrow> bytes \<Rightarrow> bool" where
  "made_by mk k c \<longleftrightarrow> (\<exists>a. mk (before k) a = Inr c)"

text \<open>The events a task has emitted when an exception reaches its \<^verbatim>\<open>except\<close> block.\<close>

definition fail_prefix :: "tid \<Rightarrow> task \<Rightarrow> event list \<Rightarrow> bool" where
  "fail_prefix t k p \<longleftrightarrow>
     p = called_evs t k \<or> (\<exists>n. p = called_evs t k @ [LogTotal t n])
     \<or> (\<exists>n. p = called_evs t k @ [LogTotal t n, StatusEdit t Ready])"

text \<open>The events of a task in each of its states, in the order the code emits them.\<close>

definition phase_trace :: "(bytes \<Rightarrow> bytes \<Rightarrow> exc + bytes) \<Rightarrow> tid \<Rightarrow> task \<Rightarrow> event list \<Rightarrow> bool" where
  "phase_trace mk t k es =
     (case phase k of
        Acquiring \<Rightarrow> es = [StatusMsg t Processing]
      | Calling \<Rightarrow> es = called_evs t k
      | Composing a \<Rightarrow> es = called_evs t k
      | EditingReady c \<Rightarrow> made_by mk k c \<and> (\<exists>n. es = called_evs t k @ [LogTotal t n])
      | Replying c \<Rightarrow> made_by mk k c \<and> (\<exists>n. es = called_evs t k @ [LogTotal t n, StatusEdit t Ready])
      | Failing e \<Rightarrow> (\<exists>p. fail_prefix t k p \<and> es = p @ [LogError t e])
      | Finished Succeeded \<Rightarrow>
          (\<exists>n c. made_by mk k c \<and> es = called_evs t k @ [LogTotal t n, StatusEdit t Ready, PhotoSent t c])
      | Finished Failed \<Rightarrow> (\<exists>p e. fail_prefix t k p \<and> es = p @ [LogError t e, StatusEdit t (NotDone e)])
      | Finished Crashed \<Rightarrow> (\<exists>p e e'. fail_prefix t k p \<and> es = p @ [LogError t e, TaskCrashed t e']))"

definition trace_inv :: "(bytes \<Rightarrow> bytes \<Rightarrow> exc + bytes) \<Rightarrow> sys \<Rightarrow> bool" where
  "trace_inv mk s \<longleftrightarrow>
     (\<forall>e \<in> set (events s). ev_tid e < length (tasks s))
     \<and> (\<forall>t < length (tasks s). phase_trace mk t (tasks s ! t) (task_events t (events s)))"

definition orch_inv :: "(bytes \<Rightarrow> bytes \<Rightarrow> exc + bytes) \<Rightarrow> sys \<Rightarrow> bool" where
  "orch_inv mk s \<longleftrightarrow> sem_inv s \<and> counter_inv s \<and> trace_inv mk s \<and> count_inv s"

fun is_api_call :: "event \<Rightarrow> bool" where
  "is_api_call (ApiCall _ _) = True"
| "is_api_call _ = False"

subsection \<open>Work left\<close>

text \<open>
  The number of resumptions a task needs at most to finish when the environment
  answers in the quickest way; \<open>pending\<close> sums it over the tasks.
\<close>

fun rank :: "phase \<Rightarrow> nat" where
  "rank Acquiring = 3"
| "rank Calling = 2"
| "rank (Composing _) = 3"
| "rank (EditingReady _) = 2"
| "rank (Replying _) = 1"
| "rank (Failing _) = 1"
| "rank (Finished _) = 0"

definition pending :: "sys \<Rightarrow> nat" where
  "pending s = sum_list (map (\<lambda>k. rank (phase k)) (tasks s))"

subsection \<open>The request state machine of the specification\<close>

text \<open>
  The specification gives each request the states \<open>Pending \<rightarrow> {Succeeded, Failed}\<close>.
  A task's phase maps to them: a finished task is in the terminal state of its outcome,
  a task that crashed in its failure path (its failure edit raised) ended failed
  without its failure message, and every other phase is pending.

  \<open>spec_step mk k a evs b\<close> is the specification's transition of request \<open>k\<close> from
  \<open>a\<close> to \<open>b\<close> while the request emits \<open>evs\<close>, with stuttering: a pending
  request may stay pending; it may end succeeded only in a step that sends a photo
  that is a collage composed from its own photo (``transitions to Succeeded, and
  sends the collage bytes''); it may end failed only in a step that reports the
  failure (the failure edit, or the crash of the failure edit); an ended request
  emits nothing and stays as it is.
\<close>

datatype req_state = ReqPending | ReqSucceeded | ReqFailed

fun req_of :: "phase \<Rightarrow> req_state" where
  "req_of (Finished Succeeded) = ReqSucceeded"
| "req_of (Finished Failed) = ReqFailed"
| "req_of (Finished Crashed) = ReqFailed"
| "req_of _ = ReqPending"

fun reports_failure :: "event \<Rightarrow> bool" where
  "reports_failure (StatusEdit _ (NotDone _)) = True"
| "reports_failure (TaskCrashed _ _) = True"
| "reports_failure _ = False"

fun spec_step :: "(bytes \<Rightarrow> bytes \<Rightarrow> exc + bytes) \<Rightarrow> task \<Rightarrow> req_state \<Rightarrow> event list \<Rightarrow> req_state \<Rightarrow> bool" where
  "spec_step mk k ReqPending evs ReqPending = True"
| "spec_step mk k ReqPending evs ReqSucceeded = (\<exists>t c. PhotoSent t c \<in> set evs \<and> made_by mk k c)"
| "spec_step mk k ReqPending evs ReqFailed = list_ex reports_failure evs"
| "spec_step mk k a evs b = (a = b \<and> evs = [])"

subsection \<open>The work left to a task\<close>

text \<open>
  The number of resumptions a task can still take, along the longest path through
  \<^verbatim>\<open>work()\<close>: acquire, call, compose, edit, reply, and the failure edit after an
  exception in the reply. Every resumption moves a task to a phase with fewer.
\<close>

fun steps_left :: "phase \<Rightarrow> nat" where
  "steps_left Acquiring = 6"
| "steps_left Calling = 5"
| "steps_left (Composing _) = 4"
| "steps_left (EditingReady _) = 3"
| "steps_left (Replying _) = 2"
| "steps_left (Failing _) = 1"
| "steps_left (Finished _) = 0"

definition work_left :: "sys \<Rightarrow> nat" where
  "work_left s = sum_list (map (\<lambda>k. steps_left (phase k)) (tasks s))"

section \<open>Proofs\<close>

subsection \<open>Slots of the semaphore\<close>

lemma set_phase_sem_update [simp]:
  "set_phase t k p evs (s\<lparr>sem_value := v\<rparr>) = (set_phase t k p evs s)\<lparr>sem_value := v\<rparr>"
  by (simp add: set_phase_def)

lemma set_phase_total_update [simp]:
  "set_phase t k p evs (s\<lparr>total_generated := v\<rparr>) = (set_phase t k p evs s)\<lparr>total_generated := v\<rparr>"
  by (simp add: set_phase_def)

lemma sem_value_set_phase [simp]: "sem_value (set_phase t k p evs s) = sem_value s"
  by (simp add: set_phase_def)

lemma sem_value_handle_photo [simp]: "sem_value (handle_photo dl s) = sem_value s"
  by (simp add: handle_photo_def split: sum.split)

lemma in_flight_set_phase:
  assumes "t < length (tasks s)" "tasks s ! t = k"
  shows "in_flight (set_phase t k p evs s) + (if phase k = Calling then 1 else 0)
         = in_flight s + (if p = Calling then 1 else 0)"
  using count_ev_update [of t "tasks s" holds_slot "k\<lparr>phase := p\<rparr>"] assms
  by (simp add: in_flight_def set_phase_def holds_slot_def)

lemma in_flight_sem_update [simp]: "in_flight (s\<lparr>sem_value := v\<rparr>) = in_flight s"
  by (simp add: in_flight_def)

lemma in_flight_total_update [simp]: "in_flight (s\<lparr>total_generated := v\<rparr>) = in_flight s"
  by (simp add: in_flight_def)

lemma in_flight_handle_photo [simp]: "in_flight (handle_photo dl s) = in_flight s"
  by (simp add: handle_photo_def in_flight_def holds_slot_def split: sum.split)

lemma in_flight_enter [simp]:
  "t < length (tasks s) \<Longrightarrow> phase (tasks s ! t) \<noteq> Calling \<Longrightarrow>
   in_flight (set_phase t (tasks s ! t) Calling evs s) = Suc (in_flight s)"
  using in_flight_set_phase [of t s "tasks s ! t" Calling evs] by simp

lemma in_flight_leave [simp]:
  "t < length (tasks s) \<Longrightarrow> phase (tasks s ! t) = Calling \<Longrightarrow> p \<noteq> Calling \<Longrightarrow>
   in_flight (set_phase t (tasks s ! t) p evs s) = in_flight s - 1"
  using in_flight_set_phase [of t s "tasks s ! t" p evs] by simp

lemma in_flight_pos:
  "t < length (tasks s) \<Longrightarrow> phase (tasks s ! t) = Calling \<Longrightarrow> 0 < in_flight s"
  using in_flight_set_phase [of t s "tasks s ! t" Acquiring "[]"] by simp

lemma in_flight_other [simp]:
  "t < length (tasks s) \<Longrightarrow> phase (tasks s ! t) \<noteq> Calling \<Longrightarrow> p \<noteq> Calling \<Longrightarrow>
   in_flight (set_phase t (tasks s ! t) p evs s) = in_flight s"
  using in_flight_set_phase [of t s "tasks s ! t" p evs] by simp

lemma in_flight_eq_0_iff: "in_flight s = 0 \<longleftrightarrow> (\<forall>k \<in> set (tasks s). phase k \<noteq> Calling)"
  by (simp add: in_flight_def holds_slot_def filter_empty_conv)

lemma sem_inv_handle_photo: "sem_inv s \<Longrightarrow> sem_inv (handle_photo dl s)"
  by (simp add: sem_inv_def)

lemma sem_inv_resume:
  assumes "t < length (tasks s)" "task_resume mk t (tasks s ! t) i s = Some s'" "sem_inv s"
  shows "sem_inv s'"
proof (cases i)
  case SemSlot
  with assms show ?thesis
    by (auto simp: sem_inv_def sem_acquire_def split: phase.splits if_splits)
next
  case (ApiReturn r)
  with assms in_flight_pos [OF assms(1)] show ?thesis
    by (auto simp: sem_inv_def sem_release_def fail_task_def Let_def split: phase.splits sum.splits)
next
  case ThreadReturn
  with assms show ?thesis
    by (auto simp: sem_inv_def fail_task_def Let_def split: phase.splits sum.splits)
next
  case (TgReturn r)
  with assms show ?thesis
    by (auto simp: sem_inv_def fail_task_def split: phase.splits option.splits)
qed

subsection \<open>The events of each task\<close>

lemma task_events_append [simp]:
  "task_events t (es @ fs) = task_events t es @ task_events t fs"
  by (simp add: task_events_def)

lemma called_evs_phase [simp]: "called_evs t (k\<lparr>phase := p\<rparr>) = called_evs t k"
  by (simp add: called_evs_def)

lemma fail_prefix_phase [simp]: "fail_prefix t (k\<lparr>phase := p\<rparr>) es = fail_prefix t k es"
  by (simp add: fail_prefix_def)

lemma made_by_phase [simp]: "made_by mk (k\<lparr>phase := p\<rparr>) c = made_by mk k c"
  by (simp add: made_by_def)

lemma trace_inv_phase_trace:
  "trace_inv mk s \<Longrightarrow> t < length (tasks s) \<Longrightarrow>
   phase_trace mk t (tasks s ! t) (task_events t (events s))"
  by (simp add: trace_inv_def)

lemma trace_inv_sem_update [simp]: "trace_inv mk (s\<lparr>sem_value := v\<rparr>) = trace_inv mk s"
  by (simp add: trace_inv_def)

lemma trace_inv_total_update [simp]: "trace_inv mk (s\<lparr>total_generated := v\<rparr>) = trace_inv mk s"
  by (simp add: trace_inv_def)

lemma trace_inv_set_phase:
  assumes inv: "trace_inv mk s" and t: "t < length (tasks s)"
    and own: "\<forall>e \<in> set evs. ev_tid e = t"
    and tr: "phase_trace mk t ((tasks s ! t)\<lparr>phase := p\<rparr>) (task_events t (events s) @ evs)"
  shows "trace_inv mk (set_phase t (tasks s ! t) p evs s)"
proof -
  have other: "task_events t' evs = []" if "t' \<noteq> t" for t'
    using own that by (auto simp: task_events_def filter_empty_conv)
  have mine: "task_events t evs = evs"
    using own by (simp add: task_events_def)
  show ?thesis
    using inv t own tr other mine
    by (auto simp: trace_inv_def set_phase_def nth_list_update)
qed

lemma trace_inv_handle_photo:
  assumes inv: "trace_inv mk s" shows "trace_inv mk (handle_photo dl s)"
proof (cases dl)
  case (Inl e)
  with inv show ?thesis by (simp add: handle_photo_def)
next
  case (Inr b)
  let ?n = "length (tasks s)" and ?k = "\<lparr>before = b, phase = Acquiring\<rparr>"
  let ?es = "events s @ [StatusMsg ?n Processing]"
  have none: "task_events ?n (events s) = []"
    using inv by (auto simp: trace_inv_def task_events_def filter_empty_conv)
  have "phase_trace mk t ((tasks s @ [?k]) ! t) (task_events t ?es)" if "t < Suc ?n" for t
  proof (cases "t < ?n")
    case True
    then have "task_events t ?es = task_events t (events s)" and "(tasks s @ [?k]) ! t = tasks s ! t"
      by (simp_all add: task_events_def nth_append)
    with True inv show ?thesis by (simp add: trace_inv_def)
  next
    case False
    with that have "t = ?n" by simp
    with none show ?thesis by (simp add: task_events_def phase_trace_def)
  qed
  with inv Inr show ?thesis
    by (auto simp: trace_inv_def handle_photo_def)
qed

lemma phase_trace_call:
  "phase k = Acquiring \<Longrightarrow> phase_trace mk t k es \<Longrightarrow>
   phase_trace mk t (k\<lparr>phase := Calling\<rparr>) (es @ [ApiCall t (age_request (before k))])"
  by (simp add: phase_trace_def called_evs_def)

lemma phase_trace_compose:
  "phase k = Calling \<Longrightarrow> phase_trace mk t k es \<Longrightarrow>
   phase_trace mk t (k\<lparr>phase := Composing a\<rparr>) es"
  by (simp add: phase_trace_def called_evs_def)

lemma phase_trace_count:
  "phase k = Composing a \<Longrightarrow> mk (before k) a = Inr c \<Longrightarrow> phase_trace mk t k es \<Longrightarrow>
   phase_trace mk t (k\<lparr>phase := EditingReady c\<rparr>) (es @ [LogTotal t n])"
  by (auto simp: phase_trace_def made_by_def)

lemma phase_trace_ready:
  "phase k = EditingReady c \<Longrightarrow> phase_trace mk t k es \<Longrightarrow>
   phase_trace mk t (k\<lparr>phase := Replying c\<rparr>) (es @ [StatusEdit t Ready])"
  by (auto simp: phase_trace_def made_by_def)

lemma phase_trace_sent:
  "phase k = Replying c \<Longrightarrow> phase_trace mk t k es \<Longrightarrow>
   phase_trace mk t (k\<lparr>phase := Finished Succeeded\<rparr>) (es @ [PhotoSent t c])"
  by (auto simp: phase_trace_def made_by_def)

lemma phase_trace_fail:
  "phase k \<in> {Calling, Composing a, EditingReady c, Replying c} \<Longrightarrow> phase_trace mk t k es \<Longrightarrow>
   phase_trace mk t (k\<lparr>phase := Failing e\<rparr>) (es @ [LogError t e])"
  by (auto simp: phase_trace_def fail_prefix_def)

lemma phase_trace_failed:
  "phase k = Failing e \<Longrightarrow> phase_trace mk t k es \<Longrightarrow>
   phase_trace mk t (k\<lparr>phase := Finished Failed\<rparr>) (es @ [StatusEdit t (NotDone e)])"
  by (auto simp: phase_trace_def)

lemma phase_trace_crashed:
  "phase k = Failing e \<Longrightarrow> phase_trace mk t k es \<Longrightarrow>
   phase_trace mk t (k\<lparr>phase := Finished Crashed\<rparr>) (es @ [TaskCrashed t e'])"
  by (auto simp: phase_trace_def)

lemmas phase_trace_moves = phase_trace_call phase_trace_compose phase_trace_count
  phase_trace_ready phase_trace_sent phase_trace_fail phase_trace_failed phase_trace_crashed

lemma trace_inv_resume:
  assumes t: "t < length (tasks s)" and r: "task_resume mk t (tasks s ! t) i s = Some s'"
    and inv: "trace_inv mk s"
  shows "trace_inv mk s'"
proof -
  let ?k = "tasks s ! t"
  have cur: "phase_trace mk t ?k (task_events t (events s))"
    using inv t by (simp add: trace_inv_def)
  note step = trace_inv_set_phase [OF inv t]
  show ?thesis
  proof (cases i)
    case SemSlot
    with r cur show ?thesis
      by (auto simp: sem_acquire_def intro!: step phase_trace_moves
               split: phase.splits if_splits)
  next
    case (ApiReturn x)
    with r cur show ?thesis
      by (auto simp: fail_task_def Let_def intro!: step phase_trace_moves
               split: phase.splits sum.splits)
  next
    case ThreadReturn
    with r cur show ?thesis
      by (auto simp: fail_task_def Let_def intro!: step phase_trace_moves
               split: phase.splits sum.splits)
  next
    case (TgReturn x)
    with r cur show ?thesis
      by (auto simp: fail_task_def intro!: step phase_trace_moves
               split: phase.splits option.splits outcome.splits)
  qed
qed

subsection \<open>The counter\<close>

lemma logged_totals_append [simp]:
  "logged_totals (es @ fs) = logged_totals es @ logged_totals fs"
  by (induction es rule: logged_totals.induct) auto

lemma counter_inv_set_phase [simp]:
  "logged_totals evs = [] \<Longrightarrow> counter_inv (set_phase t k p evs s) = counter_inv s"
  by (simp add: counter_inv_def set_phase_def)

lemma counter_inv_sem_update [simp]: "counter_inv (s\<lparr>sem_value := v\<rparr>) = counter_inv s"
  by (simp add: counter_inv_def)

lemma counter_inv_handle_photo: "counter_inv s \<Longrightarrow> counter_inv (handle_photo dl s)"
  by (simp add: counter_inv_def handle_photo_def split: sum.split)

lemma counter_inv_resume:
  assumes r: "task_resume mk t k i s = Some s'" and inv: "counter_inv s"
  shows "counter_inv s'"
proof (cases i)
  case SemSlot
  with r inv show ?thesis by (auto simp: sem_acquire_def split: phase.splits if_splits)
next
  case (ApiReturn x)
  with r inv show ?thesis by (auto simp: fail_task_def Let_def split: phase.splits sum.splits)
next
  case ThreadReturn
  with r inv show ?thesis
    by (auto simp: fail_task_def Let_def counter_inv_def set_phase_def split: phase.splits sum.splits)
next
  case (TgReturn x)
  with r inv show ?thesis by (auto simp: fail_task_def split: phase.splits option.splits)
qed

lemma total_of_tid: "total_of t e \<Longrightarrow> ev_tid e = t"
  by (cases e) auto

lemma counted_task_events: "counted s t = list_ex (total_of t) (task_events t (events s))"
  by (auto simp: counted_def task_events_def list_ex_iff dest: total_of_tid)

lemma counted_set_phase:
  "\<forall>e \<in> set evs. \<not> total_of t' e \<Longrightarrow> counted (set_phase t k p evs s) t' = counted s t'"
  by (auto simp: counted_def set_phase_def list_ex_iff)

lemma counted_sem_update [simp]: "counted (s\<lparr>sem_value := v\<rparr>) = counted s"
  by (rule ext) (simp add: counted_def)

lemma count_inv_set_phase:
  assumes "t < length (tasks s)" "\<forall>e \<in> set evs. \<forall>t'. \<not> total_of t' e"
  shows "count_inv (set_phase t k p evs s) = count_inv s"
proof -
  have "counted (set_phase t k p evs s) = counted s"
    using assms(2) by (auto simp: counted_set_phase)
  with assms(1) show ?thesis by (simp add: count_inv_def set_phase_def)
qed

lemma count_inv_sem_update [simp]: "count_inv (s\<lparr>sem_value := v\<rparr>) = count_inv s"
  by (simp add: count_inv_def)

lemma count_inv_handle_photo:
  assumes tr: "trace_inv mk s" and c: "count_inv s"
  shows "count_inv (handle_photo dl s)"
proof (cases dl)
  case (Inl e)
  with c show ?thesis by (simp add: handle_photo_def)
next
  case (Inr b)
  let ?s' = "handle_photo dl s" and ?n = "length (tasks s)"
  have same: "counted ?s' = counted s"
    using Inr by (intro ext) (simp add: counted_def handle_photo_def)
  have len: "length (tasks ?s') = Suc ?n" and tot: "total_generated ?s' = total_generated s"
    using Inr by (simp_all add: handle_photo_def)
  have "\<not> counted s ?n"
    using tr by (auto simp: counted_def trace_inv_def list_ex_iff dest!: total_of_tid)
  with c show ?thesis
    by (simp add: count_inv_def same len tot)
qed

lemma count_inv_resume:
  assumes t: "t < length (tasks s)" and r: "task_resume mk t (tasks s ! t) i s = Some s'"
    and tr: "trace_inv mk s" and c: "count_inv s"
  shows "count_inv s'"
proof (cases "\<exists>a. i = ThreadReturn \<and> phase (tasks s ! t) = Composing a")
  case True
  then obtain a where i: "i = ThreadReturn" and ph: "phase (tasks s ! t) = Composing a" by blast
  have "task_events t (events s) = called_evs t (tasks s ! t)"
    using trace_inv_phase_trace [OF tr t] ph by (simp add: phase_trace_def)
  then have nc: "\<not> counted s t"
    by (simp add: counted_task_events called_evs_def)
  show ?thesis
  proof (cases "mk (before (tasks s ! t)) a")
    case (Inl e)
    with r i ph t c show ?thesis by (auto simp: fail_task_def count_inv_set_phase)
  next
    case (Inr col)
    let ?s1 = "set_phase t (tasks s ! t) (EditingReady col) [LogTotal t (Suc (total_generated s))] s"
    have s': "s' = ?s1\<lparr>total_generated := Suc (total_generated s)\<rparr>"
      using r i ph Inr by (simp add: Let_def)
    have cs: "counted s' = (\<lambda>t'. counted s t' \<or> t' = t)"
      by (intro ext) (auto simp: s' counted_def set_phase_def)
    have "count_ev (counted s') [0..<length (tasks s)] = Suc (count_ev (counted s) [0..<length (tasks s)])"
      unfolding cs using t nc by (intro count_ev_upt_flip) auto
    moreover have "total_generated s' = Suc (total_generated s)" "length (tasks s') = length (tasks s)"
      by (simp_all add: s' set_phase_def)
    ultimately show ?thesis using c by (simp add: count_inv_def)
  qed
next
  case False
  with r t c show ?thesis
    by (cases i) (auto simp: sem_acquire_def fail_task_def Let_def count_inv_set_phase
                       split: phase.splits if_splits sum.splits option.splits)
qed

subsection \<open>The invariant holds in every reachable state\<close>

lemma orch_inv_init: "orch_inv mk init_sys"
  by (simp add: orch_inv_def sem_inv_def counter_inv_def trace_inv_def count_inv_def init_sys_def
                in_flight_def)

lemma orch_inv_step: "orch_step mk s s' \<Longrightarrow> orch_inv mk s \<Longrightarrow> orch_inv mk s'"
proof (induction rule: orch_step.induct)
  case (receive s dl)
  then show ?case
    by (auto simp: orch_inv_def intro: sem_inv_handle_photo counter_inv_handle_photo
                   trace_inv_handle_photo count_inv_handle_photo)
next
  case (resume t i s s')
  then have t: "t < length (tasks s)" and r: "task_resume mk t (tasks s ! t) i s = Some s'"
    by (auto simp: work_resume_def split: if_splits)
  with resume.prems show ?case
    by (auto simp: orch_inv_def intro: sem_inv_resume counter_inv_resume trace_inv_resume
                   count_inv_resume)
qed

lemma reachable_orch_inv: "reachable mk s \<Longrightarrow> orch_inv mk s"
  by (induction rule: reachable.induct) (auto intro: orch_inv_init orch_inv_step)

lemma reachable_phase_trace:
  "reachable mk s \<Longrightarrow> t < length (tasks s) \<Longrightarrow>
   phase_trace mk t (tasks s ! t) (task_events t (events s))"
  using reachable_orch_inv [of mk s] by (simp add: orch_inv_def trace_inv_def)

lemma reachable_succeeded_made_by:
  assumes "reachable mk s" "k \<in> set (tasks s)" "phase k = Finished Succeeded"
  shows "\<exists>c. made_by mk k c"
proof -
  obtain t where t: "t < length (tasks s)" "k = tasks s ! t"
    using assms(2) by (metis in_set_conv_nth)
  have "phase_trace mk t k (task_events t (events s))"
    using reachable_phase_trace [OF assms(1) t(1)] t(2) by simp
  then show ?thesis
    using assms(3) by (auto simp: phase_trace_def)
qed

lemma run_reachable: "run mk xs s = Some s' \<Longrightarrow> reachable mk s \<Longrightarrow> reachable mk s'"
  by (induction mk xs s rule: run.induct)
     (auto intro: reachable.step orch_step.intros split: option.splits)

lemma run_append:
  "run mk (xs @ ys) s = (case run mk xs s of None \<Rightarrow> None | Some s' \<Rightarrow> run mk ys s')"
  by (induction mk xs s rule: run.induct) (auto split: option.splits)

lemma orch_inv_run: "run mk xs s = Some s' \<Longrightarrow> orch_inv mk s \<Longrightarrow> orch_inv mk s'"
  by (induction mk xs s rule: run.induct)
     (auto intro: orch_inv_step orch_step.intros split: option.splits)

subsection \<open>Progress\<close>

lemma pending_set_phase:
  "t < length (tasks s) \<Longrightarrow>
   pending (set_phase t (tasks s ! t) p evs s) + rank (phase (tasks s ! t)) = pending s + rank p"
  using sum_list_map_update [of t "tasks s" "\<lambda>k. rank (phase k)" "(tasks s ! t)\<lparr>phase := p\<rparr>"]
  by (simp add: pending_def set_phase_def)

lemma pending_sem_update [simp]: "pending (s\<lparr>sem_value := v\<rparr>) = pending s"
  by (simp add: pending_def)

lemma pending_total_update [simp]: "pending (s\<lparr>total_generated := v\<rparr>) = pending s"
  by (simp add: pending_def)

lemma pending_decreases:
  "t < length (tasks s) \<Longrightarrow> rank p < rank (phase (tasks s ! t)) \<Longrightarrow>
   pending (set_phase t (tasks s ! t) p evs s) < pending s"
  using pending_set_phase [of t s p evs] by simp

lemma rank_eq_0_iff: "rank p = 0 \<longleftrightarrow> (\<exists>r. p = Finished r)"
  by (cases p) auto

lemma pending_eq_0_iff: "pending s = 0 \<longleftrightarrow> (\<forall>k \<in> set (tasks s). \<exists>r. phase k = Finished r)"
  by (auto simp: pending_def rank_eq_0_iff)

lemma task_progress:
  assumes t: "t < length (tasks s)" and ph: "phase (tasks s ! t) \<noteq> Acquiring"
    and unf: "\<forall>r. phase (tasks s ! t) \<noteq> Finished r"
  shows "\<exists>i s'. work_resume mk t i s = Some s' \<and> pending s' < pending s"
proof (cases "phase (tasks s ! t)")
  case Calling
  then show ?thesis using t
    by (intro exI [of _ "ApiReturn (Inl (ApiError []))"])
       (auto simp: work_resume_def age_photo_result_def fail_task_def intro!: pending_decreases)
next
  case (Composing a)
  then show ?thesis using t
    by (intro exI [of _ ThreadReturn])
       (auto simp: work_resume_def fail_task_def Let_def intro!: pending_decreases split: sum.split)
next
  case (EditingReady c)
  then show ?thesis using t
    by (intro exI [of _ "TgReturn None"]) (auto simp: work_resume_def intro!: pending_decreases)
next
  case (Replying c)
  then show ?thesis using t
    by (intro exI [of _ "TgReturn None"]) (auto simp: work_resume_def intro!: pending_decreases)
next
  case (Failing e)
  then show ?thesis using t
    by (intro exI [of _ "TgReturn None"]) (auto simp: work_resume_def intro!: pending_decreases)
qed (use ph unf in auto)

lemma acquire_progress:
  assumes t: "t < length (tasks s)" and ph: "phase (tasks s ! t) = Acquiring" and v: "0 < sem_value s"
  shows "\<exists>s'. work_resume mk t SemSlot s = Some s' \<and> pending s' < pending s"
  using assms by (auto simp: work_resume_def sem_acquire_def intro!: pending_decreases)

lemma progress:
  assumes inv: "orch_inv mk s" and pos: "0 < pending s"
  shows "\<exists>t i s'. work_resume mk t i s = Some s' \<and> pending s' < pending s"
proof -
  obtain t where t: "t < length (tasks s)" and r: "0 < rank (phase (tasks s ! t))"
    using pos sum_list_map_pos [of "\<lambda>k. rank (phase k)" "tasks s"] by (auto simp: pending_def)
  show ?thesis
  proof (cases "\<exists>t' < length (tasks s). 0 < rank (phase (tasks s ! t')) \<and> phase (tasks s ! t') \<noteq> Acquiring")
    case True
    then obtain t' where "t' < length (tasks s)" "phase (tasks s ! t') \<noteq> Acquiring"
      and pos': "0 < rank (phase (tasks s ! t'))"
      by blast
    moreover from pos' have "\<forall>r. phase (tasks s ! t') \<noteq> Finished r"
      by auto
    ultimately show ?thesis using task_progress by blast
  next
    case False
    then have "\<forall>k \<in> set (tasks s). phase k \<noteq> Calling"
      by (auto simp: in_set_conv_nth) (metis rank.simps(2) phase.distinct(1) zero_neq_numeral)
    then have "in_flight s = 0" by (simp add: in_flight_eq_0_iff)
    with inv have "0 < sem_value s"
      by (simp add: orch_inv_def sem_inv_def OPENAI_SEM_LIMIT_def)
    moreover from False t r have "phase (tasks s ! t) = Acquiring" by auto
    ultimately show ?thesis using t acquire_progress by blast
  qed
qed

lemma finish_all:
  "orch_inv mk s \<Longrightarrow> \<exists>xs s'. run mk xs s = Some s' \<and> pending s' = 0 \<and> orch_inv mk s'"
proof (induction "pending s" arbitrary: s rule: less_induct)
  case less
  show ?case
  proof (cases "pending s = 0")
    case True
    with less.prems show ?thesis by (intro exI [of _ "[]"]) auto
  next
    case False
    then obtain t i s1 where st: "work_resume mk t i s = Some s1" and dec: "pending s1 < pending s"
      using progress [OF less.prems] by blast
    have "orch_inv mk s1"
      using st less.prems by (auto intro: orch_inv_step orch_step.resume)
    with less.hyps [OF dec] obtain xs s' where "run mk xs s1 = Some s'" "pending s' = 0" "orch_inv mk s'"
      by blast
    with st show ?thesis by (intro exI [of _ "Resume t i # xs"]) auto
  qed
qed

subsection \<open>Corollaries of the invariant\<close>

lemma succeeded_counted:
  assumes "reachable mk s" "t < length (tasks s)" "phase (tasks s ! t) = Finished Succeeded"
  shows "counted s t"
  using reachable_phase_trace [OF assms(1,2)] assms(3)
  by (auto simp: counted_task_events phase_trace_def)

lemma reachable_count_inv:
  "reachable mk s \<Longrightarrow> total_generated s = count_ev (counted s) [0..<length (tasks s)]"
  using reachable_orch_inv [of mk s] by (simp add: orch_inv_def count_inv_def)

lemmas run_simps = init_sys_def handle_photo_def work_resume_def sem_acquire_def sem_release_def
  set_phase_def fail_task_def OPENAI_SEM_LIMIT_def age_photo_result_def age_photo_decode_def
  b64decode_def ascii_encode_def a2b_base64_def a2b_init_def BASE64_PAD_def a2b_table_def
  a2b_digit_def a2b_finish_def side_by_side_def demo_response_def

subsection \<open>Refinement of the request state machine\<close>

lemma spec_step_stutter [simp]: "spec_step mk k a [] a"
  by (cases a) simp_all

lemma task_resume_tasks:
  "task_resume mk t k i s = Some s' \<Longrightarrow>
     (\<exists>p. tasks s' = (tasks s)[t := k\<lparr>phase := p\<rparr>]) \<and> req_of (phase k) = ReqPending"
  by (cases i; cases "phase k")
     (auto simp: set_phase_def fail_task_def Let_def split: option.splits sum.splits)

lemma task_resume_spec:
  assumes "task_resume mk t k i s = Some s'" "\<And>c. phase k = Replying c \<Longrightarrow> made_by mk k c"
  shows "\<exists>p evs. tasks s' = (tasks s)[t := k\<lparr>phase := p\<rparr>] \<and> events s' = events s @ evs
           \<and> (\<forall>e \<in> set evs. ev_tid e = t) \<and> spec_step mk k (req_of (phase k)) evs (req_of p)"
  using assms
  by (cases i; cases "phase k")
     (auto simp: set_phase_def fail_task_def Let_def split: option.splits sum.splits)

lemma task_events_own: "\<forall>e \<in> set evs. ev_tid e = t \<Longrightarrow> task_events u evs = (if u = t then evs else [])"
  by (auto simp: task_events_def filter_id_conv filter_empty_conv)

subsection \<open>Termination of \<^verbatim>\<open>work()\<close>\<close>

lemma task_resume_steps_left:
  "task_resume mk t k i s = Some s' \<Longrightarrow>
     \<exists>p. tasks s' = (tasks s)[t := k\<lparr>phase := p\<rparr>] \<and> steps_left p < steps_left (phase k)"
  by (cases i; cases "phase k")
     (auto simp: set_phase_def fail_task_def Let_def split: option.splits sum.splits)

lemma work_resume_work_left:
  assumes "work_resume mk t i s = Some s'"
  shows "work_left s' < work_left s"
proof -
  have t: "t < length (tasks s)" and r: "task_resume mk t (tasks s ! t) i s = Some s'"
    using assms by (auto simp: work_resume_def split: if_splits)
  obtain p where ts: "tasks s' = (tasks s)[t := (tasks s ! t)\<lparr>phase := p\<rparr>]"
      and lt: "steps_left p < steps_left (phase (tasks s ! t))"
    using task_resume_steps_left [OF r] by blast
  show ?thesis
    using sum_list_map_update [OF t, of "\<lambda>k. steps_left (phase k)" "(tasks s ! t)\<lparr>phase := p\<rparr>"] lt
    by (simp add: work_left_def ts)
qed

lemma work_left_le: "work_left s \<le> 6 * length (tasks s)"
proof -
  have "steps_left p \<le> 6" for p by (cases p) simp_all
  then have "work_left s \<le> sum_list (map (\<lambda>k. 6) (tasks s))"
    unfolding work_left_def by (intro sum_list_mono) simp
  then show ?thesis by (simp add: sum_list_triv)
qed

lemma run_resumes_bound:
  "run mk (map (\<lambda>(t, i). Resume t i) xs) s = Some s' \<Longrightarrow> length xs \<le> work_left s"
proof (induction xs arbitrary: s)
  case (Cons x xs)
  obtain t i where x: "x = (t, i)" by (cases x)
  from Cons.prems obtain s1 where r: "work_resume mk t i s = Some s1"
      and rest: "run mk (map (\<lambda>(t, i). Resume t i) xs) s1 = Some s'"
    by (auto simp: x split: option.splits)
  have "length xs \<le> work_left s1" by (rule Cons.IH [OF rest])
  with work_resume_work_left [OF r] show ?case by simp
qed simp

subsection \<open>Compositions that always fail\<close>

lemma task_resume_no_total:
  assumes "task_resume mk t k i s = Some s'" "\<forall>b a c. mk b a \<noteq> Inr c"
  shows "\<exists>evs. events s' = events s @ evs \<and> (\<forall>e \<in> set evs. \<forall>t n. e \<noteq> LogTotal t n)"
  using assms
  by (cases i; cases "phase k")
     (auto simp: set_phase_def fail_task_def Let_def split: option.splits sum.splits)

lemma never_counted:
  assumes "\<forall>b a c. mk b a \<noteq> Inr c" "reachable mk s"
  shows "\<not> counted s t"
proof -
  have "\<forall>e \<in> set (events s). \<forall>t n. e \<noteq> LogTotal t n"
    using assms(2)
  proof induction
    case init
    then show ?case by (simp add: init_sys_def)
  next
    case (step s s')
    from step.hyps(2) show ?case
    proof cases
      case (receive dl)
      then show ?thesis using step.IH by (cases dl) (auto simp: handle_photo_def)
    next
      case (resume t i)
      then have "task_resume mk t (tasks s ! t) i s = Some s'"
        by (auto simp: work_resume_def split: if_splits)
      then show ?thesis using task_resume_no_total [OF _ assms(1)] step.IH by fastforce
    qed
  qed
  moreover have "total_of t e \<Longrightarrow> \<exists>t' n. e = LogTotal t' n" for e by (cases e) auto
  ultimately show ?thesis by (fastforce simp: counted_def list_ex_iff)
qed

section \<open>Properties of the orchestrator\<close>

text \<open>
  C1. No more than \<^verbatim>\<open>OPENAI_SEM_LIMIT\<close> (4) generation calls are ever in flight,
  in any interleaving of any number of requests.
\<close>

theorem concurrency_bound: "reachable mk s \<Longrightarrow> in_flight s \<le> OPENAI_SEM_LIMIT"
  using reachable_orch_inv [of mk s] by (auto simp: orch_inv_def sem_inv_def)

text \<open>
  C2. The totals logged under \<^verbatim>\<open>COUNTER_LOCK\<close> are exactly 1, 2, \<dots>, n in the
  order of the log, n being the value of \<^verbatim>\<open>TOTAL_GENERATED\<close>: no increment is
  lost or doubled.
\<close>

theorem counter_no_lost_update:
  "reachable mk s \<Longrightarrow> logged_totals (events s) = [1..<Suc (total_generated s)]"
  using reachable_orch_inv [of mk s] by (auto simp: orch_inv_def counter_inv_def)

text \<open>
  C4. A request that ends successfully has emitted, in this order, the processing
  notice, one request to the service with its photo, one new total, the done text and
  the collage, and the collage is the composition of its photo with an image.
\<close>

theorem success_trace:
  assumes "reachable mk s" "t < length (tasks s)" "phase (tasks s ! t) = Finished Succeeded"
  shows "\<exists>n c a. task_events t (events s) =
           [StatusMsg t Processing, ApiCall t (age_request (before (tasks s ! t))), LogTotal t n,
            StatusEdit t Ready, PhotoSent t c]
         \<and> mk (before (tasks s ! t)) a = Inr c"
  using reachable_phase_trace [OF assms(1,2)] assms(3)
  by (auto simp: phase_trace_def made_by_def called_evs_def)

text \<open>
  C5. A request that ends in the failure path has logged one exception and ended with
  the failure text naming that exception, and it never sent a photo; the counter may
  already have counted it, and the user may already have seen the done text.
\<close>

theorem failure_trace:
  assumes "reachable mk s" "t < length (tasks s)" "phase (tasks s ! t) = Finished Failed"
  shows "\<exists>e. let pre = [StatusMsg t Processing, ApiCall t (age_request (before (tasks s ! t)))] in
           task_events t (events s) = pre @ [LogError t e, StatusEdit t (NotDone e)]
         \<or> (\<exists>n. task_events t (events s) = pre @ [LogTotal t n, LogError t e, StatusEdit t (NotDone e)])
         \<or> (\<exists>n. task_events t (events s) =
                 pre @ [LogTotal t n, StatusEdit t Ready, LogError t e, StatusEdit t (NotDone e)])"
  using reachable_phase_trace [OF assms(1,2)] assms(3)
  by (auto simp: phase_trace_def fail_prefix_def called_evs_def Let_def)

text \<open>
  C9. Each request sends exactly one request to the service once it has a slot, and
  none before: there is no retry.
\<close>

theorem single_request:
  assumes "reachable mk s" "t < length (tasks s)"
  shows "count_ev is_api_call (task_events t (events s)) =
           (if phase (tasks s ! t) = Acquiring then 0 else 1)"
  using reachable_phase_trace [OF assms(1,2)]
  by (auto simp: phase_trace_def fail_prefix_def called_evs_def
           split: phase.splits outcome.splits)

text \<open>
  C7. From every reachable state the environment can answer so that every request
  reaches a terminal state and every slot of the semaphore is free again: the
  semaphore cannot deadlock the requests.
\<close>

theorem all_requests_terminate:
  assumes "reachable mk s"
  shows "\<exists>xs s'. run mk xs s = Some s' \<and> (\<forall>k \<in> set (tasks s'). \<exists>r. phase k = Finished r)
                \<and> sem_value s' = OPENAI_SEM_LIMIT"
proof -
  obtain xs s' where "run mk xs s = Some s'" "pending s' = 0" "orch_inv mk s'"
    using finish_all [OF reachable_orch_inv [OF assms]] by blast
  moreover from \<open>pending s' = 0\<close> have "in_flight s' = 0"
    by (auto simp: pending_eq_0_iff in_flight_eq_0_iff)
  ultimately show ?thesis
    by (auto simp: pending_eq_0_iff orch_inv_def sem_inv_def)
qed

text \<open>
  C3. The counter counts the compositions: a photo handled leaves it unchanged, and
  a resumption of a task increments it by exactly one when it is the return of the
  worker thread and \<^verbatim>\<open>make_collage\<close> returned a collage, and leaves it unchanged
  otherwise (a raising \<^verbatim>\<open>make_collage\<close>, the service's answer, the Telegram calls,
  the semaphore). From \<open>TOTAL_GENERATED = 0\<close>, its value is the number of
  \<^verbatim>\<open>make_collage\<close> calls that returned.
\<close>

theorem counter_counts_collages:
  assumes "work_resume mk t i s = Some s'"
  shows "total_generated (handle_photo dl s) = total_generated s
       \<and> total_generated s' =
           (case (i, phase (tasks s ! t)) of
              (ThreadReturn, Composing a) \<Rightarrow>
                (case mk (before (tasks s ! t)) a of
                   Inl e \<Rightarrow> total_generated s
                 | Inr c \<Rightarrow> Suc (total_generated s))
            | _ \<Rightarrow> total_generated s)"
proof -
  have "total_generated (handle_photo dl s) = total_generated s"
    by (cases dl) (simp_all add: handle_photo_def)
  moreover have "task_resume mk t (tasks s ! t) i s = Some s'"
    using assms by (simp add: work_resume_def split: if_splits)
  then have "total_generated s' =
           (case (i, phase (tasks s ! t)) of
              (ThreadReturn, Composing a) \<Rightarrow>
                (case mk (before (tasks s ! t)) a of
                   Inl e \<Rightarrow> total_generated s
                 | Inr c \<Rightarrow> Suc (total_generated s))
            | _ \<Rightarrow> total_generated s)"
    by (cases i; cases "phase (tasks s ! t)")
       (auto simp: set_phase_def fail_task_def Let_def split: option.splits sum.splits)
  ultimately show ?thesis by blast
qed

text \<open>
  C6. The counter counts a request that then fails: when the reply with the collage
  raises, the request ends in the failure path with the counter incremented, after
  the user has seen the done text and then the failure text.
\<close>

theorem counted_but_failed:
  assumes "mk b a = Inr c" "age_photo_result r = Inr a"
  shows "\<exists>s. reachable mk s \<and> phase (tasks s ! 0) = Finished Failed \<and> total_generated s = 1
           \<and> task_events 0 (events s) =
               [StatusMsg 0 Processing, ApiCall 0 (age_request b), LogTotal 0 1,
                StatusEdit 0 Ready, LogError 0 e, StatusEdit 0 (NotDone e)]"
proof -
  let ?xs = "[Recv (Inr b), Resume 0 SemSlot, Resume 0 (ApiReturn r), Resume 0 ThreadReturn,
              Resume 0 (TgReturn None), Resume 0 (TgReturn (Some e)), Resume 0 (TgReturn None)]"
  have "\<exists>s. run mk ?xs init_sys = Some s \<and> phase (tasks s ! 0) = Finished Failed
          \<and> total_generated s = 1
          \<and> task_events 0 (events s) =
               [StatusMsg 0 Processing, ApiCall 0 (age_request b), LogTotal 0 1,
                StatusEdit 0 Ready, LogError 0 e, StatusEdit 0 (NotDone e)]"
    using assms by (simp add: run_simps task_events_def)
  then show ?thesis using run_reachable [OF _ reachable.init] by blast
qed

text \<open>
  C8. When no request awaits the service, all slots of the semaphore are free:
  every path out of \<^verbatim>\<open>async with OPENAI_SEM\<close>, the failing ones included, has
  released its slot.
\<close>

theorem slots_released_when_idle:
  assumes "reachable mk s" "\<forall>k \<in> set (tasks s). phase k \<noteq> Calling"
  shows "sem_value s = OPENAI_SEM_LIMIT"
proof -
  from assms(2) have "in_flight s = 0" by (simp add: in_flight_eq_0_iff)
  with reachable_orch_inv [OF assms(1)] show ?thesis by (simp add: orch_inv_def sem_inv_def)
qed

text \<open>
  C10. A service answer whose first item carries a payload that
  \<^verbatim>\<open>base64.b64decode\<close> rejects, whatever that payload is, sends the request to the
  failure path with exactly the decoder's exception: the slot is given back, the
  counter is unchanged, the exception is logged, and the next resumption edits the
  status to the failure text naming it and ends the request as failed.
\<close>

theorem malformed_payload_fails:
  assumes "work_resume mk t (ApiReturn (Inr res)) s = Some s'"
      and "resp_data res = it # items" "b64_json it = Some p" "b64decode p = Inl e"
  shows "phase (tasks s' ! t) = Failing e \<and> sem_value s' = Suc (sem_value s)
       \<and> total_generated s' = total_generated s \<and> events s' = events s @ [LogError t e]
       \<and> (\<exists>s''. work_resume mk t (TgReturn None) s' = Some s''
              \<and> phase (tasks s'' ! t) = Finished Failed \<and> sem_value s'' = sem_value s'
              \<and> total_generated s'' = total_generated s'
              \<and> events s'' = events s' @ [StatusEdit t (NotDone e)])"
proof -
  have t: "t < length (tasks s)" and c: "phase (tasks s ! t) = Calling"
    using assms(1) by (auto simp: work_resume_def split: if_splits phase.splits)
  have "age_photo_result (Inr res) = Inl e"
    using assms(2-4) by (simp add: age_photo_result_def age_photo_decode_def)
  then have s': "s' = fail_task t (tasks s ! t) e (s\<lparr>sem_value := sem_release (sem_value s)\<rparr>)"
    using assms(1) t c by (simp add: work_resume_def)
  then show ?thesis
    using t by (simp add: fail_task_def set_phase_def sem_release_def work_resume_def)
qed

text \<open>
  C11. The semaphore is the only backpressure: in every reachable state in which
  four requests await the service, no request can take a slot, whichever it is:
  every \<^verbatim>\<open>acquire\<close> blocks until one of the four is answered.
\<close>

theorem fifth_request_waits:
  assumes "reachable mk s" "in_flight s = OPENAI_SEM_LIMIT"
  shows "work_resume mk t SemSlot s = None"
proof -
  have "sem_value s = 0"
    using reachable_orch_inv [OF assms(1)] assms(2) by (simp add: orch_inv_def sem_inv_def)
  then show ?thesis
    by (auto simp: work_resume_def sem_acquire_def split: phase.split)
qed

text \<open>
  Every request that ends successfully has been counted: the counter is at
  least the number of successful requests.
\<close>

theorem successes_le_counter:
  "reachable mk s \<Longrightarrow> count_ev (\<lambda>k. phase k = Finished Succeeded) (tasks s) \<le> total_generated s"
  using count_ev_le_upt [of "tasks s" "\<lambda>k. phase k = Finished Succeeded" "counted s"]
        succeeded_counted [of mk s] reachable_count_inv [of mk s]
  by simp

text \<open>
  C29. Refinement: every step of the program (a photo handled or a task resumed)
  is, request by request, a step of the specification's state machine or no step:
  requests are only added, a new request is pending, a pending request stays
  pending or ends succeeded or failed, and an ended request never changes again.
\<close>

theorem orch_refines_spec:
  assumes "reachable mk s" "orch_step mk s s'"
  shows "length (tasks s) \<le> length (tasks s') \<and> (\<exists>new. events s' = events s @ new)
       \<and> (\<forall>t < length (tasks s).
            spec_step mk (tasks s ! t) (req_of (phase (tasks s ! t)))
              (task_events t (drop (length (events s)) (events s'))) (req_of (phase (tasks s' ! t))))
       \<and> (\<forall>k \<in> set (drop (length (tasks s)) (tasks s')). req_of (phase k) = ReqPending)"
  using assms(2)
proof cases
  case (receive dl)
  then show ?thesis
    by (cases dl) (auto simp: handle_photo_def task_events_def nth_append)
next
  case (resume t i)
  then have t: "t < length (tasks s)" and r: "task_resume mk t (tasks s ! t) i s = Some s'"
    by (auto simp: work_resume_def split: if_splits)
  have "made_by mk (tasks s ! t) c" if "phase (tasks s ! t) = Replying c" for c
    using reachable_phase_trace [OF assms(1) t] that by (simp add: phase_trace_def)
  then obtain p evs where ts: "tasks s' = (tasks s)[t := (tasks s ! t)\<lparr>phase := p\<rparr>]"
      and es: "events s' = events s @ evs" and own: "\<forall>e \<in> set evs. ev_tid e = t"
      and sp: "spec_step mk (tasks s ! t) (req_of (phase (tasks s ! t))) evs (req_of p)"
    using task_resume_spec [OF r] by blast
  show ?thesis
    using t sp by (auto simp: ts es task_events_own [OF own] nth_list_update)
qed

text \<open>
  C36. Termination of \<^verbatim>\<open>work()\<close>: there is no infinite sequence of resumptions
  (the relation "one resumption of some task" is well-founded), and any sequence of
  resumptions without new photos is at most six per request long.
\<close>

theorem work_terminates:
  "wf {(s', s). \<exists>t i. work_resume mk t i s = Some s'}
   \<and> (\<forall>xs s s'. run mk (map (\<lambda>(t, i). Resume t i) xs) s = Some s' \<longrightarrow> length xs \<le> 6 * length (tasks s))"
proof
  show "wf {(s', s). \<exists>t i. work_resume mk t i s = Some s'}"
    by (rule wf_subset [OF wf_measure [of work_left]]) (auto dest: work_resume_work_left)
  show "\<forall>xs s s'. run mk (map (\<lambda>(t, i). Resume t i) xs) s = Some s' \<longrightarrow> length xs \<le> 6 * length (tasks s)"
    using run_resumes_bound work_left_le order_trans by blast
qed

section \<open>Witnesses\<close>

text \<open>Each property with a hypothesis, applied to a state of a concrete run.\<close>

lemma demo_success_run:
  "\<exists>s. run side_by_side demo_success init_sys = Some s \<and> length (tasks s) = 1
       \<and> phase (tasks s ! 0) = Finished Succeeded \<and> total_generated s = 1"
  by (simp add: run_simps demo_success_def)

lemma demo_busy_run:
  "\<exists>s. run side_by_side demo_busy init_sys = Some s \<and> in_flight s = 4 \<and> length (tasks s) = 5
       \<and> (\<forall>k \<in> set (tasks s). \<exists>r. phase k \<noteq> Finished r)"
  by (simp add: run_simps demo_busy_def in_flight_def holds_slot_def)

lemma demo_reply_fails_run:
  "\<exists>s. run side_by_side demo_reply_fails init_sys = Some s \<and> length (tasks s) = 1
       \<and> phase (tasks s ! 0) = Finished Failed \<and> total_generated s = 1"
  by (simp add: run_simps demo_reply_fails_def)

theorem concurrency_bound_witness:
  "\<exists>s. reachable side_by_side s \<and> in_flight s = 4 \<and> in_flight s \<le> OPENAI_SEM_LIMIT"
proof -
  obtain s where r: "run side_by_side demo_busy init_sys = Some s" and f: "in_flight s = 4"
    using demo_busy_run by blast
  have "reachable side_by_side s" using run_reachable [OF r reachable.init] .
  with f concurrency_bound [of side_by_side s] show ?thesis by blast
qed

theorem counter_no_lost_update_witness:
  "\<exists>s. reachable side_by_side s \<and> total_generated s = 1 \<and> logged_totals (events s) = [1]"
proof -
  obtain s where r: "run side_by_side demo_success init_sys = Some s" and g: "total_generated s = 1"
    using demo_success_run by blast
  have "reachable side_by_side s" using run_reachable [OF r reachable.init] .
  with g counter_no_lost_update [of side_by_side s] show ?thesis by auto
qed

theorem counter_counts_collages_witness:
  "\<exists>s s'. run side_by_side [Recv (Inr [1]), Resume 0 SemSlot, Resume 0 (ApiReturn demo_response)]
             init_sys = Some s
         \<and> work_resume side_by_side 0 ThreadReturn s = Some s' \<and> total_generated s' = 1"
proof -
  obtain s where r: "run side_by_side [Recv (Inr [1]), Resume 0 SemSlot, Resume 0 (ApiReturn demo_response)]
                       init_sys = Some s"
      and ph: "phase (tasks s ! 0) = Composing [2]" and g: "total_generated s = 0"
      and b: "before (tasks s ! 0) = [1]"
    by (simp add: run_simps)
  obtain s' where w: "work_resume side_by_side 0 ThreadReturn s = Some s'"
    using r by (auto simp: run_simps)
  have "total_generated s' = 1"
    using counter_counts_collages [OF w] ph g b by (simp add: side_by_side_def)
  with r w show ?thesis by blast
qed

theorem malformed_payload_fails_witness:
  "\<exists>s s'. run side_by_side [Recv (Inr [1]), Resume 0 SemSlot] init_sys = Some s
         \<and> work_resume side_by_side 0 (ApiReturn (Inr \<lparr>resp_data = [\<lparr>b64_json = Some ''QQ''\<rparr>]\<rparr>)) s = Some s'
         \<and> phase (tasks s' ! 0) = Failing B64IncorrectPadding \<and> sem_value s' = OPENAI_SEM_LIMIT"
proof -
  obtain s where r: "run side_by_side [Recv (Inr [1]), Resume 0 SemSlot] init_sys = Some s"
      and v: "sem_value s = 3"
    by (simp add: run_simps)
  obtain s' where w: "work_resume side_by_side 0 (ApiReturn (Inr \<lparr>resp_data = [\<lparr>b64_json = Some ''QQ''\<rparr>]\<rparr>)) s = Some s'"
    using r by (auto simp: run_simps)
  have "b64decode ''QQ'' = Inl B64IncorrectPadding"
    by (simp add: run_simps)
  then have "phase (tasks s' ! 0) = Failing B64IncorrectPadding \<and> sem_value s' = Suc (sem_value s)"
    using malformed_payload_fails [OF w] by simp
  with r w v show ?thesis by (simp add: OPENAI_SEM_LIMIT_def)
qed

theorem fifth_request_waits_witness:
  "\<exists>s. reachable side_by_side s \<and> in_flight s = OPENAI_SEM_LIMIT \<and> length (tasks s) = 5
       \<and> phase (tasks s ! 4) = Acquiring \<and> work_resume side_by_side 4 SemSlot s = None"
proof -
  obtain s where r: "run side_by_side demo_busy init_sys = Some s" and f: "in_flight s = OPENAI_SEM_LIMIT"
      and l: "length (tasks s) = 5" and p: "phase (tasks s ! 4) = Acquiring"
    by (simp add: run_simps demo_busy_def in_flight_def holds_slot_def)
  have reach: "reachable side_by_side s" using run_reachable [OF r reachable.init] .
  with f l p fifth_request_waits [OF reach f] show ?thesis by blast
qed

theorem success_trace_witness:
  "\<exists>s. reachable side_by_side s \<and> 0 < length (tasks s) \<and> phase (tasks s ! 0) = Finished Succeeded
       \<and> (\<exists>n c a. task_events 0 (events s) =
             [StatusMsg 0 Processing, ApiCall 0 (age_request (before (tasks s ! 0))), LogTotal 0 n,
              StatusEdit 0 Ready, PhotoSent 0 c]
           \<and> side_by_side (before (tasks s ! 0)) a = Inr c)"
proof -
  obtain s where r: "run side_by_side demo_success init_sys = Some s"
      and l: "length (tasks s) = 1" and p: "phase (tasks s ! 0) = Finished Succeeded"
    using demo_success_run by blast
  have reach: "reachable side_by_side s" using run_reachable [OF r reachable.init] .
  have "0 < length (tasks s)" using l by simp
  with reach p success_trace [OF reach _ p] show ?thesis by blast
qed

theorem failure_trace_witness:
  "\<exists>s. reachable side_by_side s \<and> 0 < length (tasks s) \<and> phase (tasks s ! 0) = Finished Failed
       \<and> (\<exists>e. let pre = [StatusMsg 0 Processing, ApiCall 0 (age_request (before (tasks s ! 0)))] in
           task_events 0 (events s) = pre @ [LogError 0 e, StatusEdit 0 (NotDone e)]
         \<or> (\<exists>n. task_events 0 (events s) = pre @ [LogTotal 0 n, LogError 0 e, StatusEdit 0 (NotDone e)])
         \<or> (\<exists>n. task_events 0 (events s) =
                 pre @ [LogTotal 0 n, StatusEdit 0 Ready, LogError 0 e, StatusEdit 0 (NotDone e)]))"
proof -
  obtain s where r: "run side_by_side demo_reply_fails init_sys = Some s"
      and l: "length (tasks s) = 1" and p: "phase (tasks s ! 0) = Finished Failed"
    using demo_reply_fails_run by blast
  have reach: "reachable side_by_side s" using run_reachable [OF r reachable.init] .
  have "0 < length (tasks s)" using l by simp
  with reach p failure_trace [OF reach _ p] show ?thesis by blast
qed

theorem counted_but_failed_witness:
  "side_by_side [1] [2] = Inr [1, 2] \<and> age_photo_result demo_response = Inr [2]
   \<and> (\<exists>s. reachable side_by_side s \<and> phase (tasks s ! 0) = Finished Failed \<and> total_generated s = 1
       \<and> task_events 0 (events s) =
           [StatusMsg 0 Processing, ApiCall 0 (age_request [1]), LogTotal 0 1, StatusEdit 0 Ready,
            LogError 0 (TelegramError ''Timed out''), StatusEdit 0 (NotDone (TelegramError ''Timed out''))])"
proof -
  have h1: "side_by_side [1] [2] = Inr [1, 2]" by (simp add: side_by_side_def)
  have h2: "age_photo_result demo_response = Inr [2]" by (simp add: run_simps)
  show ?thesis
    using h1 h2 counted_but_failed [where mk = side_by_side and b = "[1]" and a = "[2]" and c = "[1, 2]"
        and r = demo_response and e = "TelegramError ''Timed out''", OF h1 h2]
    by blast
qed

theorem all_requests_terminate_witness:
  "\<exists>s. reachable side_by_side s \<and> length (tasks s) = 5
       \<and> (\<exists>xs s'. run side_by_side xs s = Some s' \<and> (\<forall>k \<in> set (tasks s'). \<exists>r. phase k = Finished r)
                  \<and> sem_value s' = OPENAI_SEM_LIMIT)"
proof -
  obtain s where r: "run side_by_side demo_busy init_sys = Some s" and l: "length (tasks s) = 5"
    using demo_busy_run by blast
  have reach: "reachable side_by_side s" using run_reachable [OF r reachable.init] .
  with l all_requests_terminate [OF reach] show ?thesis by blast
qed

theorem slots_released_when_idle_witness:
  "\<exists>s. reachable side_by_side s \<and> (\<forall>k \<in> set (tasks s). phase k \<noteq> Calling)
       \<and> length (tasks s) = 1 \<and> sem_value s = OPENAI_SEM_LIMIT"
proof -
  obtain s where r: "run side_by_side demo_reply_fails init_sys = Some s"
      and l: "length (tasks s) = 1" and p: "phase (tasks s ! 0) = Finished Failed"
    using demo_reply_fails_run by blast
  have reach: "reachable side_by_side s" using run_reachable [OF r reachable.init] .
  have idle: "\<forall>k \<in> set (tasks s). phase k \<noteq> Calling"
    using l p by (auto simp: in_set_conv_nth less_Suc_eq)
  with reach l slots_released_when_idle [OF reach idle] show ?thesis by blast
qed

theorem single_request_witness:
  "\<exists>s. reachable side_by_side s \<and> 4 < length (tasks s)
       \<and> count_ev is_api_call (task_events 0 (events s)) = 1
       \<and> count_ev is_api_call (task_events 4 (events s)) = 0"
proof -
  obtain s where r: "run side_by_side demo_busy init_sys = Some s" and l: "length (tasks s) = 5"
    using demo_busy_run by blast
  have reach: "reachable side_by_side s" using run_reachable [OF r reachable.init] .
  have p0: "phase (tasks s ! 0) = Calling" and p4: "phase (tasks s ! 4) = Acquiring"
    using r by (auto simp: run_simps demo_busy_def)
  show ?thesis
    using reach l single_request [OF reach, of 0] single_request [OF reach, of 4] p0 p4
    by (intro exI [of _ s]) simp
qed

theorem successes_le_counter_witness:
  "\<exists>s. reachable side_by_side s \<and> count_ev (\<lambda>k. phase k = Finished Succeeded) (tasks s) = 1
       \<and> count_ev (\<lambda>k. phase k = Finished Succeeded) (tasks s) \<le> total_generated s"
proof -
  obtain s where r: "run side_by_side demo_success init_sys = Some s"
      and l: "length (tasks s) = 1" and p: "phase (tasks s ! 0) = Finished Succeeded"
    using demo_success_run by blast
  have reach: "reachable side_by_side s" using run_reachable [OF r reachable.init] .
  have "count_ev (\<lambda>k. phase k = Finished Succeeded) (tasks s) = 1"
    using l p by (cases "tasks s") auto
  with reach successes_le_counter [OF reach] show ?thesis by auto
qed

theorem orch_refines_spec_witness:
  "spec_step side_by_side (tasks (handle_photo (Inr [1]) init_sys) ! 0) ReqPending
     (task_events 0 (drop 1 (events (handle_photo (Inr [2]) (handle_photo (Inr [1]) init_sys)))))
     (req_of (phase (tasks (handle_photo (Inr [2]) (handle_photo (Inr [1]) init_sys)) ! 0)))"
proof -
  let ?s = "handle_photo (Inr [1]) init_sys"
  have r: "reachable side_by_side ?s" by (rule reachable.step [OF reachable.init orch_step.receive])
  have "\<forall>t < length (tasks ?s). spec_step side_by_side (tasks ?s ! t) (req_of (phase (tasks ?s ! t)))
          (task_events t (drop (length (events ?s)) (events (handle_photo (Inr [2]) ?s))))
          (req_of (phase (tasks (handle_photo (Inr [2]) ?s) ! t)))"
    using orch_refines_spec [OF r orch_step.receive [of side_by_side ?s "Inr [2]"]] by blast
  then show ?thesis by (simp add: handle_photo_def init_sys_def)
qed

theorem work_terminates_witness:
  "run side_by_side (map (\<lambda>(t, i). Resume t i) [(0, SemSlot)]) (handle_photo (Inr [1]) init_sys) \<noteq> None
   \<and> length [(0 :: nat, SemSlot)] \<le> 6 * length (tasks (handle_photo (Inr [1]) init_sys))"
proof -
  obtain s' where r: "run side_by_side (map (\<lambda>(t, i). Resume t i) [(0, SemSlot)]) (handle_photo (Inr [1]) init_sys) = Some s'"
    by (simp add: run_simps)
  have "length [(0 :: nat, SemSlot)] \<le> 6 * length (tasks (handle_photo (Inr [1]) init_sys))"
    using conjunct2 [OF work_terminates [of side_by_side], rule_format, OF r] .
  then show ?thesis using r by simp
qed

end
