(* ===== verification/Bot.thy ===== *)
theory Bot
  imports Orchestrator
begin

text \<open>
  The wiring of the bot (\<^verbatim>\<open>src/main.py\<close>, lines 95--96 and 121--128): \<^verbatim>\<open>main\<close>
  registers \<^verbatim>\<open>CommandHandler("start", start)\<close> and
  \<^verbatim>\<open>MessageHandler(filters.PHOTO, handle_photo)\<close> and polls Telegram; every update
  goes to the first handler that accepts it, or to none. \<^verbatim>\<open>start\<close> replies with a
  fixed greeting. The program is the orchestrator of theory \<^verbatim>\<open>Orchestrator\<close> together
  with the greetings sent; a step of the program is one update dispatched to its
  handler, or one resumption of a task. The polling loop, the builder and the thread
  pool of line 124 are the environment.
\<close>

section \<open>Updates and handlers\<close>

text \<open>
  An update as the handlers see it: the command \<^verbatim>\<open>/start\<close> (with what its
  \<^verbatim>\<open>reply_text\<close> raised, if anything), a message with a photo (with the outcome of
  downloading it, as for \<open>handle_photo\<close>), or any other message.
\<close>

datatype update = StartCommand "exc option" | PhotoMessage "exc + bytes" | OtherMessage

record bot =
  bot_sys :: sys
  greetings :: nat

definition bot_init :: bot where
  "bot_init = \<lparr>bot_sys = init_sys, greetings = 0\<rparr>"

text \<open>
  \<^verbatim>\<open>start\<close>: one \<^verbatim>\<open>reply_text\<close>; if it raises, the exception goes to the
  application's error handling and nothing is sent.
\<close>

definition start :: "exc option \<Rightarrow> bot \<Rightarrow> bot" where
  "start r b = (case r of None \<Rightarrow> b\<lparr>greetings := Suc (greetings b)\<rparr> | Some e \<Rightarrow> b)"

text \<open>Lines 125--126: the command handler, then the photo handler, else nothing.\<close>

fun dispatch :: "update \<Rightarrow> bot \<Rightarrow> bot" where
  "dispatch (StartCommand r) b = start r b"
| "dispatch (PhotoMessage dl) b = b\<lparr>bot_sys := handle_photo dl (bot_sys b)\<rparr>"
| "dispatch OtherMessage b = b"

section \<open>The running bot\<close>

inductive bot_step :: "(bytes \<Rightarrow> bytes \<Rightarrow> exc + bytes) \<Rightarrow> bot \<Rightarrow> bot \<Rightarrow> bool"
  for mk :: "bytes \<Rightarrow> bytes \<Rightarrow> exc + bytes" where
  deliver: "bot_step mk b (dispatch u b)"
| resume: "work_resume mk t i (bot_sys b) = Some s' \<Longrightarrow> bot_step mk b (b\<lparr>bot_sys := s'\<rparr>)"

inductive bot_reachable :: "(bytes \<Rightarrow> bytes \<Rightarrow> exc + bytes) \<Rightarrow> bot \<Rightarrow> bool"
  for mk :: "bytes \<Rightarrow> bytes \<Rightarrow> exc + bytes" where
  init: "bot_reachable mk bot_init"
| step: "bot_reachable mk b \<Longrightarrow> bot_step mk b b' \<Longrightarrow> bot_reachable mk b'"

inductive_cases bot_stepE: "bot_step mk b b'"

section \<open>Properties\<close>

lemma dispatch_sys: "bot_sys (dispatch u b) = bot_sys b \<or> (\<exists>dl. bot_sys (dispatch u b) = handle_photo dl (bot_sys b))"
  by (cases u) (auto simp: start_def split: option.splits)

lemma bot_step_sys: "bot_step mk b b' \<Longrightarrow> bot_sys b' = bot_sys b \<or> orch_step mk (bot_sys b) (bot_sys b')"
  by (erule bot_stepE) (use dispatch_sys orch_step.intros in fastforce)+

text \<open>
  C39. The wired bot behaves exactly as the orchestrator: the orchestrator states of
  the reachable states of the bot are the reachable states of the orchestrator.
  Every state the bot reaches, whatever the users send (\<^verbatim>\<open>/start\<close> and other
  messages included), is one the orchestrator reaches, so every property of the
  orchestrator holds for the running program; and every state of the orchestrator is
  reached by the bot, so the photo handler is registered and every behaviour of the
  orchestrator is one of the program.
\<close>

theorem bot_simulates_orchestrator:
  "bot_sys ` {b. bot_reachable mk b} = {s. reachable mk s}"
proof
  show "bot_sys ` {b. bot_reachable mk b} \<subseteq> {s. reachable mk s}"
  proof clarify
    fix b assume "bot_reachable mk b"
    then show "reachable mk (bot_sys b)"
    proof induction
      case init
      then show ?case by (simp add: bot_init_def reachable.init)
    next
      case (step b b')
      then show ?case using bot_step_sys [OF step.hyps(2)] reachable.step by metis
    qed
  qed
next
  show "{s. reachable mk s} \<subseteq> bot_sys ` {b. bot_reachable mk b}"
  proof clarify
    fix s assume "reachable mk s"
    then show "s \<in> bot_sys ` {b. bot_reachable mk b}"
    proof induction
      case init
      have "bot_sys bot_init = init_sys" by (simp add: bot_init_def)
      then show ?case using bot_reachable.init [of mk] by (metis image_eqI mem_Collect_eq)
    next
      case (step s s')
      then obtain b where b: "bot_reachable mk b" "bot_sys b = s" by blast
      from step.hyps(2) show ?case
      proof cases
        case (receive dl)
        have "bot_reachable mk (dispatch (PhotoMessage dl) b)"
          by (rule bot_reachable.step [OF b(1) bot_step.deliver])
        then show ?thesis using b(2) receive by force
      next
        case (resume t i)
        have "bot_reachable mk (b\<lparr>bot_sys := s'\<rparr>)"
          by (rule bot_reachable.step [OF b(1) bot_step.resume]) (use b(2) resume in simp)
        then show ?thesis by force
      qed
    qed
  qed
qed

section \<open>Witnesses\<close>

theorem bot_simulates_orchestrator_witness:
  "handle_photo (Inr [1]) init_sys \<in> bot_sys ` {b. bot_reachable side_by_side b}"
proof -
  have "reachable side_by_side (handle_photo (Inr [1]) init_sys)"
    by (rule reachable.step [OF reachable.init orch_step.receive])
  then show ?thesis using bot_simulates_orchestrator [of side_by_side] by blast
qed

end
