(* ===== verification/Logging.thy ===== *)
theory Logging
  imports Orchestrator
begin

text \<open>
  The logging set-up of \<^verbatim>\<open>src/main.py\<close> (lines 34--37) and the records the
  program logs (lines 111, 115 and 127), as Python's \<^verbatim>\<open>logging\<close> module handles
  them: \<^verbatim>\<open>basicConfig\<close> installs one stream handler on the root logger with the
  format \<^verbatim>\<open>"%(asctime)s | %(levelname)s | %(message)s"\<close> and sets the root level to
  \<^verbatim>\<open>INFO\<close>; a record passes when its level is at least the root's, its message
  is \<^verbatim>\<open>msg % args\<close>, and the handler writes the formatted record and a newline to
  standard error. Texts are the UTF-8 bytes written to the stream.
\<close>

section \<open>Levels\<close>

datatype level = DEBUG | INFO | WARNING | ERROR | CRITICAL

fun levelno :: "level \<Rightarrow> nat" where
  "levelno DEBUG = 10"
| "levelno INFO = 20"
| "levelno WARNING = 30"
| "levelno ERROR = 40"
| "levelno CRITICAL = 50"

fun levelname :: "level \<Rightarrow> string" where
  "levelname DEBUG = ''DEBUG''"
| "levelname INFO = ''INFO''"
| "levelname WARNING = ''WARNING''"
| "levelname ERROR = ''ERROR''"
| "levelname CRITICAL = ''CRITICAL''"

text \<open>Levels are compared by their numbers, as \<^verbatim>\<open>Logger.isEnabledFor\<close> does.\<close>

instantiation level :: linorder
begin

definition less_eq_level :: "level \<Rightarrow> level \<Rightarrow> bool" where
  "a \<le> b \<longleftrightarrow> levelno a \<le> levelno b"

definition less_level :: "level \<Rightarrow> level \<Rightarrow> bool" where
  "a < b \<longleftrightarrow> levelno a < levelno b"

instance
proof
  fix a b :: level
  show "a \<le> b \<Longrightarrow> b \<le> a \<Longrightarrow> a = b"
    by (cases a; cases b) (simp_all add: less_eq_level_def)
qed (auto simp: less_eq_level_def less_level_def)

end

section \<open>Printing and reading decimals\<close>

text \<open>\<^verbatim>\<open>%d\<close> of a non-negative \<^verbatim>\<open>int\<close>: its decimal digits, no padding.\<close>

fun string_of_nat :: "nat \<Rightarrow> string" where
  "string_of_nat n =
     (if n < 10 then [char_of (48 + n)] else string_of_nat (n div 10) @ [char_of (48 + n mod 10)])"

declare string_of_nat.simps [simp del]

definition dec_digit :: "char \<Rightarrow> bool" where
  "dec_digit c \<longleftrightarrow> (48::nat) \<le> of_char c \<and> of_char c < (58::nat)"

text \<open>Reading a decimal back: a non-empty string of digits.\<close>

fun read_digits :: "nat \<Rightarrow> string \<Rightarrow> nat" where
  "read_digits acc [] = acc"
| "read_digits acc (c # cs) = read_digits (10 * acc + (of_char c - 48)) cs"

definition read_nat :: "string \<Rightarrow> nat option" where
  "read_nat s = (if s \<noteq> [] \<and> list_all dec_digit s then Some (read_digits 0 s) else None)"

section \<open>Record creation time\<close>

text \<open>
  \<^verbatim>\<open>Formatter.formatTime\<close> with the default formats:
  \<^verbatim>\<open>time.strftime("%Y-%m-%d %H:%M:%S")\<close> of the local creation time, then
  \<^verbatim>\<open>"%s,%03d" % (t, msecs)\<close>. \<^verbatim>\<open>%Y\<close> is not padded (glibc), the other fields are
  two digits wide and the milliseconds three.
\<close>

record datetime =
  year :: nat
  month :: nat
  day :: nat
  hour :: nat
  minute :: nat
  second :: nat
  msec :: nat

definition pad :: "nat \<Rightarrow> nat \<Rightarrow> string" where
  "pad w n = replicate (w - length (string_of_nat n)) CHR ''0'' @ string_of_nat n"

definition formatTime :: "datetime \<Rightarrow> string" where
  "formatTime d =
     string_of_nat (year d) @ ''-'' @ pad 2 (month d) @ ''-'' @ pad 2 (day d) @ '' ''
     @ pad 2 (hour d) @ '':'' @ pad 2 (minute d) @ '':'' @ pad 2 (second d) @ '','' @ pad 3 (msec d)"

section \<open>Percent-style formatting\<close>

text \<open>
  \<^verbatim>\<open>fmt % mapping\<close> for the conversions a logging format uses: \<^verbatim>\<open>%(key)s\<close>
  inserts the string of a record attribute, \<^verbatim>\<open>%%\<close> a percent sign. A key the record
  lacks is Python's \<open>KeyError\<close> and any other conversion is outside the model: both
  are \<open>None\<close>, the logging error of \<^verbatim>\<open>Handler.handleError\<close>.
\<close>

function fmt_percent :: "string \<Rightarrow> (string \<Rightarrow> string option) \<Rightarrow> string option" where
  "fmt_percent [] v = Some []"
| "fmt_percent (c # cs) v =
     (if c \<noteq> CHR ''%'' then map_option (Cons c) (fmt_percent cs v)
      else if cs \<noteq> [] \<and> hd cs = CHR ''%'' then map_option (Cons CHR ''%'') (fmt_percent (tl cs) v)
      else if cs \<noteq> [] \<and> hd cs = CHR ''('' then
        (let key = takeWhile (\<lambda>x. x \<noteq> CHR '')'') (tl cs);
             rest = dropWhile (\<lambda>x. x \<noteq> CHR '')'') (tl cs)
         in if take 2 rest = '')s'' then
              (case v key of
                 None \<Rightarrow> None
               | Some x \<Rightarrow> map_option (append x) (fmt_percent (drop 2 rest) v))
            else None)
      else None)"
  by pat_completeness auto
termination
proof (relation "measure (\<lambda>(cs, v). length cs)", goal_cases)
  case (4 c cs v key rest x)
  then show ?case using length_dropWhile_le [of "\<lambda>x. x \<noteq> CHR '')''" "tl cs"] by simp
qed auto

text \<open>
  The arguments of a logging call as the model has them: integers and strings.
  \<^verbatim>\<open>msg % args\<close> with the conversions \<^verbatim>\<open>%s\<close> (the argument's \<^verbatim>\<open>str\<close>),
  \<^verbatim>\<open>%d\<close> (an integer's decimal; a string is a \<open>TypeError\<close>) and \<^verbatim>\<open>%%\<close>; too
  few or too many arguments are a \<open>TypeError\<close>; every error is \<open>None\<close>.
\<close>

datatype arg = ArgInt nat | ArgStr string

fun arg_str :: "arg \<Rightarrow> string" where
  "arg_str (ArgInt n) = string_of_nat n"
| "arg_str (ArgStr s) = s"

fun msg_percent :: "string \<Rightarrow> arg list \<Rightarrow> string option" where
  "msg_percent [] args = (if args = [] then Some [] else None)"
| "msg_percent (c # cs) args =
     (if c \<noteq> CHR ''%'' then map_option (Cons c) (msg_percent cs args)
      else case cs of
        d # cs' \<Rightarrow>
          (if d = CHR ''%'' then map_option (Cons CHR ''%'') (msg_percent cs' args)
           else if d = CHR ''s'' then
             (case args of
                [] \<Rightarrow> None
              | a # as \<Rightarrow> map_option (append (arg_str a)) (msg_percent cs' as))
           else if d = CHR ''d'' then
             (case args of
                ArgInt n # as \<Rightarrow> map_option (append (string_of_nat n)) (msg_percent cs' as)
              | _ \<Rightarrow> None)
           else None)
      | [] \<Rightarrow> None)"

section \<open>Records, handlers and the root logger\<close>

text \<open>
  A log record as \<^verbatim>\<open>Logger.makeRecord\<close> creates it: the logger's name, the level,
  the message and its arguments, the formatted traceback when the call passed
  \<^verbatim>\<open>exc_info\<close> (\<^verbatim>\<open>logging.exception\<close>), and the creation time.
\<close>

record log_record =
  rec_name :: string
  rec_level :: level
  rec_msg :: string
  rec_args :: "arg list"
  rec_exc :: "string option"
  rec_time :: datetime

text \<open>\<^verbatim>\<open>LogRecord.getMessage\<close>: the message is formatted only when there are arguments.\<close>

definition getMessage :: "log_record \<Rightarrow> string option" where
  "getMessage r = (if rec_args r = [] then Some (rec_msg r) else msg_percent (rec_msg r) (rec_args r))"

definition record_attrs :: "log_record \<Rightarrow> string \<Rightarrow> string \<Rightarrow> string option" where
  "record_attrs r m k =
     (if k = ''asctime'' then Some (formatTime (rec_time r))
      else if k = ''levelname'' then Some (levelname (rec_level r))
      else if k = ''message'' then Some m
      else if k = ''name'' then Some (rec_name r)
      else None)"

text \<open>
  \<^verbatim>\<open>Formatter.format\<close>: the message, the format applied to the record's
  attributes, then the traceback on a new line.
\<close>

definition format_record :: "string \<Rightarrow> log_record \<Rightarrow> string option" where
  "format_record fmt r =
     (case getMessage r of
        None \<Rightarrow> None
      | Some m \<Rightarrow>
          (case fmt_percent fmt (record_attrs r m) of
             None \<Rightarrow> None
           | Some s \<Rightarrow>
               (case rec_exc r of
                  None \<Rightarrow> Some s
                | Some tb \<Rightarrow> Some (s @ (if last (CHR '' '' # s) = CHR 0x0A then [] else [CHR 0x0A]) @ tb))))"

text \<open>The text \<^verbatim>\<open>Handler.handleError\<close> writes in place of a record it cannot format.\<close>

definition LOGGING_ERROR :: string where
  "LOGGING_ERROR = ''--- Logging error ---'' @ [CHR 0x0A]"

text \<open>\<^verbatim>\<open>StreamHandler.emit\<close>: the formatted record and the terminator \<^verbatim>\<open>"\n"\<close>.\<close>

definition handler_write :: "string \<Rightarrow> log_record \<Rightarrow> string" where
  "handler_write fmt r = (case format_record fmt r of None \<Rightarrow> LOGGING_ERROR | Some s \<Rightarrow> s @ [CHR 0x0A])"

text \<open>
  The root logger: its level and the formats of its stream handlers, and the
  writes made to standard error, one per handled record and handler.
\<close>

record log_state =
  root_level :: level
  handlers :: "string list"
  stderr :: "string list"

definition log_init :: log_state where
  "log_init = \<lparr>root_level = WARNING, handlers = [], stderr = []\<rparr>"

definition BASIC_FORMAT :: string where
  "BASIC_FORMAT = ''%(levelname)s:%(name)s:%(message)s''"

text \<open>
  \<^verbatim>\<open>logging.basicConfig(format=, level=)\<close>: it does nothing when the root logger
  already has a handler; otherwise it adds a stream handler with the format (the
  default one when none is given) and sets the level when one is given.
\<close>

definition basicConfig :: "string option \<Rightarrow> level option \<Rightarrow> log_state \<Rightarrow> log_state" where
  "basicConfig fmt lvl st =
     (if handlers st \<noteq> [] then st
      else st\<lparr>handlers := [case fmt of None \<Rightarrow> BASIC_FORMAT | Some f \<Rightarrow> f],
              root_level := (case lvl of None \<Rightarrow> root_level st | Some l \<Rightarrow> l)\<rparr>)"

definition LOG_FORMAT :: string where
  "LOG_FORMAT = ''%(asctime)s | %(levelname)s | %(message)s''"

text \<open>Lines 34--37.\<close>

definition log_setup :: "log_state \<Rightarrow> log_state" where
  "log_setup st = basicConfig (Some LOG_FORMAT) (Some INFO) st"

text \<open>
  \<^verbatim>\<open>Logger.handle\<close> for a record of any logger below the root whose level is
  unset (the program's and the libraries'): the effective level is the root's; the
  record goes to the root's handlers, or, when there are none, to
  \<^verbatim>\<open>logging.lastResort\<close>, which writes records of level \<^verbatim>\<open>WARNING\<close> and above
  with the format \<^verbatim>\<open>%(message)s\<close>.
\<close>

definition emit :: "log_record \<Rightarrow> log_state \<Rightarrow> log_state" where
  "emit r st =
     (if rec_level r < root_level st then st
      else if handlers st = [] then
        (if WARNING \<le> rec_level r then st\<lparr>stderr := stderr st @ [handler_write ''%(message)s'' r]\<rparr> else st)
      else st\<lparr>stderr := stderr st @ map (\<lambda>f. handler_write f r) (handlers st)\<rparr>)"

text \<open>
  The module functions \<^verbatim>\<open>logging.info\<close>, \<^verbatim>\<open>logging.exception\<close>: a root logger
  without handlers is first given the default configuration.
\<close>

definition log_root :: "log_record \<Rightarrow> log_state \<Rightarrow> log_state" where
  "log_root r st = emit r (if handlers st = [] then basicConfig None None st else st)"

section \<open>The records of the program\<close>

text \<open>
  The messages, as the UTF-8 bytes of their Russian text: the prefix of the total's
  message of line 111 (Russian for ``Total photos generated: '') before its
  \<^verbatim>\<open>%d\<close>, the message of \<^verbatim>\<open>logging.exception\<close> on line 115 (``Processing
  error''), and the start message of line 127 (``Bot started.'').
\<close>

definition TOTAL_PREFIX :: string where
  "TOTAL_PREFIX = map char_of
    [208, 146, 209, 129, 208, 181, 208, 179, 208, 190, 32, 209, 129, 208, 179, 208,
     181, 208, 189, 208, 181, 209, 128, 208, 184, 209, 128, 208, 190, 208, 178,
     208, 176, 208, 189, 208, 190, 32, 209, 132, 208, 190, 209, 130, 208, 190,
     208, 179, 209, 128, 208, 176, 209, 132, 208, 184, 208, 185, 58, 32::nat]"

definition TOTAL_MSG :: string where
  "TOTAL_MSG = TOTAL_PREFIX @ ''%d''"

definition ERROR_MSG :: string where
  "ERROR_MSG = map char_of
    [208, 158, 209, 136, 208, 184, 208, 177, 208, 186, 208, 176, 32, 208, 190, 208,
     177, 209, 128, 208, 176, 208, 177, 208, 190, 209, 130, 208, 186, 208, 184::nat]"

definition STARTED_MSG :: string where
  "STARTED_MSG = map char_of
    [208, 145, 208, 190, 209, 130, 32, 208, 183, 208, 176, 208, 191, 209, 131, 209,
     137, 208, 181, 208, 189, 46::nat]"

definition root_record :: "level \<Rightarrow> string \<Rightarrow> arg list \<Rightarrow> string option \<Rightarrow> datetime \<Rightarrow> log_record" where
  "root_record l m as x d = \<lparr>rec_name = ''root'', rec_level = l, rec_msg = m, rec_args = as, rec_exc = x, rec_time = d\<rparr>"

text \<open>
  The record a logging event of \<^verbatim>\<open>work()\<close> makes: \<^verbatim>\<open>logging.info\<close> of the new
  total (line 111) and \<^verbatim>\<open>logging.exception\<close> (line 115), whose record carries the
  traceback of the exception being handled; \<open>tb\<close> is the text
  \<^verbatim>\<open>traceback\<close> makes of an exception (file names and line numbers of the
  installation).
\<close>

fun event_record :: "(exc \<Rightarrow> string) \<Rightarrow> datetime \<Rightarrow> event \<Rightarrow> log_record option" where
  "event_record tb d (LogTotal t n) = Some (root_record INFO TOTAL_MSG [ArgInt n] None d)"
| "event_record tb d (LogError t e) = Some (root_record ERROR ERROR_MSG [] (Some (tb e)) d)"
| "event_record tb d _ = None"

text \<open>The logging calls of a sequence of events, the \<open>i\<close>-th record made at time \<open>clk i\<close>.\<close>

fun log_events :: "(exc \<Rightarrow> string) \<Rightarrow> (nat \<Rightarrow> datetime) \<Rightarrow> event list \<Rightarrow> log_state \<Rightarrow> log_state" where
  "log_events tb clk [] st = st"
| "log_events tb clk (e # es) st =
     (case event_record tb (clk 0) e of
        None \<Rightarrow> log_events tb clk es st
      | Some r \<Rightarrow> log_events tb (clk \<circ> Suc) es (log_root r st))"

text \<open>
  What the program writes to standard error: the module runs \<^verbatim>\<open>basicConfig\<close>
  (lines 34--37), \<^verbatim>\<open>main\<close> logs its start (line 127), then the tasks log as their
  events say.
\<close>

definition program_log :: "(exc \<Rightarrow> string) \<Rightarrow> (nat \<Rightarrow> datetime) \<Rightarrow> event list \<Rightarrow> log_state" where
  "program_log tb clk evs =
     log_events tb (clk \<circ> Suc) evs (log_root (root_record INFO STARTED_MSG [] None (clk 0)) (log_setup log_init))"

section \<open>Reading the log back\<close>

text \<open>Splitting a line at the first occurrence of a separator.\<close>

fun split_sep :: "string \<Rightarrow> string \<Rightarrow> (string \<times> string) option" where
  "split_sep sep [] = (if sep = [] then Some ([], []) else None)"
| "split_sep sep (c # cs) =
     (if take (length sep) (c # cs) = sep then Some ([], drop (length sep) (c # cs))
      else map_option (\<lambda>(a, b). (c # a, b)) (split_sep sep cs))"

definition parse_log_line :: "string \<Rightarrow> (string \<times> string \<times> string) option" where
  "parse_log_line w =
     (case split_sep '' | '' w of
        None \<Rightarrow> None
      | Some (t, r) \<Rightarrow> (case split_sep '' | '' r of None \<Rightarrow> None | Some (l, m) \<Rightarrow> Some (t, l, m)))"

text \<open>The total a write of line 111 reports, read back from the text on standard error.\<close>

definition read_total :: "string \<Rightarrow> nat option" where
  "read_total w =
     (case parse_log_line w of
        None \<Rightarrow> None
      | Some (t, l, m) \<Rightarrow>
          (if l = ''INFO'' \<and> take (length TOTAL_PREFIX) m = TOTAL_PREFIX \<and> m \<noteq> [] \<and> last m = CHR 0x0A
           then read_nat (butlast (drop (length TOTAL_PREFIX) m)) else None))"

definition totals_of_log :: "string list \<Rightarrow> nat list" where
  "totals_of_log ws = List.map_filter read_total ws"

text \<open>The shape of a line written with \<open>LOG_FORMAT\<close>.\<close>

definition log_line :: "datetime \<Rightarrow> level \<Rightarrow> string \<Rightarrow> string" where
  "log_line d l m = formatTime d @ '' | '' @ levelname l @ '' | '' @ m"

definition log_configured :: "log_state \<Rightarrow> bool" where
  "log_configured st \<longleftrightarrow> handlers st = [LOG_FORMAT] \<and> root_level st = INFO"

section \<open>Proofs\<close>

lemma of_char_digit [simp]: "d < 10 \<Longrightarrow> of_char (char_of (48 + d) :: char) = (48 + d :: nat)"
  by (simp add: of_char_of)

lemma string_of_nat_digits: "string_of_nat n \<noteq> [] \<and> list_all dec_digit (string_of_nat n)"
proof (induction n rule: string_of_nat.induct)
  case (1 n)
  then show ?case unfolding string_of_nat.simps [of n] by (auto simp: dec_digit_def)
qed

lemma read_digits_append [simp]: "read_digits acc (xs @ ys) = read_digits (read_digits acc xs) ys"
  by (induction acc xs rule: read_digits.induct) auto

lemma read_digits_string_of_nat:
  "read_digits acc (string_of_nat n) = acc * 10 ^ length (string_of_nat n) + n"
proof (induction n arbitrary: acc rule: string_of_nat.induct)
  case (1 n)
  show ?case
  proof (cases "n < 10")
    case True
    then show ?thesis by (subst (1 2) string_of_nat.simps) simp
  next
    case False
    then show ?thesis
      by (subst (1 2) string_of_nat.simps) (simp add: "1" algebra_simps)
  qed
qed

lemma read_nat_string_of_nat [simp]: "read_nat (string_of_nat n) = Some n"
  using string_of_nat_digits [of n] by (simp add: read_nat_def read_digits_string_of_nat)


lemma no_bar_digits: "list_all dec_digit xs \<Longrightarrow> CHR ''|'' \<notin> set xs"
  by (induction xs) (auto simp: dec_digit_def)

lemma no_bar_string_of_nat [simp]: "CHR ''|'' \<notin> set (string_of_nat n)"
  using string_of_nat_digits no_bar_digits by blast

lemma no_bar_formatTime [simp]: "CHR ''|'' \<notin> set (formatTime d)"
  by (simp add: formatTime_def pad_def)

lemma no_bar_levelname [simp]: "CHR ''|'' \<notin> set (levelname l)"
  by (cases l) simp_all

lemma split_sep_bar:
  "CHR ''|'' \<notin> set a \<Longrightarrow> split_sep '' | '' (a @ CHR '' '' # CHR ''|'' # CHR '' '' # b) = Some (a, b)"
proof (induction a)
  case Nil
  then show ?case by simp
next
  case (Cons c a)
  then show ?case by (cases a) auto
qed

lemma fmt_LOG_FORMAT:
  "fmt_percent LOG_FORMAT (record_attrs r m) = Some (log_line (rec_time r) (rec_level r) m)"
  by (simp add: LOG_FORMAT_def record_attrs_def log_line_def)

lemma log_line_append [simp]: "log_line d l m @ x = log_line d l (m @ x)"
  by (simp add: log_line_def)

lemma parse_log_line [simp]: "parse_log_line (log_line d l m) = Some (formatTime d, levelname l, m)"
  by (simp add: log_line_def parse_log_line_def split_sep_bar)

lemma handler_write_LOG_FORMAT:
  "getMessage r = Some m \<Longrightarrow> rec_exc r = None \<Longrightarrow>
   handler_write LOG_FORMAT r = log_line (rec_time r) (rec_level r) (m @ [CHR 0x0A])"
  by (simp add: handler_write_def format_record_def fmt_LOG_FORMAT)

lemma handler_write_LOG_FORMAT_exc:
  assumes "getMessage r = Some m"
  shows "\<exists>x. handler_write LOG_FORMAT r = log_line (rec_time r) (rec_level r) (m @ x)"
proof (cases "rec_exc r")
  case None
  then show ?thesis using handler_write_LOG_FORMAT [OF assms] by blast
next
  case (Some tb)
  then show ?thesis using assms by (auto simp: handler_write_def format_record_def fmt_LOG_FORMAT)
qed

lemma log_setup_init: "log_configured (log_setup log_init) \<and> stderr (log_setup log_init) = []"
  by (simp add: log_setup_def basicConfig_def log_init_def log_configured_def)

lemma log_root_configured:
  "log_configured st \<Longrightarrow>
   log_root r st = st\<lparr>stderr := stderr st @ (if rec_level r < INFO then [] else [handler_write LOG_FORMAT r])\<rparr>"
  by (simp add: log_root_def emit_def log_configured_def)

lemma log_configured_stderr [simp]: "log_configured (st\<lparr>stderr := w\<rparr>) = log_configured st"
  by (simp add: log_configured_def)

lemma log_configured_log_root [simp]: "log_configured st \<Longrightarrow> log_configured (log_root r st)"
  by (simp add: log_root_configured log_configured_def)

lemma notin_map_char_of:
  "of_char ch \<notin> (\<lambda>n. n mod 256) ` set ns \<Longrightarrow> ch \<notin> set (map char_of (ns :: nat list))"
  by auto

lemma msg_percent_plain:
  "CHR ''%'' \<notin> set xs \<Longrightarrow> msg_percent (xs @ ys) as = map_option (append xs) (msg_percent ys as)"
  by (induction xs) (auto simp: map_option_case split: option.splits)

lemma total_message: "getMessage (root_record INFO TOTAL_MSG [ArgInt n] None d) = Some (TOTAL_PREFIX @ string_of_nat n)"
proof -
  have "CHR ''%'' \<notin> set TOTAL_PREFIX"
    unfolding TOTAL_PREFIX_def by (rule notin_map_char_of) simp
  then show ?thesis by (simp add: getMessage_def root_record_def TOTAL_MSG_def msg_percent_plain)
qed


lemma char_of_eq_iff: "n < 256 \<Longrightarrow> char_of n = c \<longleftrightarrow> of_char c = (n :: nat)"
  by (auto simp: of_char_of)

lemma root_record_simps [simp]:
  "rec_level (root_record l m as x d) = l" "rec_time (root_record l m as x d) = d"
  "rec_exc (root_record l m as x d) = x"
  by (simp_all add: root_record_def)

lemma read_total_total:
  "read_total (handler_write LOG_FORMAT (root_record INFO TOTAL_MSG [ArgInt n] None d)) = Some n"
  using handler_write_LOG_FORMAT [OF total_message] by (simp add: read_total_def)

lemma read_total_error:
  "read_total (handler_write LOG_FORMAT (root_record ERROR ERROR_MSG [] x d)) = None"
proof -
  have "getMessage (root_record ERROR ERROR_MSG [] x d) = Some ERROR_MSG"
    by (simp add: getMessage_def root_record_def)
  then obtain y where "handler_write LOG_FORMAT (root_record ERROR ERROR_MSG [] x d) = log_line d ERROR (ERROR_MSG @ y)"
    using handler_write_LOG_FORMAT_exc by fastforce
  then show ?thesis by (simp add: read_total_def)
qed

lemma read_total_started:
  "read_total (handler_write LOG_FORMAT (root_record INFO STARTED_MSG [] None d)) = None"
proof -
  have "getMessage (root_record INFO STARTED_MSG [] None d) = Some STARTED_MSG"
    by (simp add: getMessage_def root_record_def)
  moreover have "take (length TOTAL_PREFIX) (STARTED_MSG @ [CHR 0x0A]) \<noteq> TOTAL_PREFIX"
  proof
    assume "take (length TOTAL_PREFIX) (STARTED_MSG @ [CHR 0x0A]) = TOTAL_PREFIX"
    then have "length (take (length TOTAL_PREFIX) (STARTED_MSG @ [CHR 0x0A])) = length TOTAL_PREFIX"
      by simp
    then show False by (simp add: STARTED_MSG_def TOTAL_PREFIX_def)
  qed
  ultimately show ?thesis by (simp add: handler_write_LOG_FORMAT read_total_def)
qed

lemma totals_of_log_append [simp]: "totals_of_log (xs @ ys) = totals_of_log xs @ totals_of_log ys"
  by (simp add: totals_of_log_def map_filter_def)

lemma totals_of_log_single [simp]:
  "totals_of_log [w] = (case read_total w of None \<Rightarrow> [] | Some n \<Rightarrow> [n])"
  by (simp add: totals_of_log_def map_filter_def split: option.split)

lemma level_not_below_INFO [simp]: "\<not> INFO < INFO" "\<not> ERROR < INFO"
  by (simp_all add: less_level_def)

lemma log_events_totals:
  "log_configured st \<Longrightarrow>
   log_configured (log_events tb clk es st)
   \<and> totals_of_log (stderr (log_events tb clk es st)) = totals_of_log (stderr st) @ logged_totals es"
proof (induction es arbitrary: clk st)
  case Nil
  then show ?case by simp
next
  case (Cons e es)
  then show ?case
    by (cases e) (simp_all add: log_root_configured read_total_total read_total_error)
qed


text \<open>
  C12. The totals logged under \<^verbatim>\<open>COUNTER_LOCK\<close> can be read back from what the
  program writes to standard error: with the handler of lines 34--37, the INFO lines
  of line 111, parsed at their \<^verbatim>\<open>" | "\<close> separators and their decimal read back,
  are exactly 1, 2, \<dots>, n in the order written, n being \<^verbatim>\<open>TOTAL_GENERATED\<close>;
  the start line of \<^verbatim>\<open>main\<close> and the ERROR records of line 115, tracebacks
  included, contribute none.
\<close>

theorem logged_totals_read_back:
  assumes "reachable mk s"
  shows "totals_of_log (stderr (program_log tb clk (events s))) = [1..<Suc (total_generated s)]"
proof -
  let ?st = "log_root (root_record INFO STARTED_MSG [] None (clk 0)) (log_setup log_init)"
  have c: "log_configured ?st" and e: "totals_of_log (stderr ?st) = []"
    using log_setup_init by (simp_all add: log_root_configured read_total_started)
  have "logged_totals (events s) = [1..<Suc (total_generated s)]"
    using reachable_orch_inv [OF assms] by (simp add: orch_inv_def counter_inv_def)
  then show ?thesis
    using log_events_totals [OF c, of tb "clk \<circ> Suc" "events s"] e by (simp add: program_log_def)
qed

text \<open>
  C28. The handler of lines 34--37 writes every record of level INFO or above, of
  any logger, as one line \<open>asctime | levelname | message\<close>: only DEBUG records are
  dropped. The libraries' loggers included: the INFO line \<^verbatim>\<open>httpx\<close> logs for
  every request of the Telegram client carries the request URL, which holds the bot
  token.
\<close>

theorem records_at_info_written:
  assumes "getMessage r = Some m" "rec_exc r = None"
  shows "stderr (emit r (log_setup log_init)) =
           (if rec_level r = DEBUG then []
            else [formatTime (rec_time r) @ '' | '' @ levelname (rec_level r) @ '' | '' @ m @ [CHR 0x0A]])"
proof -
  have "rec_level r < INFO \<longleftrightarrow> rec_level r = DEBUG"
    by (cases "rec_level r") (simp_all add: less_level_def)
  then show ?thesis
    using log_setup_init handler_write_LOG_FORMAT [OF assms]
    by (simp add: emit_def log_configured_def log_line_def)
qed

section \<open>Witnesses\<close>

theorem logged_totals_read_back_witness:
  "\<exists>s. reachable side_by_side s
       \<and> totals_of_log (stderr (program_log (\<lambda>e. ''Traceback'')
            (\<lambda>i. \<lparr>year = 2025, month = 1, day = 2, hour = 3, minute = 4, second = 5, msec = 6\<rparr>)
            (events s))) = [1]"
proof -
  obtain s where r: "run side_by_side demo_success init_sys = Some s" and g: "total_generated s = 1"
    using demo_success_run by blast
  have "reachable side_by_side s" using run_reachable [OF r reachable.init] .
  with g logged_totals_read_back [of side_by_side s] show ?thesis by auto
qed

theorem records_at_info_written_witness:
  \<open>stderr (emit \<lparr>rec_name = ''httpx'', rec_level = INFO, rec_msg = ''HTTP Request: %s %s "%s %d %s"'',
                 rec_args = [ArgStr ''POST'', ArgStr ''https://api.telegram.org/bot123456:SECRET/getUpdates'',
                             ArgStr ''HTTP/1.1'', ArgInt 200, ArgStr ''OK''],
                 rec_exc = None,
                 rec_time = \<lparr>year = 2025, month = 1, day = 2, hour = 3, minute = 4, second = 5, msec = 6\<rparr>\<rparr>
            (log_setup log_init))
   = [''2025-01-02 03:04:05,006 | INFO | HTTP Request: POST https://api.telegram.org/bot123456:SECRET/getUpdates "HTTP/1.1 200 OK"''
      @ [CHR 0x0A]]\<close>
  by (simp add: records_at_info_written getMessage_def formatTime_def pad_def string_of_nat.simps
                char_of_eq_iff numeral_2_eq_2)

end
