(* ===== verification/Spec2Isabelle.thy ===== *)
theory Spec2Isabelle
  imports Pixels Bot Logging
begin

text \<open>
  \<^bold>\<open>A verification development of the photo-aging bot (\<^verbatim>\<open>src/main.py\<close>).\<close>

  \<^bold>\<open>The program.\<close> A Telegram bot receives a photo, asks an image service to age
  it, puts the original and the aged image side by side on a template, and replies
  with the collage. Its parts, in the order of the data flow:
  \<^item> the handler \<^verbatim>\<open>handle_photo\<close> (lines 99--118) downloads the photo, sends a
    processing notice and spawns the coroutine \<^verbatim>\<open>work()\<close> without awaiting it;
  \<^item> \<^verbatim>\<open>work()\<close> awaits \<^verbatim>\<open>age_photo\<close>, runs \<^verbatim>\<open>make_collage\<close> in a worker thread,
    increments \<^verbatim>\<open>TOTAL_GENERATED\<close> under \<^verbatim>\<open>COUNTER_LOCK\<close>, edits the notice and
    sends the collage; any exception edits the notice to a failure text;
  \<^item> \<^verbatim>\<open>age_photo\<close> (lines 46--59) holds one of the four slots of
    \<^verbatim>\<open>OPENAI_SEM\<close> around one call of \<^verbatim>\<open>client.images.edit\<close> and decodes the
    Base64 payload of the answer with \<^verbatim>\<open>base64.b64decode\<close>;
  \<^item> \<^verbatim>\<open>make_collage\<close> and \<^verbatim>\<open>_prepare\<close> (lines 62--92) compose the collage with
    Pillow;
  \<^item> the start-up code (lines 15--43) reads the configuration and fails fast
    without credentials, and configures logging (lines 34--37); \<^verbatim>\<open>start\<close> and
    \<^verbatim>\<open>main\<close> wire the handlers to Telegram.

  \<^bold>\<open>The theories.\<close>
  \<^item> \<^verbatim>\<open>Prelude\<close>: bytes as lists of 8-bit words, the exceptions of a request as
    the datatype \<open>exc\<close> (one constructor per raise site), counting lemmas.
  \<^item> \<^verbatim>\<open>Base64\<close>: \<^verbatim>\<open>base64.b64decode\<close> as CPython 3.11 runs it
    (\<^verbatim>\<open>binascii.a2b_base64\<close> in non-strict mode): the decoding table
    \<open>a2b_table\<close>, the loop state \<open>a2b_state\<close> (\<open>quad_pos\<close>, \<open>leftchar\<close>,
    \<open>pads\<close>, the output buffer), one digit \<open>a2b_digit\<close>, the loop \<open>a2b_loop\<close>
    with its early exit on a pad sequence, the final check \<open>a2b_base64\<close>, and the
    ASCII conversion of the string argument; and \<open>b64encode\<close>, the encoding the
    service uses.
  \<^item> \<^verbatim>\<open>AgingClient\<close>: the semaphore operations \<open>sem_acquire\<close>/\<open>sem_release\<close>
    on \<^verbatim>\<open>OPENAI_SEM._value\<close>, the request record \<open>age_request\<close> (model, the
    \<open>PROMPT\<close> of lines 26--30 as UTF-8 bytes, image, \<^verbatim>\<open>n\<close>, quality, size), the
    response records, and \<open>age_photo_result\<close>, what
    \<^verbatim>\<open>age_photo\<close> returns or raises once the service has answered.
  \<^item> \<^verbatim>\<open>Config\<close>: lines 15--22. \<open>load_dotenv\<close> (the process environment wins over
    \<^verbatim>\<open>.env\<close>), \<open>getenv\<close>/\<open>getenv_default\<close>, Python truthiness \<open>py_truthy\<close>, and
    \<open>load_config\<close>, the configuration or \<open>MissingCredentials\<close> (the
    \<^verbatim>\<open>RuntimeError\<close> of line 22).
  \<^item> \<^verbatim>\<open>Prepare\<close>: \<^verbatim>\<open>_prepare\<close> (lines 62--68) as geometry. \<open>fit_crop\<close> is the crop box
    computation of \<^verbatim>\<open>ImageOps.fit\<close> with \<^verbatim>\<open>_prepare\<close>'s arguments, in rationals;
    \<open>resize_geom\<close> the argument checks of \<^verbatim>\<open>Image.resize\<close>; \<open>putalpha_geom\<close> the
    size check of \<^verbatim>\<open>putalpha\<close>; \<open>prepare\<close> chains them from the decoded size.
  \<^item> \<^verbatim>\<open>Collage\<close>: \<^verbatim>\<open>make_collage\<close> (lines 71--92) as geometry. The constants
    \<open>left_box\<close>, \<open>right_box\<close>, \<open>BORDER_WIDTH\<close>, \<open>CORNER_RAD\<close>; the drawing
    operations \<open>draw_op\<close> (paste, outline, shadow composite) with the pixels each may
    write (\<open>op_extent\<close>, Pillow's conventions: pasted images half-open, drawn boxes
    closed); \<open>collage_ops\<close>, the sequence of lines 79--88; \<open>make_collage_geom\<close>,
    which opens the template, prepares both photos and returns the collage's size and
    operations; \<open>last_writer\<close>, the operation a pixel finally shows.
  \<^item> \<^verbatim>\<open>Pixels\<close>: the pixel arithmetic of those operations as Pillow's C code does
    it: \<open>SHIFTFORDIV255\<close>, \<open>DIV255\<close> and \<open>BLEND\<close> of \<^verbatim>\<open>ImagingUtils.h\<close>;
    \<open>paste_px\<close> (paste with the image's own alpha as mask); \<open>alpha_composite_px\<close>
    (\<^verbatim>\<open>ImagingAlphaComposite\<close> with its 7 extra bits of precision); images as a
    size and a pixel function, \<open>paste_masked\<close>, \<open>alpha_composite_at\<close> and
    \<open>draw_outline\<close> with Pillow's clipping, and \<open>render\<close>, the fold of
    \<open>collage_ops\<close> over the template. The outline's rasterisation and the blurred
    shadow layer are parameters.
  \<^item> \<^verbatim>\<open>Bot\<close>: \<^verbatim>\<open>start\<close> (lines 95--96) and the handler registration of
    \<^verbatim>\<open>main\<close> (lines 121--128): updates (\<open>update\<close>) are dispatched to the command
    handler, the photo handler or none (\<open>dispatch\<close>); \<open>bot_step\<close> interleaves
    dispatched updates with task resumptions, \<open>bot_reachable\<close> is the running bot.
  \<^item> \<^verbatim>\<open>Logging\<close>: the logging set-up of lines 34--37 and the records of
    lines 111, 115 and 127 as Python's \<^verbatim>\<open>logging\<close> handles them: levels
    (\<open>level\<close>, ordered by \<open>levelno\<close>), \<^verbatim>\<open>%\<close>-formatting of a message
    (\<open>msg_percent\<close>) and of a format (\<open>fmt_percent\<close>), \<open>formatTime\<close>, the
    record \<open>log_record\<close>, \<open>format_record\<close> and \<open>handler_write\<close>, the root
    logger \<open>log_state\<close> with \<open>basicConfig\<close>, \<open>emit\<close> and \<open>log_root\<close>;
    \<open>log_setup\<close> is lines 34--37, \<open>event_record\<close> the record a logging event
    of \<^verbatim>\<open>work()\<close> makes, \<open>program_log\<close> what the program writes to standard
    error; \<open>parse_log_line\<close> and \<open>read_total\<close> read the lines back.
  \<^item> This theory: \<open>collage_mk\<close>, the orchestrator's composition instantiated with
    \<^verbatim>\<open>make_collage\<close> (line 107); \<open>program_start\<close>, the module body and
    \<^verbatim>\<open>main\<close> under the guard of lines 131--132 (configuration, the client of line
    24, logging set-up, the builder's token, the start line), with the lemmas
    \<open>program_start_fails\<close> and \<open>program_start_ok\<close>; and the properties that
    span components.
  \<^item> \<^verbatim>\<open>Orchestrator\<close>: the whole concurrent behaviour. The state \<open>sys\<close> holds
    the semaphore's counter, \<^verbatim>\<open>TOTAL_GENERATED\<close>, the tasks in the order of their
    creation (each with its photo and the point where it is suspended, \<open>phase\<close>)
    and the log of everything emitted (Telegram messages, service calls, log
    lines), tagged with the task that emitted it. \<open>handle_photo\<close> is the handler;
    \<open>task_resume\<close> runs one task from one \<^verbatim>\<open>await\<close> to the next, given what the
    environment answered (\<open>resume\<close>); \<open>orch_step\<close> interleaves handlers and
    resumptions in any order, and \<open>reachable\<close> is the set of states of all
    interleavings. The asyncio loop switches tasks only at an \<^verbatim>\<open>await\<close>, so each
    resumption is atomic; in particular the increment under \<^verbatim>\<open>COUNTER_LOCK\<close>
    happens in the same resumption as the return of the worker thread. The
    composition is a parameter \<open>mk\<close> of the steps: every theorem holds for every
    composition function. \<open>run\<close> executes a given schedule, for concrete runs.

  \<^bold>\<open>What is proved.\<close> Of the orchestrator (theory \<^verbatim>\<open>Orchestrator\<close>): an
  invariant of all reachable states (\<open>orch_inv\<close>) that ties the semaphore to the
  tasks awaiting the service, the logged totals to the counter, the counter to the
  requests whose collage was composed, and the events of each task to its state.
  From it: at most four calls are in flight (C1); no increment of the counter is
  lost (C2); each step moves the counter by one exactly when it is the return of
  \<^verbatim>\<open>make_collage\<close> with a collage, and leaves it alone otherwise (C3); the events
  of a successful and of a failed request (C4, C5); a request counted and then failed
  exists (C6); from every reachable state all requests can terminate and all slots
  come back (C7, by a measure of the work left); idle means all slots free (C8); one
  service call per request (C9); any payload the decoder rejects takes the failure
  path with the decoder's exception, frees the slot and ends in the failure edit
  (C10); with four calls in flight every \<^verbatim>\<open>acquire\<close> blocks (C11).
  Of the log (theory \<^verbatim>\<open>Logging\<close>): the totals written to standard error read
  back as 1, \<dots>, n (C12), and every record of level INFO or above of any logger,
  the libraries' included, is written as one line (C28).
  Of the decoder (theory \<^verbatim>\<open>Base64\<close>): the round trip with the standard encoding
  (C13), the output bound of the C buffer (C14), the skipping of foreign bytes (C15),
  and the result and both errors on unpadded input by the number of digits (C16).
  Of the client (\<^verbatim>\<open>AgingClient\<close>): the image returned is the one encoded in the
  response (C17), and the exceptions it can raise (C18). Of the configuration: the
  fail-fast condition (C19) and the values read, with the precedence of the sources
  and the template default (C20). Of \<^verbatim>\<open>_prepare\<close>: it succeeds with exactly the
  requested size on every image (C21); the crop box has the target's ratio, is centred
  and maximal (C22); the scale is \<open>max (w / iw) (h / ih)\<close>, fill and crop (C23). Of
  \<^verbatim>\<open>make_collage\<close>: it succeeds with the template's size (C24); its writes stay in the
  template exactly when the template is at least 867 by 623 (C25); the two slots do
  not overlap (C26); the right photo overflows its 362-pixel-wide box (C27).
  Across the program: each step refines, request by request, the specification's
  state machine \<open>Pending \<rightarrow> {Succeeded, Failed}\<close> whose transitions carry their
  evidence: a request ends succeeded only in the step that sends a collage composed
  from its own photo, failed only in the step that reports the failure, and an ended
  request emits nothing more (C29). Of the pixels: \<open>DIV255\<close> is rounded division by
  255 (C30); paste with mask keeps bytes, shows the template under transparent pixels
  and the photo under opaque ones (C31); the alpha composite never overflows its
  32-bit intermediates (C32) and over an opaque pixel is the reference source-over
  blend (C33); rendering leaves every pixel outside the operations' extents alone
  (C34) and ends each photo pixel below the shadow's top edge under the shadow (C35).
  Termination: \<^verbatim>\<open>work()\<close> cannot be resumed forever, the resumption relation is
  well-founded and each request is resumed at most six times (C36, by the measure
  \<open>work_left\<close>). The decoder's loop state keeps its shape and its shifts lose no bit
  (C37). Across components: with a missing template no request is ever counted or
  succeeds (C38, here); the states of the wired bot are exactly the states of the
  orchestrator, so its properties hold whatever updates arrive and all of its
  behaviours occur (C39).

  \<^bold>\<open>Bounds and parameters.\<close> The semaphore limit is the constant 4 of line 32.
  The layout constants are those of lines 42--43 and 73--74. The model has no fuel:
  every step function is total; the liveness theorem is proved by induction on the
  resumptions left along chosen answers (\<open>pending\<close>), termination by the
  resumptions left along any answers (\<open>work_left\<close>, at most six per request).

  \<^bold>\<open>Not modelled (yet).\<close> The Telegram and OpenAI libraries are the environment:
  each of their calls is a step whose answer (a value or an exception) is free.
  Of Pillow, the geometry (sizes, crop boxes, the pixels each operation may write,
  their order) and the blending arithmetic are modelled, not the LANCZOS filter, the
  rasterisation of rounded rectangles (a parameter of the rendering), the blur
  (the shadow layer is a parameter) and the PNG encoding; the blending of paste and
  \<^verbatim>\<open>alpha_composite\<close> is modelled in theory \<^verbatim>\<open>Pixels\<close>. \<^verbatim>\<open>ImageOps.fit\<close>
  computes in floats; the model computes in exact rationals, so rounding effects of
  the float crop box are outside the model. The orchestrator keeps the composition
  \<open>mk\<close> as a parameter, as its theorems hold for every composition; \<open>collage_mk\<close>
  instantiates it with the model of \<^verbatim>\<open>make_collage\<close> where a property needs it.
  Of \<^verbatim>\<open>main\<close>, the builder, the polling loop and the thread pool of line 124 are
  the environment (the pool only delays compositions, which the interleaving already
  allows). Of \<^verbatim>\<open>logging\<close>, the conversions other than \<^verbatim>\<open>%s\<close>,
  \<^verbatim>\<open>%d\<close>, \<^verbatim>\<open>%%\<close> and \<^verbatim>\<open>%(key)s\<close>, the record attributes other
  than the four the formats use, and the text of tracebacks (a parameter) are outside
  the model; the clock is a parameter. The client of line 24 and the application of line 122 are
  represented by the credential each is given; their behaviour is the libraries'.

  The rasterisation of Pillow's rounded rectangle (the mask of \<^verbatim>\<open>_prepare\<close> and
  the outlines), its LANCZOS resampling and its Gaussian blur are C code of the
  library, not of this repository, whose pixel-exact rules depend on the Pillow
  version; the model keeps them as parameters, so \<^verbatim>\<open>_prepare\<close> and
  \<^verbatim>\<open>make_collage\<close> stay partly modelled. The imports of lines 1--13 have no
  behaviour of their own.
\<close>

section \<open>The orchestrator running \<^verbatim>\<open>make_collage\<close>\<close>

text \<open>
  Line 107 runs \<^verbatim>\<open>make_collage(before_bytes, after_bytes)\<close> in a worker thread: the
  composition \<open>mk\<close> of the orchestrator is \<^verbatim>\<open>make_collage\<close>, whose exception or
  collage (encoded as PNG bytes by \<open>enc\<close>) is what the thread returns.
\<close>

definition collage_mk ::
  "(string \<rightharpoonup> size) \<Rightarrow> (bytes \<Rightarrow> exc + size) \<Rightarrow> string \<Rightarrow> (collage \<Rightarrow> bytes) \<Rightarrow> bytes \<Rightarrow> bytes \<Rightarrow> exc + bytes" where
  "collage_mk files decode tpl enc b a =
     (case make_collage_geom files decode tpl b a of Inl e \<Rightarrow> Inl e | Inr c \<Rightarrow> Inr (enc c))"

lemma collage_mk_no_template:
  "files tpl = None \<Longrightarrow> \<forall>b a c. collage_mk files decode tpl enc b a \<noteq> Inr c"
  by (simp add: collage_mk_def make_collage_geom_def)

section \<open>The program from its start\<close>

text \<open>
  Running \<^verbatim>\<open>src/main.py\<close>: the module body executes lines 15--43 (the
  configuration, which raises before anything else when a credential is missing; the
  client of line 24 built with \<^verbatim>\<open>OPENAI_API_KEY\<close>; the logging set-up of lines
  34--37), then the guard of lines 131--132 calls \<^verbatim>\<open>main\<close>, which builds the
  application with \<^verbatim>\<open>TELEGRAM_BOT_KEY\<close> (line 122), registers the handlers and
  logs its start (line 127) before polling. \<open>d\<close> is the time of the start record.
\<close>

record program =
  prog_config :: config
  client_api_key :: string
  builder_token :: string
  prog_bot :: bot
  prog_log :: log_state

definition program_start :: "environ \<Rightarrow> environ \<Rightarrow> datetime \<Rightarrow> startup_error + program" where
  "program_start dotenv env0 d =
     (case load_config dotenv env0 of
        Inl e \<Rightarrow> Inl e
      | Inr cfg \<Rightarrow>
          Inr \<lparr>prog_config = cfg, client_api_key = openai_api_key cfg,
               builder_token = telegram_bot_key cfg, prog_bot = bot_init,
               prog_log = log_root (root_record INFO STARTED_MSG [] None d) (log_setup log_init)\<rparr>)"

section \<open>Properties across components\<close>

text \<open>
  Start-up: the program fails exactly as the configuration does, and otherwise
  hands the credentials read to the client and to the Telegram builder, starts with
  the initial bot, and has written one line, the start message, with the format of
  line 35.
\<close>

lemma program_start_fails: "program_start dotenv env0 d = Inl e \<longleftrightarrow> load_config dotenv env0 = Inl e"
  by (simp add: program_start_def split: sum.split)

lemma program_start_ok:
  assumes "program_start dotenv env0 d = Inr p"
  shows "load_config dotenv env0 = Inr (prog_config p)
         \<and> client_api_key p = openai_api_key (prog_config p)
         \<and> builder_token p = telegram_bot_key (prog_config p)
         \<and> prog_bot p = bot_init \<and> log_configured (prog_log p)
         \<and> stderr (prog_log p) = [formatTime d @ '' | INFO | '' @ STARTED_MSG @ [CHR 0x0A]]"
proof (cases "load_config dotenv env0")
  case (Inl e)
  then show ?thesis using assms by (simp add: program_start_def)
next
  case (Inr cfg)
  have "getMessage (root_record INFO STARTED_MSG [] None d) = Some STARTED_MSG"
    by (simp add: getMessage_def root_record_def)
  then show ?thesis
    using assms Inr log_setup_init handler_write_LOG_FORMAT
    by (auto simp: program_start_def log_root_configured log_line_def)
qed

text \<open>
  C38. A missing template fails every request and counts none: when
  \<^verbatim>\<open>TEMPLATE_PATH\<close> names no file, in every reachable state of the bot's
  orchestrator \<^verbatim>\<open>TOTAL_GENERATED\<close> is 0 and no request has succeeded, whatever
  the service answers.
\<close>

theorem missing_template_counts_nothing:
  assumes "files tpl = None" "reachable (collage_mk files decode tpl enc) s"
  shows "total_generated s = 0 \<and> (\<forall>k \<in> set (tasks s). phase k \<noteq> Finished Succeeded)"
proof -
  let ?mk = "collage_mk files decode tpl enc"
  have fails: "\<forall>b a c. ?mk b a \<noteq> Inr c"
    using assms(1) by (rule collage_mk_no_template)
  have "count_ev (counted s) [0..<length (tasks s)] = 0"
    unfolding count_ev_eq_0_iff using never_counted [OF fails assms(2)] by blast
  then have "total_generated s = 0"
    using reachable_count_inv [OF assms(2)] by simp
  moreover have "phase k \<noteq> Finished Succeeded" if "k \<in> set (tasks s)" for k
    using reachable_succeeded_made_by [OF assms(2) that] fails by (auto simp: made_by_def)
  ultimately show ?thesis by blast
qed

section \<open>Witnesses\<close>

theorem missing_template_counts_nothing_witness:
  "\<exists>s. run (collage_mk Map.empty demo_decode DEFAULT_TEMPLATE_PATH (\<lambda>c. []))
          [Recv (Inr [1]), Resume 0 SemSlot, Resume 0 (ApiReturn demo_response), Resume 0 ThreadReturn]
          init_sys = Some s
       \<and> phase (tasks s ! 0) = Failing (ImageError ''No such file or directory'')
       \<and> total_generated s = 0"
proof -
  let ?mk = "collage_mk Map.empty demo_decode DEFAULT_TEMPLATE_PATH (\<lambda>c. [])"
  obtain s where r: "run ?mk [Recv (Inr [1]), Resume 0 SemSlot, Resume 0 (ApiReturn demo_response),
                              Resume 0 ThreadReturn] init_sys = Some s"
      and ph: "phase (tasks s ! 0) = Failing (ImageError ''No such file or directory'')"
    by (simp add: run_simps collage_mk_def make_collage_geom_def)
  have "total_generated s = 0"
    using missing_template_counts_nothing [of Map.empty DEFAULT_TEMPLATE_PATH demo_decode "\<lambda>c. []" s]
          run_reachable [OF r reachable.init] by simp
  with r ph show ?thesis by blast
qed

end
